(* ===== verification/AR_Prelude.thy ===== *)
theory AR_Prelude
  imports Main "HOL-Library.Word" "HOL-Library.Sublist"
begin

text \<open>
  Shared vocabulary of the development: the integer widths of the C code, the result
  type in which undefined behaviour is a value, bounds-checked access to arrays and
  global tables, the C string functions the code calls, and the search loop
  \<open>for (index = 0; index < n; index++) if (...) return index; return -1;\<close> that the
  rule databases share.
\<close>

unbundle bit_operations_syntax

named_theorems res_simps "rewriting of the result type"
named_theorems cstr_simps "evaluation of the C string functions"

section \<open>Widths and results\<close>

type_synonym u8 = "8 word"
type_synonym u16 = "16 word"
type_synonym u32 = "32 word"

text \<open>
  What the C program must not do.  A definition that returns \<open>Inl f\<close> has reached
  behaviour that C (or the kernel) leaves undefined: the model stops there.
\<close>

datatype fault =
    NullDeref      \<comment> \<open>access through a NULL pointer\<close>
  | UseAfterFree   \<comment> \<open>access through a pointer to a released block\<close>
  | DoubleFree     \<comment> \<open>release of a block that is not live\<close>
  | OutOfBounds    \<comment> \<open>access outside the array or block\<close>
  | BadCast        \<comment> \<open>a \<open>void *\<close> read at a type it does not have\<close>
  | IntRange       \<comment> \<open>a value outside the range the C type requires\<close>

type_synonym 'a res = "fault + 'a"

definition rbind :: "'a res \<Rightarrow> ('a \<Rightarrow> 'b res) \<Rightarrow> 'b res" where
  "rbind m f = (case m of Inl e \<Rightarrow> Inl e | Inr x \<Rightarrow> f x)"

lemma rbind_Inl [simp, res_simps]: "rbind (Inl e) f = Inl e"
  by (simp add: rbind_def)

lemma rbind_Inr [simp, res_simps]: "rbind (Inr x) f = f x"
  by (simp add: rbind_def)

lemma rbind_assoc [res_simps]: "rbind (rbind m f) g = rbind m (\<lambda>x. rbind (f x) g)"
  by (cases m) simp_all

lemma rbind_eq_Inr: "rbind m f = Inr y \<longleftrightarrow> (\<exists>x. m = Inr x \<and> f x = Inr y)"
  by (cases m) simp_all

lemma rbind_InrE:
  assumes "rbind m f = Inr y"
  obtains x where "m = Inr x" and "f x = Inr y"
  using assms by (auto simp: rbind_eq_Inr)

lemma rbind_cong [fundef_cong]:
  "m = m' \<Longrightarrow> (\<And>x. m' = Inr x \<Longrightarrow> f x = f' x) \<Longrightarrow> rbind m f = rbind m' f'"
  by (cases m') simp_all

text \<open>\<open>safe r\<close>: the computation reaches no undefined behaviour.\<close>

definition safe :: "'a res \<Rightarrow> bool" where
  "safe r = (case r of Inl _ \<Rightarrow> False | Inr _ \<Rightarrow> True)"

lemma safe_Inr [simp, intro]: "safe (Inr x)"
  by (simp add: safe_def)

lemma not_safe_Inl [simp]: "\<not> safe (Inl f)"
  by (simp add: safe_def)

lemma safe_iff: "safe r \<longleftrightarrow> (\<exists>x. r = Inr x)"
  by (cases r) auto

section \<open>Arrays and table pointers\<close>

text \<open>Reading and writing one element of an array: outside the array is a fault.\<close>

definition buf_get :: "'a list \<Rightarrow> nat \<Rightarrow> 'a res" where
  "buf_get xs i = (if i < length xs then Inr (xs ! i) else Inl OutOfBounds)"

definition buf_set :: "'a list \<Rightarrow> nat \<Rightarrow> 'a \<Rightarrow> 'a list res" where
  "buf_set xs i x = (if i < length xs then Inr (xs[i := x]) else Inl OutOfBounds)"

text \<open>\<open>memcpy (dst + i, src, length src)\<close>.\<close>

definition buf_copy :: "'a list \<Rightarrow> nat \<Rightarrow> 'a list \<Rightarrow> 'a list res" where
  "buf_copy dst i src =
     (if i + length src \<le> length dst
      then Inr (take i dst @ src @ drop (i + length src) dst)
      else Inl OutOfBounds)"

lemma buf_get_in [simp]: "i < length xs \<Longrightarrow> buf_get xs i = Inr (xs ! i)"
  by (simp add: buf_get_def)

lemma buf_get_out [simp]: "length xs \<le> i \<Longrightarrow> buf_get xs i = Inl OutOfBounds"
  by (simp add: buf_get_def)

lemma buf_set_in [simp]: "i < length xs \<Longrightarrow> buf_set xs i x = Inr (xs[i := x])"
  by (simp add: buf_set_def)

lemma buf_set_out [simp]: "length xs \<le> i \<Longrightarrow> buf_set xs i x = Inl OutOfBounds"
  by (simp add: buf_set_def)

lemma buf_copy_in [simp]:
  "i + length src \<le> length dst \<Longrightarrow>
     buf_copy dst i src = Inr (take i dst @ src @ drop (i + length src) dst)"
  by (simp add: buf_copy_def)

lemma buf_copy_out [simp]:
  "length dst < i + length src \<Longrightarrow> buf_copy dst i src = Inl OutOfBounds"
  by (simp add: buf_copy_def)

lemma length_buf_copy: "buf_copy dst i src = Inr b \<Longrightarrow> length b = length dst"
  by (auto simp: buf_copy_def split: if_splits)

text \<open>
  A global pointer to a table obtained with \<open>kzalloc\<close>: not allocated, released again
  (the code does not reset the pointer), or live with its elements.
\<close>

datatype 'a tblptr = TNull | TFreed | TArr "'a list"

fun tbl_get :: "'a tblptr \<Rightarrow> nat \<Rightarrow> 'a res" where
  "tbl_get TNull i = Inl NullDeref"
| "tbl_get TFreed i = Inl UseAfterFree"
| "tbl_get (TArr xs) i = buf_get xs i"

fun tbl_set :: "'a tblptr \<Rightarrow> nat \<Rightarrow> 'a \<Rightarrow> 'a tblptr res" where
  "tbl_set TNull i x = Inl NullDeref"
| "tbl_set TFreed i x = Inl UseAfterFree"
| "tbl_set (TArr xs) i x = rbind (buf_set xs i x) (\<lambda>ys. Inr (TArr ys))"

text \<open>The elements behind a live table pointer.\<close>

definition arr :: "'a tblptr \<Rightarrow> 'a list" where
  "arr t = (case t of TArr xs \<Rightarrow> xs | _ \<Rightarrow> [])"

lemma arr_TArr [simp]: "arr (TArr xs) = xs"
  by (simp add: arr_def)

text \<open>A loop that does \<open>f\<close> with every element and collects what it gives, up to the first fault.\<close>

fun rmap :: "('a \<Rightarrow> 'b res) \<Rightarrow> 'a list \<Rightarrow> 'b list res" where
  "rmap f [] = Inr []"
| "rmap f (x # xs) = rbind (f x) (\<lambda>y. rbind (rmap f xs) (\<lambda>ys. Inr (y # ys)))"

lemma rmap_cong [fundef_cong]:
  "xs = ys \<Longrightarrow> (\<And>x. x \<in> set ys \<Longrightarrow> f x = g x) \<Longrightarrow> rmap f xs = rmap g ys"
  by (induction ys arbitrary: xs) auto

lemma rmap_if:
  "rmap (\<lambda>x. if P x then Inr (g x) else Inl e) xs = (if list_all P xs then Inr (map g xs) else Inl e)"
  by (induction xs) auto

lemma rmap_Inr: "rmap (\<lambda>x. Inr (g x)) xs = Inr (map g xs)"
  by (induction xs) auto

lemma rmap_map: "rmap f (map g xs) = rmap (\<lambda>x. f (g x)) xs"
  by (induction xs) auto

text \<open>A loop over the first \<open>n\<close> elements of a table reads them in order.\<close>

lemma rmap_table:
  assumes "n \<le> length xs"
  shows "rmap (\<lambda>i. rbind (buf_get xs i) (f i)) [0..<n] =
    rmap (\<lambda>(i, x). f i x) (List.enumerate 0 (take n xs))"
proof -
  have "rmap (\<lambda>i. rbind (buf_get xs i) (f i)) [0..<n] = rmap (\<lambda>i. f i (xs ! i)) [0..<n]"
    using assms by (intro rmap_cong) auto
  moreover have "List.enumerate 0 (take n xs) = map (\<lambda>i. (i, xs ! i)) [0..<n]"
    using assms by (intro nth_equalityI) (simp_all add: nth_enumerate_eq)
  ultimately show ?thesis by (simp add: rmap_map)
qed

lemma rmap_buf:
  "rmap (\<lambda>j. rbind (buf_get b j) (\<lambda>x. Inr (f x))) [0..<n] =
     (if n \<le> length b then Inr (map f (take n b)) else Inl OutOfBounds)"
proof -
  have "rmap (\<lambda>j. rbind (buf_get b j) (\<lambda>x. Inr (f x))) [0..<n] =
      rmap (\<lambda>j. if j < length b then Inr (f (b ! j)) else Inl OutOfBounds) [0..<n]"
    by (intro rmap_cong) (auto simp: buf_get_def)
  moreover have "list_all (\<lambda>j. j < length b) [0..<n] \<longleftrightarrow> n \<le> length b"
    by (cases n) (auto simp: list_all_iff)
  moreover have "map (\<lambda>j. f (b ! j)) [0..<n] = map f (take n b)" if "n \<le> length b"
    using that by (intro nth_equalityI) simp_all
  ultimately show ?thesis by (simp add: rmap_if)
qed

section \<open>The search loop of the databases\<close>

text \<open>
  \<open>scan p t i k\<close>: the remaining \<open>k\<close> turns of the loop that reads \<open>t[index]\<close>, tests
  it with \<open>p\<close> and returns the index of the first hit, or -1 after the last turn.  The
  test may itself fault.
\<close>

fun scan :: "('a \<Rightarrow> bool res) \<Rightarrow> 'a tblptr \<Rightarrow> nat \<Rightarrow> nat \<Rightarrow> int res" where
  "scan p t i 0 = Inr (- 1)"
| "scan p t i (Suc k) =
     rbind (tbl_get t i) (\<lambda>e. rbind (p e) (\<lambda>hit.
       if hit then Inr (int i) else scan p t (Suc i) k))"

text \<open>The position of the first element that satisfies \<open>P\<close>.\<close>

definition first_pos :: "('a \<Rightarrow> bool) \<Rightarrow> 'a list \<Rightarrow> nat" where
  "first_pos P xs = length (takeWhile (\<lambda>x. \<not> P x) xs)"

lemma first_pos_Nil [simp]: "first_pos P [] = 0"
  by (simp add: first_pos_def)

lemma first_pos_Cons [simp]: "first_pos P (x # xs) = (if P x then 0 else Suc (first_pos P xs))"
  by (simp add: first_pos_def)

lemma first_pos_less: "\<exists>x \<in> set xs. P x \<Longrightarrow> first_pos P xs < length xs"
  by (induction xs) auto

lemma first_pos_hit: "\<exists>x \<in> set xs. P x \<Longrightarrow> P (xs ! first_pos P xs)"
  by (induction xs) auto

lemma first_pos_append:
  "first_pos P (xs @ ys) =
     (if \<exists>x \<in> set xs. P x then first_pos P xs else length xs + first_pos P ys)"
  by (induction xs) auto

lemma first_pos_map: "first_pos P (map f xs) = first_pos (\<lambda>x. P (f x)) xs"
  by (induction xs) simp_all

lemma scan_drop:
  assumes "i + k \<le> length xs" and "\<And>e. e \<in> set (take k (drop i xs)) \<Longrightarrow> p e = Inr (P e)"
  shows "scan p (TArr xs) i k =
    Inr (if \<exists>e \<in> set (take k (drop i xs)). P e
         then int (i + first_pos P (take k (drop i xs))) else - 1)"
  using assms
proof (induction k arbitrary: i)
  case 0
  then show ?case by simp
next
  case (Suc k)
  have i: "i < length xs" using Suc.prems(1) by simp
  then have tk: "take (Suc k) (drop i xs) = xs ! i # take k (drop (Suc i) xs)"
    by (metis Cons_nth_drop_Suc take_Suc_Cons)
  have hd: "p (xs ! i) = Inr (P (xs ! i))"
    using Suc.prems(2) tk by simp
  have "scan p (TArr xs) (Suc i) k =
    Inr (if \<exists>e \<in> set (take k (drop (Suc i) xs)). P e
         then int (Suc i + first_pos P (take k (drop (Suc i) xs))) else - 1)"
    using Suc.prems tk by (intro Suc.IH) auto
  with i hd tk show ?case by simp
qed

text \<open>The loop over the first \<open>n\<close> elements, when every test is defined.\<close>

lemma scan_eq:
  assumes "n \<le> length xs" and "\<And>e. e \<in> set (take n xs) \<Longrightarrow> p e = Inr (P e)"
  shows "scan p (TArr xs) 0 n =
    Inr (if \<exists>e \<in> set (take n xs). P e then int (first_pos P (take n xs)) else - 1)"
  using scan_drop [of 0 n xs p P] assms by simp

text \<open>A loop that runs past the array without a hit faults.\<close>

lemma scan_out_of_bounds:
  assumes "length xs < i + k" and "i \<le> length xs" and "\<And>e. e \<in> set (drop i xs) \<Longrightarrow> p e = Inr False"
  shows "scan p (TArr xs) i k = Inl OutOfBounds"
  using assms
proof (induction k arbitrary: i)
  case 0
  then show ?case by simp
next
  case (Suc k)
  show ?case
  proof (cases "i < length xs")
    case True
    then have "drop i xs = xs ! i # drop (Suc i) xs"
      by (simp add: Cons_nth_drop_Suc)
    with Suc.prems have "p (xs ! i) = Inr False"
      and "scan p (TArr xs) (Suc i) k = Inl OutOfBounds"
      by (auto intro!: Suc.IH simp: True Suc_leI)
    with True show ?thesis by simp
  next
    case False
    with Suc.prems show ?thesis by simp
  qed
qed

text \<open>A loop whose tests miss until one of them faults.\<close>

lemma scan_fault:
  assumes "j < k" and "i + k \<le> length xs" and "\<And>e. e \<in> set (take j (drop i xs)) \<Longrightarrow> p e = Inr False"
    and "p (xs ! (i + j)) = Inl f"
  shows "scan p (TArr xs) i k = Inl f"
  using assms
proof (induction k arbitrary: i j)
  case 0
  then show ?case by simp
next
  case (Suc k)
  show ?case
  proof (cases j)
    case 0
    with Suc.prems show ?thesis by simp
  next
    case (Suc j')
    have tk: "take j (drop i xs) = xs ! i # take j' (drop (Suc i) xs)"
      using Suc Suc.prems(2) by (metis Cons_nth_drop_Suc Suc_leI add_Suc_right le_add1 order_less_le_trans
          take_Suc_Cons less_Suc_eq_le not_less_eq_eq)
    then have "p (xs ! i) = Inr False" using Suc.prems(3) by simp
    moreover have "scan p (TArr xs) (Suc i) k = Inl f"
      using Suc.prems tk Suc by (intro Suc.IH [of j']) auto
    ultimately show ?thesis using Suc.prems(2) by simp
  qed
qed

section \<open>C strings\<close>

text \<open>
  A C string in memory is a byte buffer with a NUL in it.  The functions read byte by
  byte and fault when they run off the end of the buffer.
\<close>

definition bytes_of :: "string \<Rightarrow> u8 list" where
  "bytes_of s = map of_char s"

definition cstr :: "string \<Rightarrow> u8 list" where
  "cstr s = bytes_of s @ [0]"

lemma of_char_u8_eq [simp]: "((of_char c :: u8) = of_char d) = (c = d)"
proof -
  have "(of_char c :: u8) = of_char d \<longleftrightarrow>
      (word_of_nat (of_char c) :: u8) = word_of_nat (of_char d)"
    by (simp only: of_nat_of_char)
  also have "\<dots> \<longleftrightarrow> take_bit 8 (of_char c :: nat) = take_bit 8 (of_char d)"
    by (simp add: word_of_nat_eq_iff)
  also have "\<dots> \<longleftrightarrow> c = d" by (simp add: take_bit_eq_mod)
  finally show ?thesis .
qed

lemma of_char_u8_nul: "(of_char (CHR 0x00) :: u8) = 0"
  by simp

lemma of_char_u8_zero [simp]: "((of_char c :: u8) = 0) = (c = CHR 0x00)"
  using of_char_u8_eq [of c "CHR 0x00"] by (simp only: of_char_u8_nul)

lemma prefix_bytes_of [simp]: "prefix (bytes_of s) (bytes_of t) = prefix s t"
proof
  assume "prefix (bytes_of s) (bytes_of t)"
  then show "prefix s t"
  proof (induction s arbitrary: t)
    case Nil
    then show ?case by simp
  next
    case (Cons c s)
    then show ?case by (cases t) (auto simp: bytes_of_def)
  qed
qed (auto simp: bytes_of_def map_mono_prefix)

lemma nul_in_bytes_of [simp]: "0 \<in> set (bytes_of s) \<longleftrightarrow> CHR 0x00 \<in> set s"
  by (induction s) (auto simp: bytes_of_def)

fun c_strlen :: "u8 list \<Rightarrow> nat res" where
  "c_strlen [] = Inl OutOfBounds"
| "c_strlen (b # bs) = (if b = 0 then Inr 0 else rbind (c_strlen bs) (\<lambda>n. Inr (Suc n)))"

fun c_strncmp :: "u8 list \<Rightarrow> u8 list \<Rightarrow> nat \<Rightarrow> int res" where
  "c_strncmp as bs 0 = Inr 0"
| "c_strncmp (a # as) (b # bs) (Suc n) =
     (if a \<noteq> b then Inr (uint a - uint b)
      else if a = 0 then Inr 0
      else c_strncmp as bs n)"
| "c_strncmp _ _ (Suc n) = Inl OutOfBounds"

fun c_strcmp :: "u8 list \<Rightarrow> u8 list \<Rightarrow> int res" where
  "c_strcmp (a # as) (b # bs) =
     (if a \<noteq> b then Inr (uint a - uint b)
      else if a = 0 then Inr 0
      else c_strcmp as bs)"
| "c_strcmp _ _ = Inl OutOfBounds"

text \<open>The characters before the NUL.\<close>

definition cstr_val :: "u8 list \<Rightarrow> u8 list" where
  "cstr_val bs = takeWhile (\<lambda>b. b \<noteq> 0) bs"

definition has_nul :: "u8 list \<Rightarrow> bool" where
  "has_nul bs = (0 \<in> set bs)"

lemma has_nul_Cons [simp]: "has_nul (b # bs) \<longleftrightarrow> b = 0 \<or> has_nul bs"
  by (auto simp: has_nul_def)

lemma has_nul_Nil [simp]: "\<not> has_nul []"
  by (simp add: has_nul_def)

lemma has_nul_append [simp]: "has_nul (as @ bs) \<longleftrightarrow> has_nul as \<or> has_nul bs"
  by (auto simp: has_nul_def)

lemma cstr_val_Nil [simp]: "cstr_val [] = []"
  by (simp add: cstr_val_def)

lemma cstr_val_Cons [simp]: "cstr_val (b # bs) = (if b = 0 then [] else b # cstr_val bs)"
  by (simp add: cstr_val_def)

lemma cstr_val_append_nul [simp]: "0 \<notin> set s \<Longrightarrow> cstr_val (s @ 0 # r) = s"
  by (induction s) auto

lemma nul_notin_cstr_val [simp]: "0 \<notin> set (cstr_val bs)"
  by (induction bs) auto

lemma c_strlen_eq: "has_nul bs \<Longrightarrow> c_strlen bs = Inr (length (cstr_val bs))"
  by (induction bs) auto

lemma c_strlen_append_nul [simp]: "0 \<notin> set s \<Longrightarrow> c_strlen (s @ 0 # r) = Inr (length s)"
  by (induction s) auto

lemma c_strlen_no_nul: "\<not> has_nul bs \<Longrightarrow> c_strlen bs = Inl OutOfBounds"
  by (induction bs) auto

lemma cstr_val_length: "has_nul bs \<Longrightarrow> length (cstr_val bs) < length bs"
  by (induction bs) auto

lemma uint_u8_eq [simp]: "(uint a = uint (b :: u8)) = (a = b)"
  by (simp add: word_uint_eq_iff)

lemma uint_u8_zero [simp]: "(uint (a :: u8) = 0) = (a = 0)" "(0 = uint (a :: u8)) = (a = 0)"
  by (auto simp: word_uint_eq_iff)

text \<open>\<open>strcmp\<close> is zero exactly when the strings before the NULs are equal.\<close>

lemma c_strcmp_zero:
  "has_nul as \<Longrightarrow> has_nul bs \<Longrightarrow>
     \<exists>d. c_strcmp as bs = Inr d \<and> (d = 0 \<longleftrightarrow> cstr_val as = cstr_val bs)"
  by (induction as bs rule: c_strcmp.induct) auto

text \<open>
  \<open>strncmp\<close> with the length of its first argument is zero exactly when the first
  argument is a prefix of the second.
\<close>

lemma c_strncmp_prefix:
  "has_nul as \<Longrightarrow> has_nul bs \<Longrightarrow>
     \<exists>d. c_strncmp as bs (length (cstr_val as)) = Inr d \<and>
         (d = 0 \<longleftrightarrow> prefix (cstr_val as) (cstr_val bs))"
proof (induction as arbitrary: bs)
  case Nil
  then show ?case by simp
next
  case (Cons a as)
  show ?case
  proof (cases "a = 0")
    case True
    then show ?thesis by simp
  next
    case False
    obtain b bs' where bs: "bs = b # bs'" using Cons.prems(2) by (cases bs) auto
    show ?thesis
    proof (cases "a = b")
      case True
      with False Cons.prems bs have "has_nul as" and "has_nul bs'" by auto
      from Cons.IH [OF this] True False bs show ?thesis by auto
    next
      case ne: False
      with False bs show ?thesis by auto
    qed
  qed
qed

section \<open>Words\<close>

lemma u8_not_negative: "\<not> uint (x :: u8) < 0"
  by simp

lemma int_eq_neg1 [simp]: "int n = - 1 \<longleftrightarrow> False"
  by simp

end
