(* ===== verification/AR_Slots.thy ===== *)
theory AR_Slots
  imports AR_Prelude
begin

text \<open>
  The shape the rule databases share: an array whose first \<open>n\<close> slots are in use, distinct
  and not marked free, and whose other slots are marked free.  \<open>upsert\<close> is the abstract
  insertion every database promises; the locale \<open>rule_table\<close> is the contract between
  an insertion operation and its clients, and proves once what any sequence of
  insertions leaves in the table.
\<close>

section \<open>Slots in an array\<close>

definition slots :: "('a \<Rightarrow> bool) \<Rightarrow> 'a list \<Rightarrow> nat \<Rightarrow> bool" where
  "slots free xs n \<longleftrightarrow>
     n \<le> length xs \<and> list_all (\<lambda>x. \<not> free x) (take n xs) \<and> distinct (take n xs) \<and>
     list_all free (drop n xs)"

lemma slots_le: "slots free xs n \<Longrightarrow> n \<le> length xs"
  by (simp add: slots_def)

lemma slots_used: "slots free xs n \<Longrightarrow> x \<in> set (take n xs) \<Longrightarrow> \<not> free x"
  by (simp add: slots_def list_all_iff)

lemma slots_rest: "slots free xs n \<Longrightarrow> x \<in> set (drop n xs) \<Longrightarrow> free x"
  by (simp add: slots_def list_all_iff)

lemma slots_distinct: "slots free xs n \<Longrightarrow> distinct (take n xs)"
  by (simp add: slots_def)

lemma slots_fresh_table: "free z \<Longrightarrow> slots free (replicate m z) 0"
  by (simp add: slots_def list_all_iff)

text \<open>The first free slot is the one after the slots in use.\<close>

lemma slots_first_free:
  assumes "slots free xs n"
  shows "(\<exists>x \<in> set xs. free x) \<longleftrightarrow> n < length xs" and "n < length xs \<Longrightarrow> first_pos free xs = n"
proof -
  have used: "\<not> (\<exists>x \<in> set (take n xs). free x)" using slots_used [OF assms] by auto
  have rest: "\<forall>x \<in> set (drop n xs). free x" using slots_rest [OF assms] by auto
  have "set xs = set (take n xs) \<union> set (drop n xs)"
    by (metis append_take_drop_id set_append)
  then have "(\<exists>x \<in> set xs. free x) \<longleftrightarrow> (\<exists>x \<in> set (drop n xs). free x)"
    using used by blast
  also have "\<dots> \<longleftrightarrow> n < length xs"
  proof
    assume "\<exists>x \<in> set (drop n xs). free x"
    then show "n < length xs" by (metis drop_eq_Nil empty_iff empty_set leI)
  next
    assume "n < length xs"
    then have "xs ! n \<in> set (drop n xs)" by (metis Cons_nth_drop_Suc list.set_intros(1))
    with rest show "\<exists>x \<in> set (drop n xs). free x" by blast
  qed
  finally show "(\<exists>x \<in> set xs. free x) \<longleftrightarrow> n < length xs" .
  assume n: "n < length xs"
  then have "free (xs ! n)" using rest
    by (metis Cons_nth_drop_Suc list.set_intros(1))
  then have "first_pos free (drop n xs) = 0"
    using n by (metis Cons_nth_drop_Suc first_pos_Cons)
  then show "first_pos free xs = n"
    using used n first_pos_append [of free "take n xs" "drop n xs"] by simp
qed

lemma take_Suc_update: "n < length xs \<Longrightarrow> take (Suc n) (xs[n := x]) = take n xs @ [x]"
  by (simp add: take_Suc_conv_app_nth)

lemma slots_insert:
  assumes "slots free xs n" and "n < length xs" and "\<not> free x" and "x \<notin> set (take n xs)"
  shows "slots free (xs[n := x]) (Suc n)"
  using assms
  using set_drop_subset_set_drop [of n "Suc n" xs]
  by (auto simp: slots_def take_Suc_update list_all_iff)

lemma first_pos_eq_nth:
  "x \<in> set xs \<Longrightarrow> first_pos (\<lambda>y. y = x) xs < length xs \<and> xs ! first_pos (\<lambda>y. y = x) xs = x"
  using first_pos_less [of xs "\<lambda>y. y = x"] first_pos_hit [of xs "\<lambda>y. y = x"] by blast

lemma first_pos_take_update:
  assumes "x \<in> set (take n xs)"
  shows "xs[first_pos (\<lambda>y. y = x) (take n xs) := x] = xs"
    and "first_pos (\<lambda>y. y = x) (take n xs) < length xs"
proof -
  let ?i = "first_pos (\<lambda>y. y = x) (take n xs)"
  from first_pos_eq_nth [OF assms]
  have lt: "?i < length (take n xs)" and nth: "take n xs ! ?i = x" by auto
  from lt nth have "xs ! ?i = x" by simp
  then show "xs[?i := x] = xs" by (metis list_update_id)
  from lt show "?i < length xs" by simp
qed

section \<open>The abstract insertion\<close>

definition upsert :: "nat \<Rightarrow> 'k list \<Rightarrow> 'k \<Rightarrow> 'k list" where
  "upsert room ks k = (if k \<in> set ks \<or> room \<le> length ks then ks else ks @ [k])"

definition upserts :: "nat \<Rightarrow> 'k list \<Rightarrow> 'k list \<Rightarrow> 'k list" where
  "upserts room ks js = foldl (upsert room) ks js"

lemma upserts_Nil [simp]: "upserts room ks [] = ks"
  by (simp add: upserts_def)

lemma upserts_Cons [simp]: "upserts room ks (j # js) = upserts room (upsert room ks j) js"
  by (simp add: upserts_def)

lemma upserts_append: "upserts room ks (is @ js) = upserts room (upserts room ks is) js"
  by (simp add: upserts_def)

lemma upsert_distinct: "distinct ks \<Longrightarrow> distinct (upsert room ks k)"
  by (simp add: upsert_def)

lemma upsert_length: "length ks \<le> room \<Longrightarrow> length (upsert room ks k) \<le> room"
  by (simp add: upsert_def)

lemma upserts_keep: "set ks \<subseteq> set (upserts room ks js)"
proof (induction js arbitrary: ks)
  case Nil
  then show ?case by simp
next
  case (Cons j js)
  have "set ks \<subseteq> set (upsert room ks j)" by (auto simp: upsert_def)
  also have "\<dots> \<subseteq> set (upserts room (upsert room ks j) js)" by (rule Cons.IH)
  finally show ?case by simp
qed

lemma upserts_subset: "set (upserts room ks js) \<subseteq> set ks \<union> set js"
proof (induction js arbitrary: ks)
  case Nil
  then show ?case by simp
next
  case (Cons j js)
  have "set (upserts room (upsert room ks j) js) \<subseteq> set (upsert room ks j) \<union> set js"
    by (rule Cons.IH)
  also have "\<dots> \<subseteq> set ks \<union> set (j # js)" by (auto simp: upsert_def)
  finally show ?case by simp
qed

text \<open>With enough room nothing is lost.\<close>

lemma upserts_all:
  "distinct ks \<Longrightarrow> card (set ks \<union> set js) \<le> room \<Longrightarrow> set (upserts room ks js) = set ks \<union> set js"
proof (induction js arbitrary: ks)
  case Nil
  then show ?case by simp
next
  case (Cons j js)
  have "set (upsert room ks j) = insert j (set ks)"
  proof (cases "j \<in> set ks")
    case True
    then show ?thesis by (auto simp: upsert_def)
  next
    case False
    have "Suc (length ks) = card (insert j (set ks))"
      using False Cons.prems(1) by (simp add: distinct_card)
    also have "\<dots> \<le> card (set ks \<union> set (j # js))" by (rule card_mono) auto
    finally have "length ks < room" using Cons.prems(2) by simp
    with False show ?thesis by (auto simp: upsert_def)
  qed
  with Cons.IH [OF upsert_distinct [OF Cons.prems(1)], of room j] Cons.prems(2) show ?case
    by simp
qed

section \<open>The contract of a rule table\<close>

text \<open>Running a sequence of insertions and collecting the status each one returns.\<close>

fun run_inserts :: "('e \<Rightarrow> 's \<Rightarrow> (int \<times> 's) res) \<Rightarrow> 'e list \<Rightarrow> 's \<Rightarrow> (int list \<times> 's) res" where
  "run_inserts ins [] s = Inr ([], s)"
| "run_inserts ins (e # es) s =
     rbind (ins e s) (\<lambda>(r, s1). rbind (run_inserts ins es s1) (\<lambda>(rs, s2). Inr (r # rs, s2)))"

text \<open>
  \<open>ins\<close> inserts, \<open>key\<close> is what the table stores for an argument, \<open>rules\<close> reads the slots in
  use, \<open>room\<close> is the size of the array, \<open>wf\<close> the invariant, \<open>valid\<close> the arguments the
  contract covers, \<open>full_code\<close> the status of an insertion into a full table.
\<close>

locale rule_table =
  fixes ins :: "'e \<Rightarrow> 's \<Rightarrow> (int \<times> 's) res"
    and key :: "'e \<Rightarrow> 'k"
    and rules :: "'s \<Rightarrow> 'k list"
    and room :: "'s \<Rightarrow> nat"
    and wf :: "'s \<Rightarrow> bool"
    and valid :: "'e \<Rightarrow> bool"
    and full_code :: int
  assumes known: "wf s \<Longrightarrow> valid e \<Longrightarrow> key e \<in> set (rules s) \<Longrightarrow> ins e s = Inr (0, s)"
    and fresh: "wf s \<Longrightarrow> valid e \<Longrightarrow> key e \<notin> set (rules s) \<Longrightarrow> length (rules s) < room s \<Longrightarrow>
      \<exists>s'. ins e s = Inr (0, s') \<and> wf s' \<and> rules s' = rules s @ [key e] \<and> room s' = room s"
    and full: "wf s \<Longrightarrow> valid e \<Longrightarrow> key e \<notin> set (rules s) \<Longrightarrow> room s \<le> length (rules s) \<Longrightarrow>
      ins e s = Inr (full_code, s)"
    and shape: "wf s \<Longrightarrow> distinct (rules s) \<and> length (rules s) \<le> room s"
begin

lemma ins_upsert:
  assumes "wf s" and "valid e"
  shows "\<exists>r s'. ins e s = Inr (r, s') \<and> wf s' \<and> room s' = room s \<and>
           rules s' = upsert (room s) (rules s) (key e) \<and>
           r = (if key e \<in> set (rules s) \<or> length (rules s) < room s then 0 else full_code)"
proof (cases "key e \<in> set (rules s)")
  case True
  with known [OF assms] assms(1) show ?thesis by (simp add: upsert_def)
next
  case False
  show ?thesis
  proof (cases "length (rules s) < room s")
    case True
    with fresh [OF assms False] False show ?thesis by (auto simp: upsert_def)
  next
    case f: False
    with full [OF assms False] False assms(1) show ?thesis by (simp add: upsert_def)
  qed
qed

lemma run_upserts:
  assumes "wf s" and "list_all valid es"
  shows "\<exists>rs s'. run_inserts ins es s = Inr (rs, s') \<and> wf s' \<and> room s' = room s \<and>
           rules s' = upserts (room s) (rules s) (map key es)"
  using assms
proof (induction es arbitrary: s)
  case Nil
  then show ?case by simp
next
  case (Cons e es)
  then have "valid e" and es: "list_all valid es" by auto
  from ins_upsert [OF Cons.prems(1) this(1)] obtain r s1 where
    s1: "ins e s = Inr (r, s1)" "wf s1" "room s1 = room s"
      "rules s1 = upsert (room s) (rules s) (key e)" by blast
  from Cons.IH [OF s1(2) es] s1 show ?case by auto
qed

text \<open>
  A batch whose distinct keys fit in the array is stored completely, once each, and every
  insertion reports success.
\<close>

lemma run_complete:
  assumes "wf s" and "list_all valid es"
    and "card (set (rules s) \<union> set (map key es)) \<le> room s"
  shows "\<exists>s'. run_inserts ins es s = Inr (replicate (length es) 0, s') \<and> wf s' \<and>
           set (rules s') = set (rules s) \<union> set (map key es) \<and> distinct (rules s')"
  using assms
proof (induction es arbitrary: s)
  case Nil
  with shape show ?case by simp
next
  case (Cons e es)
  then have e: "valid e" and es: "list_all valid es" by auto
  have d: "distinct (rules s)" using shape Cons.prems(1) by simp
  have "key e \<in> set (rules s) \<or> length (rules s) < room s"
  proof (rule disjCI)
    assume "\<not> length (rules s) < room s"
    then have "card (set (rules s) \<union> set (map key (e # es))) \<le> card (set (rules s))"
      using Cons.prems(3) d by (simp add: distinct_card)
    then have "set (rules s) \<union> set (map key (e # es)) = set (rules s)"
      by (intro card_seteq [symmetric]) auto
    then show "key e \<in> set (rules s)" by auto
  qed
  with ins_upsert [OF Cons.prems(1) e] obtain s1 where
    s1: "ins e s = Inr (0, s1)" "wf s1" "room s1 = room s"
      and r1: "rules s1 = upsert (room s) (rules s) (key e)" by auto
  have set1: "set (rules s1) = insert (key e) (set (rules s))"
    using r1 \<open>key e \<in> set (rules s) \<or> length (rules s) < room s\<close> by (auto simp: upsert_def)
  with Cons.prems(3) s1(3) have "card (set (rules s1) \<union> set (map key es)) \<le> room s1"
    by (simp add: insert_commute)
  from Cons.IH [OF s1(2) es this] s1 set1 show ?case by auto
qed

end

end
