(* ===== verification/AR_Common.thy ===== *)
theory AR_Common
  imports AR_Slots
begin

text \<open>
  The definitions of \<open>ar_common.h\<close>, \<open>ar_snmp.h\<close> and \<open>ar_wakeup.h\<close> every part of the module
  uses: return status, command numbers, device numbers, and the table sizes the FMAN
  driver reports.  The numbers of the Linux error codes are those of the kernel's ABI.
\<close>

section \<open>Status and error codes\<close>

datatype ar_ret_status =
    AR_SUCCESS
  | AR_CB_RGSTR_ERROR
  | AR_TBL_ALLOC_ERROR
  | AR_MAX_LIMIT_ERROR
  | AR_INIT_ERROR
  | AR_MEMORY_UNAVALABLE_ERROR
  | AR_GET_INFO_ERROR

primrec ar_code :: "ar_ret_status \<Rightarrow> int" where
  "ar_code AR_SUCCESS = 0"
| "ar_code AR_CB_RGSTR_ERROR = 1"
| "ar_code AR_TBL_ALLOC_ERROR = 2"
| "ar_code AR_MAX_LIMIT_ERROR = 3"
| "ar_code AR_INIT_ERROR = 4"
| "ar_code AR_MEMORY_UNAVALABLE_ERROR = 5"
| "ar_code AR_GET_INFO_ERROR = 6"

datatype errno = EFAULT | ENOMEM | ENODEV | EBADRQC | EUSERS

primrec errno_code :: "errno \<Rightarrow> int" where
  "errno_code EFAULT = 14"
| "errno_code ENOMEM = 12"
| "errno_code ENODEV = 19"
| "errno_code EBADRQC = 56"
| "errno_code EUSERS = 87"

section \<open>Command numbers of the two devices\<close>

datatype ar_wakeup_tool_e =
    CONFIG_WAKEUP_NULL
  | CONFIG_WAKEUP_UDP_RULE
  | CONFIG_WAKEUP_TCP_RULE
  | CONFIG_WAKEUP_TCP_MASK
  | CONFIG_WAKEUP_IP_PROTO

primrec wakeup_cmd :: "ar_wakeup_tool_e \<Rightarrow> u32" where
  "wakeup_cmd CONFIG_WAKEUP_NULL = 0x0"
| "wakeup_cmd CONFIG_WAKEUP_UDP_RULE = 0x1"
| "wakeup_cmd CONFIG_WAKEUP_TCP_RULE = 0x2"
| "wakeup_cmd CONFIG_WAKEUP_TCP_MASK = 0x3"
| "wakeup_cmd CONFIG_WAKEUP_IP_PROTO = 0x4"

datatype ar_snmp_tool_e =
    CONFIG_SNMP_PRIV_COMM
  | CONFIG_SNMP_PUB_COMM
  | CONFIG_SNMP_GETALL_FLAG
  | CREATE_SNMP_ENTRY
  | DELETE_SNMP_ENTRY

primrec snmp_cmd :: "ar_snmp_tool_e \<Rightarrow> u32" where
  "snmp_cmd CONFIG_SNMP_PRIV_COMM = 1"
| "snmp_cmd CONFIG_SNMP_PUB_COMM = 2"
| "snmp_cmd CONFIG_SNMP_GETALL_FLAG = 3"
| "snmp_cmd CREATE_SNMP_ENTRY = 4"
| "snmp_cmd DELETE_SNMP_ENTRY = 5"

section \<open>Device numbers\<close>

definition MINORMASK :: u32 where
  "MINORMASK = push_bit 20 1 - 1"

definition MAJOR :: "u32 \<Rightarrow> u32" where
  "MAJOR dev = drop_bit 20 dev"

definition MINOR :: "u32 \<Rightarrow> u32" where
  "MINOR dev = dev AND MINORMASK"

section \<open>Table sizes\<close>

text \<open>
  The fields of \<open>struct auto_res_tables_sizes\<close> (declared by the FMAN driver) that the
  module reads; each is assigned to a \<open>uint32_t\<close>.
\<close>

record auto_res_tables_sizes =
  max_num_of_arp_entries :: u32
  max_num_of_ndp_entries :: u32
  max_num_of_snmp_oid_entries :: u32
  max_num_of_snmp_char :: u32
  max_num_of_ip_prot_filtering :: u32
  max_num_of_udp_port_filtering :: u32
  max_num_of_tcp_port_filtering :: u32

definition demo_sizes :: auto_res_tables_sizes where
  "demo_sizes = \<lparr>max_num_of_arp_entries = 4, max_num_of_ndp_entries = 4,
     max_num_of_snmp_oid_entries = 3, max_num_of_snmp_char = 64, max_num_of_ip_prot_filtering = 8,
     max_num_of_udp_port_filtering = 8, max_num_of_tcp_port_filtering = 8\<rparr>"

text \<open>\<open>kz i\<close>: the \<open>i\<close>-th \<open>kzalloc\<close> of a function returns memory (zeroed) rather than NULL.\<close>

type_synonym alloc_ok = "nat \<Rightarrow> bool"

end
