(* ===== verification/AR_Core.thy ===== *)
theory AR_Core
  imports AR_Common
begin

text \<open>
  The network part of \<open>armodule/source/arctrl_core.c\<close>: finding the port to respond on, the
  ARP and neighbour tables and filling them from the kernel's interface configuration.  The
  network devices are the environment; a device is known by its index (\<open>ifindex\<close>), which stands
  for the pointer.
\<close>

section \<open>Network devices\<close>

type_synonym ip6 = "u32 \<times> u32 \<times> u32 \<times> u32"

record inet6_ifaddr =
  s6_addr32 :: ip6
  ifa_flags :: u32

definition IFA_F_TEMPORARY :: u32 where
  "IFA_F_TEMPORARY = 0x01"

definition IFA_F_PERMANENT :: u32 where
  "IFA_F_PERMANENT = 0x80"

definition ifa_temporary :: "inet6_ifaddr \<Rightarrow> bool" where
  "ifa_temporary a \<longleftrightarrow> and (ifa_flags a) IFA_F_TEMPORARY \<noteq> 0"

definition ifa_permanent :: "inet6_ifaddr \<Rightarrow> bool" where
  "ifa_permanent a \<longleftrightarrow> and (ifa_flags a) IFA_F_PERMANENT \<noteq> 0"

text \<open>
  \<open>in_dev\<close> and \<open>in6_dev\<close> are the address lists; \<open>None\<close> when the device has no such
  configuration and the kernel's accessor returns NULL.
\<close>

record net_device =
  ifindex :: nat
  dev_name :: string
  dev_addr :: "u8 list"
  is_8021q :: bool
  is_up :: bool
  real_dev :: nat
  vlan_id :: u16
  in_dev :: "u32 list option"
  in6_dev :: "inet6_ifaddr list option"
  port_rx :: "nat option"
  port_tx :: "nat option"

type_synonym fm_port = nat

definition dev_get_by_name :: "net_device list \<Rightarrow> string \<Rightarrow> net_device option" where
  "dev_get_by_name net name = find (\<lambda>d. dev_name d = name) net"

section \<open>Data\<close>

text \<open>One slot of the ARP table (an IPv4 address) or of a neighbour table (an IPv6 address).\<close>

record 'ip auto_res_entry =
  mac :: "u8 list"
  ip_address :: 'ip
  is_vlan :: bool
  vid :: u16

type_synonym auto_res_arp_entry = "u32 auto_res_entry"
type_synonym auto_res_ndp_entry = "ip6 auto_res_entry"

definition zero_arp :: auto_res_arp_entry where
  "zero_arp = \<lparr>mac = replicate 6 0, ip_address = 0, is_vlan = False, vid = 0\<rparr>"

definition zero_ndp :: auto_res_ndp_entry where
  "zero_ndp = \<lparr>mac = replicate 6 0, ip_address = (0, 0, 0, 0), is_vlan = False, vid = 0\<rparr>"

datatype core_tbl = Arp_Tbl | Ndp_Tem_Tbl | Ndp_Tgt_Tbl

text \<open>
  The counts are fields of structures of the FMAN driver, whose width the repository does not
  give.  They are natural numbers here; \<open>ar_get_ipv4_info_w\<close> below is the loop that can make its
  count exceed the table, with a field of a given width.
\<close>

record auto_res_arp_info =
  arp_table_size :: nat
  auto_res_table :: "core_tbl option"
  enable_conflict_detection :: int

record auto_res_ndp_info =
  table_size_assigned :: nat
  table_size_tmp :: nat
  auto_res_table_assigned :: "core_tbl option"
  auto_res_table_tmp :: "core_tbl option"

record auto_res_echo_info =
  echo_table_size :: nat
  echo_table :: "core_tbl option"

record core_state =
  p_ar_maxsize :: "auto_res_tables_sizes option"
  ar_arptblsize :: u32
  ar_ndptblsize :: u32
  ar_arp_tbl :: "auto_res_arp_entry tblptr"
  ar_ndp_tem_tbl :: "auto_res_ndp_entry tblptr"
  ar_ndp_tgt_tbl :: "auto_res_ndp_entry tblptr"
  ar_arp_db :: auto_res_arp_info
  ar_nd_db :: auto_res_ndp_info
  ar_ipv4_echo_db :: auto_res_echo_info
  ar_ipv6_echo_db :: auto_res_echo_info

definition zero_arp_db :: auto_res_arp_info where
  "zero_arp_db = \<lparr>arp_table_size = 0, auto_res_table = None, enable_conflict_detection = 0\<rparr>"

definition zero_nd_db :: auto_res_ndp_info where
  "zero_nd_db = \<lparr>table_size_assigned = 0, table_size_tmp = 0,
     auto_res_table_assigned = None, auto_res_table_tmp = None\<rparr>"

definition zero_echo_db :: auto_res_echo_info where
  "zero_echo_db = \<lparr>echo_table_size = 0, echo_table = None\<rparr>"

definition core_boot :: core_state where
  "core_boot = \<lparr>p_ar_maxsize = None, ar_arptblsize = 0, ar_ndptblsize = 0,
     ar_arp_tbl = TNull, ar_ndp_tem_tbl = TNull, ar_ndp_tgt_tbl = TNull,
     ar_arp_db = zero_arp_db, ar_nd_db = zero_nd_db,
     ar_ipv4_echo_db = zero_echo_db, ar_ipv6_echo_db = zero_echo_db\<rparr>"

section \<open>Operations\<close>

text \<open>The kernel keeps the device below a VLAN device registered; a missing one is a fault.\<close>

definition vlan_real_dev :: "net_device list \<Rightarrow> net_device \<Rightarrow> net_device res" where
  "vlan_real_dev net d =
     (case find (\<lambda>r. ifindex r = real_dev d) net of None \<Rightarrow> Inl NullDeref | Some r \<Rightarrow> Inr r)"

definition ar_get_fm_port :: "net_device list \<Rightarrow> string \<Rightarrow> (fm_port option \<times> fm_port option) res" where
  "ar_get_fm_port net ar_resport =
     (case dev_get_by_name net ar_resport of
        None \<Rightarrow> Inr (None, None)
      | Some netdev \<Rightarrow>
        rbind (if is_8021q netdev then vlan_real_dev net netdev else Inr netdev) (\<lambda>netdev.
        Inr (if is_up netdev then (port_rx netdev, port_tx netdev) else (None, None))))"

definition ar_get_device :: "net_device list \<Rightarrow> string \<Rightarrow> net_device option" where
  "ar_get_device net ar_resport = dev_get_by_name net ar_resport"

definition ar_get_vlanid :: "net_device \<Rightarrow> u16" where
  "ar_get_vlanid d = vlan_id d"

text \<open>
  \<open>maxsize\<close> is the FMAN driver's \<open>fm_port_get_autores_maxsize\<close>; \<open>kz i\<close> tells whether the
  \<open>i\<close>-th allocation succeeds.
\<close>

definition ar_intf_init_db ::
    "net_device list \<Rightarrow> string \<Rightarrow> (fm_port option \<Rightarrow> auto_res_tables_sizes option) \<Rightarrow> alloc_ok \<Rightarrow>
     core_state \<Rightarrow> (int \<times> core_state) res" where
  "ar_intf_init_db net ar_resport maxsize kz s =
     rbind (ar_get_fm_port net ar_resport) (\<lambda>(fm_rxport, fm_txport).
     if fm_rxport = None \<and> fm_txport = None then Inr (- ar_code AR_INIT_ERROR, s)
     else case maxsize fm_rxport of
       None \<Rightarrow> Inr (- ar_code AR_INIT_ERROR, s\<lparr>p_ar_maxsize := None\<rparr>)
     | Some m \<Rightarrow>
       let na = unat (max_num_of_arp_entries m); nn = unat (max_num_of_ndp_entries m);
           s = s\<lparr>p_ar_maxsize := Some m, ar_arptblsize := max_num_of_arp_entries m,
                 ar_ndptblsize := max_num_of_ndp_entries m\<rparr> in
       if \<not> kz 0 then Inr (- ar_code AR_MEMORY_UNAVALABLE_ERROR, s\<lparr>ar_arp_tbl := TNull\<rparr>)
       else if \<not> kz 1 then
         Inr (- ar_code AR_MEMORY_UNAVALABLE_ERROR, s\<lparr>ar_arp_tbl := TFreed, ar_ndp_tem_tbl := TNull\<rparr>)
       else if \<not> kz 2 then
         Inr (- ar_code AR_MEMORY_UNAVALABLE_ERROR,
              s\<lparr>ar_arp_tbl := TFreed, ar_ndp_tem_tbl := TFreed, ar_ndp_tgt_tbl := TNull\<rparr>)
       else
         Inr (ar_code AR_SUCCESS,
              s\<lparr>ar_arp_tbl := TArr (replicate na zero_arp),
                ar_ndp_tem_tbl := TArr (replicate nn zero_ndp),
                ar_ndp_tgt_tbl := TArr (replicate nn zero_ndp),
                ar_arp_db := zero_arp_db\<lparr>auto_res_table := Some Arp_Tbl\<rparr>,
                ar_nd_db := zero_nd_db\<lparr>auto_res_table_tmp := Some Ndp_Tem_Tbl,
                                       auto_res_table_assigned := Some Ndp_Tgt_Tbl\<rparr>,
                ar_ipv4_echo_db := zero_echo_db\<lparr>echo_table := Some Arp_Tbl\<rparr>,
                ar_ipv6_echo_db := zero_echo_db\<lparr>echo_table := Some Ndp_Tgt_Tbl\<rparr>\<rparr>))"

subsection \<open>IPv4\<close>

text \<open>The slot written for an address of \<open>d\<close>; a VLAN device also gives its VLAN identifier.\<close>

definition dev_entry :: "net_device \<Rightarrow> bool \<Rightarrow> 'ip \<Rightarrow> 'ip auto_res_entry" where
  "dev_entry d vlan ip =
     \<lparr>mac = take 6 (dev_addr d), ip_address = ip, is_vlan = vlan,
      vid = (if vlan then ar_get_vlanid d else 0)\<rparr>"

text \<open>
  The loop over the addresses of one device, from slot \<open>index\<close>: it stops, with the flag set and
  the index left in place, as soon as the count has reached the size of the table.
\<close>

fun arp_addrs :: "net_device \<Rightarrow> bool \<Rightarrow> u32 list \<Rightarrow> nat \<Rightarrow> core_state \<Rightarrow> (bool \<times> nat \<times> core_state) res" where
  "arp_addrs d vlan [] index s = Inr (False, index, s)"
| "arp_addrs d vlan (ifa # ifas) index s =
     rbind (tbl_set (ar_arp_tbl s) index (dev_entry d vlan ifa)) (\<lambda>t.
     let s = s\<lparr>ar_arp_tbl := t,
               ar_arp_db := (ar_arp_db s)\<lparr>arp_table_size := arp_table_size (ar_arp_db s) + 1\<rparr>\<rparr> in
     if unat (ar_arptblsize s) \<le> arp_table_size (ar_arp_db s) then Inr (True, index, s)
     else arp_addrs d vlan ifas (index + 1) s)"

definition vlan_of :: "net_device \<Rightarrow> net_device \<Rightarrow> bool" where
  "vlan_of netdev d \<longleftrightarrow> is_8021q d \<and> ifindex netdev = real_dev d \<and> is_up d"

text \<open>The walk over the devices; what \<open>break\<close> stops is the inner loop only.\<close>

fun arp_vlans :: "net_device \<Rightarrow> net_device list \<Rightarrow> nat \<Rightarrow> core_state \<Rightarrow> core_state res" where
  "arp_vlans netdev [] index s = Inr s"
| "arp_vlans netdev (d # ds) index s =
     (if vlan_of netdev d then
        case in_dev d of
          None \<Rightarrow> Inl NullDeref
        | Some ifas \<Rightarrow> rbind (arp_addrs d True ifas index s) (\<lambda>(_, index, s). arp_vlans netdev ds index s)
      else arp_vlans netdev ds index s)"

definition ar_get_ipv4_info :: "net_device list \<Rightarrow> net_device \<Rightarrow> core_state \<Rightarrow> core_state res" where
  "ar_get_ipv4_info net netdev s =
     (case in_dev netdev of
        None \<Rightarrow> Inl NullDeref
      | Some ifas \<Rightarrow>
        rbind (arp_addrs netdev False ifas 0 s) (\<lambda>(maxlim_flag, index, s).
        if maxlim_flag then Inr s else arp_vlans netdev net index s))"

text \<open>
  The count is a field of a structure of the FMAN driver, whose header is not in the repository.
  The loops above count without bound; these are the same with a field of \<open>w\<close> bits, which wraps.
\<close>

fun arp_addrs_w ::
    "nat \<Rightarrow> net_device \<Rightarrow> bool \<Rightarrow> u32 list \<Rightarrow> nat \<Rightarrow> core_state \<Rightarrow> (bool \<times> nat \<times> core_state) res" where
  "arp_addrs_w w d vlan [] index s = Inr (False, index, s)"
| "arp_addrs_w w d vlan (ifa # ifas) index s =
     rbind (tbl_set (ar_arp_tbl s) index (dev_entry d vlan ifa)) (\<lambda>t.
     let s = s\<lparr>ar_arp_tbl := t,
               ar_arp_db := (ar_arp_db s)\<lparr>arp_table_size := (arp_table_size (ar_arp_db s) + 1) mod 2 ^ w\<rparr>\<rparr> in
     if unat (ar_arptblsize s) \<le> arp_table_size (ar_arp_db s) then Inr (True, index, s)
     else arp_addrs_w w d vlan ifas (index + 1) s)"

fun arp_vlans_w :: "nat \<Rightarrow> net_device \<Rightarrow> net_device list \<Rightarrow> nat \<Rightarrow> core_state \<Rightarrow> core_state res" where
  "arp_vlans_w w netdev [] index s = Inr s"
| "arp_vlans_w w netdev (d # ds) index s =
     (if vlan_of netdev d then
        case in_dev d of
          None \<Rightarrow> Inl NullDeref
        | Some ifas \<Rightarrow> rbind (arp_addrs_w w d True ifas index s) (\<lambda>(_, index, s). arp_vlans_w w netdev ds index s)
      else arp_vlans_w w netdev ds index s)"

definition ar_get_ipv4_info_w :: "nat \<Rightarrow> net_device list \<Rightarrow> net_device \<Rightarrow> core_state \<Rightarrow> core_state res" where
  "ar_get_ipv4_info_w w net netdev s =
     (case in_dev netdev of
        None \<Rightarrow> Inl NullDeref
      | Some ifas \<Rightarrow>
        rbind (arp_addrs_w w netdev False ifas 0 s) (\<lambda>(maxlim_flag, index, s).
        if maxlim_flag then Inr s else arp_vlans_w w netdev net index s))"

subsection \<open>IPv6\<close>

definition put_tem :: "nat \<Rightarrow> auto_res_ndp_entry \<Rightarrow> core_state \<Rightarrow> core_state res" where
  "put_tem i e s =
     rbind (tbl_set (ar_ndp_tem_tbl s) i e) (\<lambda>t.
     Inr (s\<lparr>ar_ndp_tem_tbl := t,
            ar_nd_db := (ar_nd_db s)\<lparr>table_size_tmp := table_size_tmp (ar_nd_db s) + 1\<rparr>\<rparr>))"

definition put_tgt :: "nat \<Rightarrow> auto_res_ndp_entry \<Rightarrow> core_state \<Rightarrow> core_state res" where
  "put_tgt i e s =
     rbind (tbl_set (ar_ndp_tgt_tbl s) i e) (\<lambda>t.
     Inr (s\<lparr>ar_ndp_tgt_tbl := t,
            ar_nd_db := (ar_nd_db s)\<lparr>table_size_assigned := table_size_assigned (ar_nd_db s) + 1\<rparr>\<rparr>))"

text \<open>The two indices with the two flags, as the function keeps them.\<close>

record ndp_pos =
  index_tem :: nat
  index_tgt :: nat
  maxlim_flag_tem :: bool
  maxlim_flag_tgt :: bool

fun ndp_phys :: "net_device \<Rightarrow> inet6_ifaddr list \<Rightarrow> ndp_pos \<Rightarrow> core_state \<Rightarrow> (ndp_pos \<times> core_state) res" where
  "ndp_phys d [] p s = Inr (p, s)"
| "ndp_phys d (ifa # ifas) p s =
     (if ifa_temporary ifa then
        rbind (put_tem (index_tem p) (dev_entry d False (s6_addr32 ifa)) s) (\<lambda>s.
        if unat (ar_ndptblsize s) \<le> table_size_tmp (ar_nd_db s) then Inr (p\<lparr>maxlim_flag_tem := True\<rparr>, s)
        else ndp_phys d ifas (p\<lparr>index_tem := index_tem p + 1\<rparr>) s)
      else if ifa_permanent ifa then
        rbind (put_tgt (index_tgt p) (dev_entry d False (s6_addr32 ifa)) s) (\<lambda>s.
        if unat (ar_ndptblsize s) \<le> table_size_assigned (ar_nd_db s) then Inr (p\<lparr>maxlim_flag_tgt := True\<rparr>, s)
        else ndp_phys d ifas (p\<lparr>index_tgt := index_tgt p + 1\<rparr>) s)
      else ndp_phys d ifas p s)"

fun ndp_vlan :: "net_device \<Rightarrow> inet6_ifaddr list \<Rightarrow> ndp_pos \<Rightarrow> core_state \<Rightarrow> (ndp_pos \<times> core_state) res" where
  "ndp_vlan d [] p s = Inr (p, s)"
| "ndp_vlan d (ifa # ifas) p s =
     (if ifa_temporary ifa \<and> \<not> maxlim_flag_tem p then
        rbind (put_tem (index_tem p) (dev_entry d True (s6_addr32 ifa)) s) (\<lambda>s.
        if unat (ar_ndptblsize s) \<le> table_size_tmp (ar_nd_db s) then Inr (p, s)
        else ndp_vlan d ifas (p\<lparr>index_tem := index_tem p + 1\<rparr>) s)
      else if ifa_permanent ifa \<and> \<not> maxlim_flag_tgt p then
        rbind (put_tgt (index_tgt p) (dev_entry d True (s6_addr32 ifa)) s) (\<lambda>s.
        if unat (ar_ndptblsize s) \<le> table_size_assigned (ar_nd_db s) then Inr (p, s)
        else ndp_vlan d ifas (p\<lparr>index_tgt := index_tgt p + 1\<rparr>) s)
      else ndp_vlan d ifas p s)"

fun ndp_vlans :: "net_device \<Rightarrow> net_device list \<Rightarrow> ndp_pos \<Rightarrow> core_state \<Rightarrow> core_state res" where
  "ndp_vlans netdev [] p s = Inr s"
| "ndp_vlans netdev (d # ds) p s =
     (if vlan_of netdev d then
        case in6_dev d of
          None \<Rightarrow> Inl NullDeref
        | Some ifas \<Rightarrow> rbind (ndp_vlan d ifas p s) (\<lambda>(p, s). ndp_vlans netdev ds p s)
      else ndp_vlans netdev ds p s)"

definition ar_get_ipv6_info :: "net_device list \<Rightarrow> net_device \<Rightarrow> core_state \<Rightarrow> core_state res" where
  "ar_get_ipv6_info net netdev s =
     (case in6_dev netdev of
        None \<Rightarrow> Inl NullDeref
      | Some ifas \<Rightarrow>
        rbind (ndp_phys netdev ifas
          \<lparr>index_tem = 0, index_tgt = 0, maxlim_flag_tem = False, maxlim_flag_tgt = False\<rparr> s)
          (\<lambda>(p, s). ndp_vlans netdev net p s))"

definition ar_get_interface_info ::
    "net_device list \<Rightarrow> net_device option \<Rightarrow> core_state \<Rightarrow> (int \<times> core_state) res" where
  "ar_get_interface_info net netdev s =
     (let s = s\<lparr>ar_arp_db := (ar_arp_db s)\<lparr>arp_table_size := 0\<rparr>,
                ar_nd_db := (ar_nd_db s)\<lparr>table_size_assigned := 0, table_size_tmp := 0\<rparr>\<rparr> in
      case netdev of
        None \<Rightarrow> Inr (- ar_code AR_GET_INFO_ERROR, s)
      | Some d \<Rightarrow>
        rbind (ar_get_ipv4_info net d s) (\<lambda>s.
        rbind (ar_get_ipv6_info net d s) (\<lambda>s.
        Inr (ar_code AR_SUCCESS, s))))"

section \<open>A count of fixed width\<close>

text \<open>The counts only grow, so a field that holds the last one has held them all.\<close>

lemma arp_addrs_width:
  assumes "arp_addrs d vlan as i s = Inr (f, j, s')"
  shows "arp_table_size (ar_arp_db s) \<le> arp_table_size (ar_arp_db s')"
    and "arp_table_size (ar_arp_db s') < 2 ^ w \<Longrightarrow> arp_addrs_w w d vlan as i s = Inr (f, j, s')"
proof -
  have "arp_table_size (ar_arp_db s) \<le> arp_table_size (ar_arp_db s') \<and>
      (arp_table_size (ar_arp_db s') < 2 ^ w \<longrightarrow> arp_addrs_w w d vlan as i s = Inr (f, j, s'))"
    using assms
  proof (induction as arbitrary: i s)
    case (Cons a as)
    obtain t where t: "tbl_set (ar_arp_tbl s) i (dev_entry d vlan a) = Inr t"
      using Cons.prems by (auto simp: rbind_eq_Inr)
    let ?s = "s\<lparr>ar_arp_tbl := t, ar_arp_db := (ar_arp_db s)\<lparr>arp_table_size := Suc (arp_table_size (ar_arp_db s))\<rparr>\<rparr>"
    show ?case
    proof (cases "unat (ar_arptblsize s) \<le> Suc (arp_table_size (ar_arp_db s))")
      case True
      with Cons.prems t have "s' = ?s" "f" "j = i" by simp_all
      with t True show ?thesis by simp
    next
      case False
      with Cons.prems t have run: "arp_addrs d vlan as (i + 1) ?s = Inr (f, j, s')" by simp
      from Cons.IH [OF this] t False show ?thesis by simp
    qed
  qed simp
  then show "arp_table_size (ar_arp_db s) \<le> arp_table_size (ar_arp_db s')"
    and "arp_table_size (ar_arp_db s') < 2 ^ w \<Longrightarrow> arp_addrs_w w d vlan as i s = Inr (f, j, s')" by simp_all
qed

lemma arp_vlans_width:
  assumes "arp_vlans netdev ds i s = Inr s'"
  shows "arp_table_size (ar_arp_db s) \<le> arp_table_size (ar_arp_db s')"
    and "arp_table_size (ar_arp_db s') < 2 ^ w \<Longrightarrow> arp_vlans_w w netdev ds i s = Inr s'"
proof -
  have "arp_table_size (ar_arp_db s) \<le> arp_table_size (ar_arp_db s') \<and>
      (arp_table_size (ar_arp_db s') < 2 ^ w \<longrightarrow> arp_vlans_w w netdev ds i s = Inr s')"
    using assms
  proof (induction ds arbitrary: i s)
    case (Cons d ds)
    show ?case
    proof (cases "vlan_of netdev d")
      case False
      with Cons show ?thesis by simp
    next
      case True
      with Cons.prems obtain as f j s1 where as: "in_dev d = Some as" "arp_addrs d True as i s = Inr (f, j, s1)"
        "arp_vlans netdev ds j s1 = Inr s'"
        by (cases "in_dev d") (auto simp: rbind_eq_Inr)
      from Cons.IH [OF as(3)] arp_addrs_width(1) [OF as(2)] arp_addrs_width(2) [OF as(2), of w] as True
      show ?thesis by auto
    qed
  qed simp
  then show "arp_table_size (ar_arp_db s) \<le> arp_table_size (ar_arp_db s')"
    and "arp_table_size (ar_arp_db s') < 2 ^ w \<Longrightarrow> arp_vlans_w w netdev ds i s = Inr s'" by simp_all
qed

lemma ipv4_width:
  assumes "ar_get_ipv4_info net netdev s = Inr s'" and "arp_table_size (ar_arp_db s') < 2 ^ w"
  shows "ar_get_ipv4_info_w w net netdev s = Inr s'"
proof -
  obtain as f j s1 where as: "in_dev netdev = Some as" "arp_addrs netdev False as 0 s = Inr (f, j, s1)"
    "(if f then Inr s1 else arp_vlans netdev net j s1) = Inr s'"
    using assms(1) by (cases "in_dev netdev") (auto simp: ar_get_ipv4_info_def rbind_eq_Inr)
  show ?thesis
  proof (cases f)
    case True
    with as assms(2) arp_addrs_width(2) [OF as(2), of w] show ?thesis by (simp add: ar_get_ipv4_info_w_def)
  next
    case False
    with as(3) have run: "arp_vlans netdev net j s1 = Inr s'" by simp
    from arp_vlans_width(1) [OF run] assms(2) have "arp_table_size (ar_arp_db s1) < 2 ^ w" by simp
    with as False arp_addrs_width(2) [OF as(2), of w] arp_vlans_width(2) [OF run assms(2)] show ?thesis
      by (simp add: ar_get_ipv4_info_w_def)
  qed
qed

section \<open>Filling a table\<close>

text \<open>The table \<open>xs\<close> with \<open>es\<close> written from slot \<open>c\<close>.\<close>

definition overlay :: "'a list \<Rightarrow> nat \<Rightarrow> 'a list \<Rightarrow> 'a list" where
  "overlay xs c es = take c xs @ es @ drop (c + length es) xs"

lemma overlay_Nil [simp]: "overlay xs c [] = xs"
  by (simp add: overlay_def)

lemma overlay_Cons: "c < length xs \<Longrightarrow> overlay (xs[c := e]) (Suc c) es = overlay xs c (e # es)"
  by (simp add: overlay_def take_Suc_conv_app_nth)

lemma length_overlay [simp]: "c + length es \<le> length xs \<Longrightarrow> length (overlay xs c es) = length xs"
  by (simp add: overlay_def)

lemma overlay_append:
  "c + length es + length fs \<le> length xs \<Longrightarrow>
     overlay (overlay xs c es) (c + length es) fs = overlay xs c (es @ fs)"
  by (simp add: overlay_def add_ac)

lemma take_overlay: "c + length es \<le> length xs \<Longrightarrow> take (c + length es) (overlay xs c es) = take c xs @ es"
  by (simp add: overlay_def)

subsection \<open>IPv4\<close>

text \<open>The state with the ARP table and its count replaced.\<close>

definition arp_set :: "core_state \<Rightarrow> auto_res_arp_entry list \<Rightarrow> nat \<Rightarrow> core_state" where
  "arp_set s xs c = s\<lparr>ar_arp_tbl := TArr xs, ar_arp_db := (ar_arp_db s)\<lparr>arp_table_size := c\<rparr>\<rparr>"

lemma arp_set_sel [simp]:
  "ar_arp_tbl (arp_set s xs c) = TArr xs" "arp_table_size (ar_arp_db (arp_set s xs c)) = c"
  "ar_arptblsize (arp_set s xs c) = ar_arptblsize s"
  "arp_set (arp_set s xs c) ys d = arp_set s ys d"
  by (simp_all add: arp_set_def)

lemma arp_addrs_Cons:
  "i < length xs \<Longrightarrow> arp_addrs d vlan (a # as) i (arp_set s xs c) =
     (if unat (ar_arptblsize s) \<le> Suc c then Inr (True, i, arp_set s (xs[i := dev_entry d vlan a]) (Suc c))
      else arp_addrs d vlan as (Suc i) (arp_set s (xs[i := dev_entry d vlan a]) (Suc c)))"
  by (simp add: arp_set_def Let_def)

declare arp_addrs.simps(2) [simp del]

text \<open>The loop over the addresses of one device, with room for all of them or not.\<close>

lemma arp_addrs_room:
  "length xs = unat (ar_arptblsize s) \<Longrightarrow> c + length as < length xs \<Longrightarrow>
   arp_addrs d vlan as c (arp_set s xs c) =
     Inr (False, c + length as, arp_set s (overlay xs c (map (dev_entry d vlan) as)) (c + length as))"
proof (induction as arbitrary: c xs)
  case Nil
  then show ?case by simp
next
  case (Cons a as)
  from Cons.IH [of "xs[c := dev_entry d vlan a]" "Suc c"] Cons.prems show ?case
    by (simp add: arp_addrs_Cons overlay_Cons)
qed

lemma arp_addrs_fill:
  "length xs = unat (ar_arptblsize s) \<Longrightarrow> c < length xs \<Longrightarrow> length xs \<le> c + length as \<Longrightarrow>
   arp_addrs d vlan as c (arp_set s xs c) =
     Inr (True, length xs - 1,
          arp_set s (overlay xs c (map (dev_entry d vlan) (take (length xs - c) as))) (length xs))"
proof (induction as arbitrary: c xs)
  case Nil
  then show ?case by simp
next
  case (Cons a as)
  show ?case
  proof (cases "length xs = Suc c")
    case True
    then show ?thesis using Cons.prems overlay_Cons [of c xs _ "[]"] by (simp add: arp_addrs_Cons)
  next
    case False
    then have "length xs - c = Suc (length xs - Suc c)" using Cons.prems(2) by simp
    with Cons.IH [of "xs[c := dev_entry d vlan a]" "Suc c"] Cons.prems False show ?thesis
      by (simp add: arp_addrs_Cons overlay_Cons)
  qed
qed

text \<open>The addresses of the VLAN devices on \<open>netdev\<close>, and what a device finds in a full table.\<close>

definition dev_addrs :: "net_device \<Rightarrow> u32 list" where
  "dev_addrs d = (case in_dev d of None \<Rightarrow> [] | Some as \<Rightarrow> as)"

definition arp_entries :: "net_device \<Rightarrow> bool \<Rightarrow> auto_res_arp_entry list" where
  "arp_entries d vlan = map (dev_entry d vlan) (dev_addrs d)"

definition vlan_entries :: "net_device \<Rightarrow> net_device list \<Rightarrow> auto_res_arp_entry list" where
  "vlan_entries netdev ds = concat (map (\<lambda>d. arp_entries d True) (filter (vlan_of netdev) ds))"

lemma vlan_entries_Nil [simp]: "vlan_entries netdev [] = []"
  by (simp add: vlan_entries_def)

definition late_vlans :: "net_device \<Rightarrow> net_device list \<Rightarrow> net_device list" where
  "late_vlans netdev ds = filter (\<lambda>d. vlan_of netdev d \<and> dev_addrs d \<noteq> []) ds"

definition has_in_dev :: "net_device \<Rightarrow> net_device \<Rightarrow> bool" where
  "has_in_dev netdev d \<longleftrightarrow> vlan_of netdev d \<longrightarrow> in_dev d \<noteq> None"

lemma arp_vlans_full:
  "length xs = unat (ar_arptblsize s) \<Longrightarrow> 0 < length xs \<Longrightarrow> length xs \<le> c \<Longrightarrow>
   list_all (has_in_dev netdev) ds \<Longrightarrow>
   arp_vlans netdev ds (length xs - 1) (arp_set s xs c) =
     Inr (arp_set s (foldl (\<lambda>t d. t[length xs - 1 := dev_entry d True (hd (dev_addrs d))]) xs
            (late_vlans netdev ds)) (c + length (late_vlans netdev ds)))"
proof (induction ds arbitrary: xs c)
  case Nil
  then show ?case by (simp add: late_vlans_def)
next
  case (Cons d ds)
  show ?case
  proof (cases "vlan_of netdev d")
    case False
    with Cons show ?thesis by (simp add: late_vlans_def)
  next
    case True
    with Cons.prems(4) obtain as where as: "in_dev d = Some as" by (auto simp: has_in_dev_def)
    show ?thesis
    proof (cases as)
      case Nil
      with True as Cons show ?thesis by (simp add: late_vlans_def dev_addrs_def)
    next
      case (Cons a bs)
      let ?xs = "xs[length xs - 1 := dev_entry d True a]"
      have "arp_addrs d True as (length xs - 1) (arp_set s xs c) = Inr (True, length xs - 1, arp_set s ?xs (Suc c))"
        using Cons Cons.prems by (simp add: arp_addrs_Cons)
      with Cons.IH [of ?xs "Suc c"] Cons.prems True as Cons show ?thesis
        by (simp add: late_vlans_def dev_addrs_def)
    qed
  qed
qed

lemma arp_vlans_room:
  "length xs = unat (ar_arptblsize s) \<Longrightarrow> c + length (vlan_entries netdev ds) < length xs \<Longrightarrow>
   list_all (has_in_dev netdev) ds \<Longrightarrow>
   arp_vlans netdev (ds @ es) c (arp_set s xs c) =
     arp_vlans netdev es (c + length (vlan_entries netdev ds))
       (arp_set s (overlay xs c (vlan_entries netdev ds)) (c + length (vlan_entries netdev ds)))"
proof (induction ds arbitrary: xs c)
  case Nil
  then show ?case by (simp add: vlan_entries_def)
next
  case (Cons d ds)
  show ?case
  proof (cases "vlan_of netdev d")
    case False
    with Cons show ?thesis by (simp add: vlan_entries_def)
  next
    case True
    with Cons.prems(3) obtain as where as: "in_dev d = Some as" by (auto simp: has_in_dev_def)
    let ?E = "map (dev_entry d True) as"
    have ent: "vlan_entries netdev (d # ds) = ?E @ vlan_entries netdev ds"
      using True as by (simp add: vlan_entries_def arp_entries_def dev_addrs_def)
    from Cons.prems ent have lt: "c + length as < length xs" by simp
    from Cons.IH [of "overlay xs c ?E" "c + length as"] Cons.prems arp_addrs_room [OF Cons.prems(1) lt]
      overlay_append [of c ?E "vlan_entries netdev ds" xs] True as
    show ?thesis by (simp add: ent add_ac)
  qed
qed

lemma late_vlans_entries: "vlan_entries netdev ds = [] \<Longrightarrow> late_vlans netdev ds = []"
  by (auto simp: vlan_entries_def arp_entries_def late_vlans_def filter_empty_conv)

text \<open>The device at which the table becomes full, and the ones after it.\<close>

lemma arp_vlans_overflow:
  assumes len: "length xs = unat (ar_arptblsize s)" and room: "c + length (vlan_entries netdev ds1) < length xs"
    and d: "vlan_of netdev d" "length xs \<le> c + length (vlan_entries netdev ds1) + length (dev_addrs d)"
    and devs: "list_all (has_in_dev netdev) (ds1 @ d # ds2)"
  shows "arp_vlans netdev (ds1 @ d # ds2) c (arp_set s xs c) =
     Inr (arp_set s (foldl (\<lambda>t d. t[length xs - 1 := dev_entry d True (hd (dev_addrs d))])
            (overlay xs c (take (length xs - c) (vlan_entries netdev (ds1 @ [d])))) (late_vlans netdev ds2))
          (length xs + length (late_vlans netdev ds2)))"
proof -
  let ?E = "vlan_entries netdev ds1"
  let ?c = "c + length ?E" and ?xs = "overlay xs c ?E"
  obtain as where as: "in_dev d = Some as" "dev_addrs d = as"
    using d(1) devs by (auto simp: has_in_dev_def dev_addrs_def)
  have lx: "length ?xs = length xs" using room by simp
  let ?ys = "overlay ?xs ?c (map (dev_entry d True) (take (length xs - ?c) as))"
  have fill: "arp_addrs d True as ?c (arp_set s ?xs ?c) = Inr (True, length xs - 1, arp_set s ?ys (length xs))"
    using arp_addrs_fill [of ?xs s ?c as d True] lx len room d(2) as(2) by simp
  have "vlan_entries netdev (ds1 @ [d]) = ?E @ map (dev_entry d True) as"
    using d(1) as by (simp add: vlan_entries_def arp_entries_def)
  then have "take (length xs - c) (vlan_entries netdev (ds1 @ [d])) =
      ?E @ map (dev_entry d True) (take (length xs - ?c) as)"
    using room by (simp add: take_map)
  then have ys: "?ys = overlay xs c (take (length xs - c) (vlan_entries netdev (ds1 @ [d])))"
    using overlay_append [of c ?E "map (dev_entry d True) (take (length xs - ?c) as)" xs] room by simp
  have ly: "length ?ys = length xs" using room lx by simp
  have "arp_vlans netdev (ds1 @ d # ds2) c (arp_set s xs c) = arp_vlans netdev (d # ds2) ?c (arp_set s ?xs ?c)"
    using arp_vlans_room [OF len room] devs by simp
  also have "\<dots> = arp_vlans netdev ds2 (length xs - 1) (arp_set s ?ys (length xs))"
    using d(1) as fill by simp
  also have "\<dots> = Inr (arp_set s (foldl (\<lambda>t d. t[length xs - 1 := dev_entry d True (hd (dev_addrs d))]) ?ys
            (late_vlans netdev ds2)) (length xs + length (late_vlans netdev ds2)))"
    using arp_vlans_full [of ?ys s "length xs" netdev ds2] ly len room devs by simp
  finally show ?thesis by (simp only: ys)
qed

text \<open>Where the device lies at which a sequence of blocks reaches a size.\<close>

lemma overflow_split:
  assumes "length (vlan_entries netdev ds) \<ge> n" and "0 < n"
  obtains ds1 d ds2 where "ds = ds1 @ d # ds2" and "vlan_of netdev d"
    and "length (vlan_entries netdev ds1) < n"
    and "n \<le> length (vlan_entries netdev ds1) + length (dev_addrs d)"
  using assms
proof (induction ds arbitrary: n thesis)
  case Nil
  then show ?case by (simp add: vlan_entries_def)
next
  case (Cons d ds)
  let ?k = "if vlan_of netdev d then length (dev_addrs d) else 0"
  have ent: "length (vlan_entries netdev (d # ds)) = ?k + length (vlan_entries netdev ds)" for ds
    by (simp add: vlan_entries_def arp_entries_def)
  show ?case
  proof (cases "n \<le> ?k")
    case True
    with Cons.prems(3) have "vlan_of netdev d" by (auto split: if_splits)
    with True Cons.prems(3) show ?thesis
      by (intro Cons.prems(1) [of "[]" d ds]) (auto simp: vlan_entries_def)
  next
    case False
    have "n - ?k \<le> length (vlan_entries netdev ds)" and "0 < n - ?k"
      using Cons.prems(2) False ent [of ds] by simp_all
    then obtain ds1 d' ds2 where "ds = ds1 @ d' # ds2" "vlan_of netdev d'"
      "length (vlan_entries netdev ds1) < n - ?k"
      "n - ?k \<le> length (vlan_entries netdev ds1) + length (dev_addrs d')"
      by (rule Cons.IH [rotated])
    then show ?thesis
      using False ent [of ds1] by (intro Cons.prems(1) [of "d # ds1" d' ds2]) simp_all
  qed
qed

lemma vlan_entries_append:
  "vlan_entries netdev (ds1 @ ds2) = vlan_entries netdev ds1 @ vlan_entries netdev ds2"
  by (simp add: vlan_entries_def)

lemma vlan_entries_Cons:
  "vlan_of netdev d \<Longrightarrow> vlan_entries netdev (d # ds) = arp_entries d True @ vlan_entries netdev ds"
  by (simp add: vlan_entries_def)

text \<open>The VLAN devices fit exactly, or with room to spare.\<close>

lemma arp_vlans_fit:
  assumes len: "length xs = unat (ar_arptblsize s)" and c: "c < length xs"
    and fit: "c + length (vlan_entries netdev ds) \<le> length xs" and devs: "list_all (has_in_dev netdev) ds"
  shows "arp_vlans netdev ds c (arp_set s xs c) =
    Inr (arp_set s (overlay xs c (vlan_entries netdev ds)) (c + length (vlan_entries netdev ds)))"
proof (cases "c + length (vlan_entries netdev ds) < length xs")
  case True
  from arp_vlans_room [OF len True devs, of "[]"] show ?thesis by simp
next
  case False
  then have "length xs - c \<le> length (vlan_entries netdev ds)" and "0 < length xs - c" using c by simp_all
  then obtain ds1 d ds2 where ds: "ds = ds1 @ d # ds2" and d: "vlan_of netdev d"
    and room: "length (vlan_entries netdev ds1) < length xs - c"
    and full: "length xs - c \<le> length (vlan_entries netdev ds1) + length (dev_addrs d)"
    by (rule overflow_split)
  have split: "vlan_entries netdev ds = vlan_entries netdev (ds1 @ [d]) @ vlan_entries netdev ds2"
    by (simp add: ds vlan_entries_append vlan_entries_Cons [OF d])
  then have "length (vlan_entries netdev ds) \<ge> length (vlan_entries netdev (ds1 @ [d]))
      + length (vlan_entries netdev ds2)" by simp
  moreover have "length (vlan_entries netdev (ds1 @ [d])) = length (vlan_entries netdev ds1) + length (dev_addrs d)"
    using d by (simp add: vlan_entries_def arp_entries_def)
  ultimately have "length (vlan_entries netdev ds2) = 0" using fit full by linarith
  then have none: "vlan_entries netdev ds2 = []" by simp
  with split have whole: "vlan_entries netdev (ds1 @ [d]) = vlan_entries netdev ds" by simp
  have "take (length xs - c) (vlan_entries netdev ds) = vlan_entries netdev ds" using fit by simp
  then show ?thesis
    using arp_vlans_overflow [of xs s c netdev ds1 d ds2] len room full d devs fit False
      late_vlans_entries [OF none]
    by (simp add: ds [symmetric] whole)
qed

section \<open>The IPv4 table\<close>

text \<open>Everything there is to respond for, in the order it is gathered.\<close>

definition arp_config :: "net_device list \<Rightarrow> net_device \<Rightarrow> auto_res_arp_entry list" where
  "arp_config net netdev = arp_entries netdev False @ vlan_entries netdev net"

definition net_ok :: "net_device list \<Rightarrow> net_device \<Rightarrow> bool" where
  "net_ok net netdev \<longleftrightarrow> in_dev netdev \<noteq> None \<and> list_all (has_in_dev netdev) net"

text \<open>Three cases cover every configuration.\<close>

lemma ipv4_fit:
  assumes len: "length xs = unat (ar_arptblsize s)" "0 < length xs" and ok: "net_ok net netdev"
    and fit: "length (arp_config net netdev) \<le> length xs"
  shows "ar_get_ipv4_info net netdev (arp_set s xs 0) =
    Inr (arp_set s (overlay xs 0 (arp_config net netdev)) (length (arp_config net netdev)))"
proof -
  obtain as where as: "in_dev netdev = Some as" and devs: "list_all (has_in_dev netdev) net"
    using ok by (auto simp: net_ok_def)
  let ?P = "map (dev_entry netdev False) as"
  have P: "arp_entries netdev False = ?P" using as by (simp add: arp_entries_def dev_addrs_def)
  show ?thesis
  proof (cases "length as < length xs")
    case True
    let ?xs = "overlay xs 0 ?P"
    have "ar_get_ipv4_info net netdev (arp_set s xs 0) = arp_vlans netdev net (length as) (arp_set s ?xs (length as))"
      using arp_addrs_room [OF len(1), of 0 as netdev False] True as by (simp add: ar_get_ipv4_info_def)
    then show ?thesis
      using arp_vlans_fit [of ?xs s "length as" netdev net] len True fit devs
        overlay_append [of 0 ?P "vlan_entries netdev net" xs]
      by (simp add: arp_config_def P)
  next
    case False
    moreover have "length as + length (vlan_entries netdev net) \<le> length xs"
      using fit by (simp add: arp_config_def P)
    ultimately have "length as = length xs" and "length (vlan_entries netdev net) = 0" by linarith+
    then show ?thesis
      using arp_addrs_fill [OF len(1), of 0 as netdev False] len as
      by (simp add: ar_get_ipv4_info_def arp_config_def P)
  qed
qed

lemma ipv4_phys_full:
  assumes len: "length xs = unat (ar_arptblsize s)" "0 < length xs" and as: "in_dev netdev = Some as"
    and full: "length xs \<le> length as"
  shows "ar_get_ipv4_info net netdev (arp_set s xs 0) =
    Inr (arp_set s (take (length xs) (arp_config net netdev)) (length xs))"
  using arp_addrs_fill [OF len(1), of 0 as netdev False] len as full
  by (simp add: ar_get_ipv4_info_def arp_config_def arp_entries_def dev_addrs_def take_map overlay_def)

lemma ipv4_vlan_overflow:
  assumes len: "length xs = unat (ar_arptblsize s)" and as: "in_dev netdev = Some as"
    and net: "net = ds1 @ d # ds2" and d: "vlan_of netdev d"
    and room: "length as + length (vlan_entries netdev ds1) < length xs"
    and full: "length xs \<le> length as + length (vlan_entries netdev ds1) + length (dev_addrs d)"
    and devs: "list_all (has_in_dev netdev) net"
  shows "ar_get_ipv4_info net netdev (arp_set s xs 0) =
    Inr (arp_set s (foldl (\<lambda>t d. t[length xs - 1 := dev_entry d True (hd (dev_addrs d))])
           (take (length xs) (arp_config net netdev)) (late_vlans netdev ds2))
         (length xs + length (late_vlans netdev ds2)))"
proof -
  let ?P = "map (dev_entry netdev False) as"
  let ?xs = "overlay xs 0 ?P" and ?V = "vlan_entries netdev (ds1 @ [d])"
  have lV: "length xs - length as \<le> length ?V"
    using full d by (simp add: vlan_entries_def arp_entries_def)
  have conf: "take (length xs) (arp_config net netdev) = ?P @ take (length xs - length as) ?V"
    using room lV as
    by (simp add: arp_config_def arp_entries_def dev_addrs_def net vlan_entries_append
        vlan_entries_Cons [OF d])
  have "ar_get_ipv4_info net netdev (arp_set s xs 0) = arp_vlans netdev net (length as) (arp_set s ?xs (length as))"
    using arp_addrs_room [OF len, of 0 as netdev False] room as by (simp add: ar_get_ipv4_info_def)
  moreover have "overlay ?xs (length as) (take (length xs - length as) ?V) = take (length xs) (arp_config net netdev)"
    using overlay_append [of 0 ?P "take (length xs - length as) ?V" xs] room lV
    by (simp add: conf) (simp add: overlay_def)
  ultimately show ?thesis
    using arp_vlans_overflow [of ?xs s "length as" netdev ds1 d ds2] len room full d devs
    by (simp add: net)
qed

section \<open>The neighbour tables\<close>

text \<open>The state with the two neighbour tables and their counts replaced.\<close>

definition ndp_set ::
    "core_state \<Rightarrow> auto_res_ndp_entry list \<Rightarrow> nat \<Rightarrow> auto_res_ndp_entry list \<Rightarrow> nat \<Rightarrow> core_state" where
  "ndp_set s xs c ys g = s\<lparr>ar_ndp_tem_tbl := TArr xs, ar_ndp_tgt_tbl := TArr ys,
     ar_nd_db := (ar_nd_db s)\<lparr>table_size_tmp := c, table_size_assigned := g\<rparr>\<rparr>"

lemma ndp_set_sel [simp]:
  "ar_ndp_tem_tbl (ndp_set s xs c ys g) = TArr xs" "ar_ndp_tgt_tbl (ndp_set s xs c ys g) = TArr ys"
  "table_size_tmp (ar_nd_db (ndp_set s xs c ys g)) = c"
  "table_size_assigned (ar_nd_db (ndp_set s xs c ys g)) = g"
  "ar_ndptblsize (ndp_set s xs c ys g) = ar_ndptblsize s"
  "ar_arptblsize (ndp_set s xs c ys g) = ar_arptblsize s"
  "ar_arp_tbl (ndp_set s xs c ys g) = ar_arp_tbl s" "ar_arp_db (ndp_set s xs c ys g) = ar_arp_db s"
  by (simp_all add: ndp_set_def)

lemma put_tem_in [simp]:
  "i < length xs \<Longrightarrow> put_tem i e (ndp_set s xs c ys g) = Inr (ndp_set s (xs[i := e]) (Suc c) ys g)"
  by (simp add: put_tem_def ndp_set_def)

lemma put_tgt_in [simp]:
  "i < length ys \<Longrightarrow> put_tgt i e (ndp_set s xs c ys g) = Inr (ndp_set s xs c (ys[i := e]) (Suc g))"
  by (simp add: put_tgt_def ndp_set_def)

text \<open>The addresses of each kind; one that is both counts as temporary.\<close>

definition temps :: "inet6_ifaddr list \<Rightarrow> ip6 list" where
  "temps as = map s6_addr32 (filter ifa_temporary as)"

definition perms :: "inet6_ifaddr list \<Rightarrow> ip6 list" where
  "perms as = map s6_addr32 (filter (\<lambda>a. \<not> ifa_temporary a \<and> ifa_permanent a) as)"

lemma temps_simps [simp]:
  "temps [] = []" "temps (a # as) = (if ifa_temporary a then s6_addr32 a # temps as else temps as)"
  "temps (as @ bs) = temps as @ temps bs"
  by (simp_all add: temps_def)

lemma perms_simps [simp]:
  "perms [] = []"
  "perms (a # as) = (if \<not> ifa_temporary a \<and> ifa_permanent a then s6_addr32 a # perms as else perms as)"
  "perms (as @ bs) = perms as @ perms bs"
  by (simp_all add: perms_def)

definition ndp_at :: "nat \<Rightarrow> nat \<Rightarrow> ndp_pos" where
  "ndp_at c g = \<lparr>index_tem = c, index_tgt = g, maxlim_flag_tem = False, maxlim_flag_tgt = False\<rparr>"

lemma ndp_at_sel [simp]:
  "index_tem (ndp_at c g) = c" "index_tgt (ndp_at c g) = g"
  "\<not> maxlim_flag_tem (ndp_at c g)" "\<not> maxlim_flag_tgt (ndp_at c g)"
  "(ndp_at c g)\<lparr>index_tem := x\<rparr> = ndp_at x g" "(ndp_at c g)\<lparr>index_tgt := x\<rparr> = ndp_at c x"
  by (simp_all add: ndp_at_def)

text \<open>With room in both tables the loops append the temporary and the permanent addresses.\<close>

lemma ndp_phys_room:
  "length xs = unat (ar_ndptblsize s) \<Longrightarrow> length ys = unat (ar_ndptblsize s) \<Longrightarrow>
   c + length (temps as) < length xs \<Longrightarrow> g + length (perms as) < length ys \<Longrightarrow>
   ndp_phys d (as @ bs) (ndp_at c g) (ndp_set s xs c ys g) =
     ndp_phys d bs (ndp_at (c + length (temps as)) (g + length (perms as)))
       (ndp_set s (overlay xs c (map (dev_entry d False) (temps as))) (c + length (temps as))
                  (overlay ys g (map (dev_entry d False) (perms as))) (g + length (perms as)))"
proof (induction as arbitrary: xs c ys g)
  case Nil
  then show ?case by simp
next
  case (Cons a as)
  from Cons.IH [of "xs[c := dev_entry d False (s6_addr32 a)]" ys "Suc c" g]
    Cons.IH [of xs "ys[g := dev_entry d False (s6_addr32 a)]" c "Suc g"]
    Cons.IH [of xs ys c g] Cons.prems
  show ?case by (auto simp: overlay_Cons)
qed

lemma ndp_vlan_room:
  "length xs = unat (ar_ndptblsize s) \<Longrightarrow> length ys = unat (ar_ndptblsize s) \<Longrightarrow>
   c + length (temps as) < length xs \<Longrightarrow> g + length (perms as) < length ys \<Longrightarrow>
   ndp_vlan d as (ndp_at c g) (ndp_set s xs c ys g) =
     Inr (ndp_at (c + length (temps as)) (g + length (perms as)),
          ndp_set s (overlay xs c (map (dev_entry d True) (temps as))) (c + length (temps as))
                    (overlay ys g (map (dev_entry d True) (perms as))) (g + length (perms as)))"
proof (induction as arbitrary: xs c ys g)
  case Nil
  then show ?case by simp
next
  case (Cons a as)
  from Cons.IH [of "xs[c := dev_entry d True (s6_addr32 a)]" ys "Suc c" g]
    Cons.IH [of xs "ys[g := dev_entry d True (s6_addr32 a)]" c "Suc g"]
    Cons.IH [of xs ys c g] Cons.prems
  show ?case by (auto simp: overlay_Cons)
qed

definition dev_addrs6 :: "net_device \<Rightarrow> inet6_ifaddr list" where
  "dev_addrs6 d = (case in6_dev d of None \<Rightarrow> [] | Some as \<Rightarrow> as)"

text \<open>The slots for the addresses that \<open>sel\<close> picks, device after device.\<close>

definition ndp_entries ::
    "(inet6_ifaddr list \<Rightarrow> ip6 list) \<Rightarrow> net_device \<Rightarrow> bool \<Rightarrow> auto_res_ndp_entry list" where
  "ndp_entries sel d vlan = map (dev_entry d vlan) (sel (dev_addrs6 d))"

definition vlan_entries6 ::
    "(inet6_ifaddr list \<Rightarrow> ip6 list) \<Rightarrow> net_device \<Rightarrow> net_device list \<Rightarrow> auto_res_ndp_entry list" where
  "vlan_entries6 sel netdev ds = concat (map (\<lambda>d. ndp_entries sel d True) (filter (vlan_of netdev) ds))"

lemma vlan_entries6_simps [simp]:
  "vlan_entries6 sel netdev [] = []"
  "vlan_entries6 sel netdev (d # ds) =
     (if vlan_of netdev d then ndp_entries sel d True @ vlan_entries6 sel netdev ds
      else vlan_entries6 sel netdev ds)"
  by (simp_all add: vlan_entries6_def)

definition has_in6_dev :: "net_device \<Rightarrow> net_device \<Rightarrow> bool" where
  "has_in6_dev netdev d \<longleftrightarrow> vlan_of netdev d \<longrightarrow> in6_dev d \<noteq> None"

lemma ndp_vlans_room:
  "length xs = unat (ar_ndptblsize s) \<Longrightarrow> length ys = unat (ar_ndptblsize s) \<Longrightarrow>
   c + length (vlan_entries6 temps netdev ds) < length xs \<Longrightarrow>
   g + length (vlan_entries6 perms netdev ds) < length ys \<Longrightarrow> list_all (has_in6_dev netdev) ds \<Longrightarrow>
   ndp_vlans netdev ds (ndp_at c g) (ndp_set s xs c ys g) =
     Inr (ndp_set s (overlay xs c (vlan_entries6 temps netdev ds)) (c + length (vlan_entries6 temps netdev ds))
                    (overlay ys g (vlan_entries6 perms netdev ds)) (g + length (vlan_entries6 perms netdev ds)))"
proof (induction ds arbitrary: xs c ys g)
  case Nil
  then show ?case by simp
next
  case (Cons d ds)
  show ?case
  proof (cases "vlan_of netdev d")
    case False
    with Cons show ?thesis by simp
  next
    case True
    with Cons.prems(5) obtain as where as: "in6_dev d = Some as" by (auto simp: has_in6_dev_def)
    let ?T = "map (dev_entry d True) (temps as)" and ?P = "map (dev_entry d True) (perms as)"
    have ent: "ndp_entries temps d True = ?T" "ndp_entries perms d True = ?P"
      using as by (simp_all add: ndp_entries_def dev_addrs6_def)
    from Cons.prems True ent have lt: "c + length (temps as) < length xs" "g + length (perms as) < length ys"
      by simp_all
    from Cons.IH [of "overlay xs c ?T" "overlay ys g ?P" "c + length (temps as)" "g + length (perms as)"]
      Cons.prems ndp_vlan_room [OF Cons.prems(1,2) lt] True as ent
      overlay_append [of c ?T "vlan_entries6 temps netdev ds" xs]
      overlay_append [of g ?P "vlan_entries6 perms netdev ds" ys]
    show ?thesis by (simp add: add_ac)
  qed
qed

text \<open>What the neighbour tables should hold.\<close>

definition ndp_config ::
    "(inet6_ifaddr list \<Rightarrow> ip6 list) \<Rightarrow> net_device list \<Rightarrow> net_device \<Rightarrow> auto_res_ndp_entry list" where
  "ndp_config sel net netdev = ndp_entries sel netdev False @ vlan_entries6 sel netdev net"

definition net6_ok :: "net_device list \<Rightarrow> net_device \<Rightarrow> bool" where
  "net6_ok net netdev \<longleftrightarrow> in6_dev netdev \<noteq> None \<and> list_all (has_in6_dev netdev) net"

lemma ipv6_room:
  assumes len: "length xs = unat (ar_ndptblsize s)" "length ys = unat (ar_ndptblsize s)"
    and ok: "net6_ok net netdev"
    and room: "length (ndp_config temps net netdev) < length xs" "length (ndp_config perms net netdev) < length ys"
  shows "ar_get_ipv6_info net netdev (ndp_set s xs 0 ys 0) =
    Inr (ndp_set s (overlay xs 0 (ndp_config temps net netdev)) (length (ndp_config temps net netdev))
                   (overlay ys 0 (ndp_config perms net netdev)) (length (ndp_config perms net netdev)))"
proof -
  obtain as where as: "in6_dev netdev = Some as" and devs: "list_all (has_in6_dev netdev) net"
    using ok by (auto simp: net6_ok_def)
  let ?T = "map (dev_entry netdev False) (temps as)" and ?P = "map (dev_entry netdev False) (perms as)"
  have ent: "ndp_entries temps netdev False = ?T" "ndp_entries perms netdev False = ?P"
    using as by (simp_all add: ndp_entries_def dev_addrs6_def)
  have "ar_get_ipv6_info net netdev (ndp_set s xs 0 ys 0) =
      rbind (ndp_phys netdev as (ndp_at 0 0) (ndp_set s xs 0 ys 0)) (\<lambda>(p, s). ndp_vlans netdev net p s)"
    using as by (simp add: ar_get_ipv6_info_def ndp_at_def)
  then show ?thesis
    using as room len devs ent
      ndp_phys_room [OF len, of 0 as 0 netdev "[]"]
      ndp_vlans_room [of "overlay xs 0 ?T" s "overlay ys 0 ?P" "length (temps as)" netdev net "length (perms as)"]
      overlay_append [of 0 ?T "vlan_entries6 temps netdev net" xs]
      overlay_append [of 0 ?P "vlan_entries6 perms netdev net" ys]
    by (simp add: ndp_config_def)
qed

section \<open>Invariant\<close>

definition core_ready :: "core_state \<Rightarrow> bool" where
  "core_ready s \<longleftrightarrow>
     (case ar_arp_tbl s of TArr xs \<Rightarrow> length xs = unat (ar_arptblsize s) \<and> xs \<noteq> [] | _ \<Rightarrow> False) \<and>
     (case ar_ndp_tem_tbl s of TArr xs \<Rightarrow> length xs = unat (ar_ndptblsize s) | _ \<Rightarrow> False) \<and>
     (case ar_ndp_tgt_tbl s of TArr xs \<Rightarrow> length xs = unat (ar_ndptblsize s) | _ \<Rightarrow> False)"

lemma core_readyE:
  assumes "core_ready s"
  obtains xs ts ys where "ar_arp_tbl s = TArr xs" and "length xs = unat (ar_arptblsize s)" and "0 < length xs"
    and "ar_ndp_tem_tbl s = TArr ts" and "length ts = unat (ar_ndptblsize s)"
    and "ar_ndp_tgt_tbl s = TArr ys" and "length ys = unat (ar_ndptblsize s)"
proof -
  from assms obtain xs ts ys where s: "ar_arp_tbl s = TArr xs" "length xs = unat (ar_arptblsize s)" "xs \<noteq> []"
    "ar_ndp_tem_tbl s = TArr ts" "length ts = unat (ar_ndptblsize s)"
    "ar_ndp_tgt_tbl s = TArr ys" "length ys = unat (ar_ndptblsize s)"
    by (auto simp: core_ready_def split: tblptr.splits)
  have "0 < length xs" using s(3) by blast
  from that [OF s(1,2) this s(4-)] show ?thesis .
qed

text \<open>The counted part of each table: what the FMAN firmware will read.\<close>

definition arp_rows :: "core_state \<Rightarrow> auto_res_arp_entry list" where
  "arp_rows s = take (arp_table_size (ar_arp_db s)) (arr (ar_arp_tbl s))"

definition tem_rows :: "core_state \<Rightarrow> auto_res_ndp_entry list" where
  "tem_rows s = take (table_size_tmp (ar_nd_db s)) (arr (ar_ndp_tem_tbl s))"

definition tgt_rows :: "core_state \<Rightarrow> auto_res_ndp_entry list" where
  "tgt_rows s = take (table_size_assigned (ar_nd_db s)) (arr (ar_ndp_tgt_tbl s))"

text \<open>The counts are reset before the tables are filled.\<close>

lemma gather_eq:
  assumes "ar_arp_tbl s = TArr xs" and "ar_ndp_tem_tbl s = TArr ts" and "ar_ndp_tgt_tbl s = TArr ys"
  shows "ar_get_interface_info net (Some d) s =
    rbind (ar_get_ipv4_info net d (arp_set (ndp_set s ts 0 ys 0) xs 0)) (\<lambda>s.
    rbind (ar_get_ipv6_info net d s) (\<lambda>s. Inr (0, s)))"
proof -
  have "s\<lparr>ar_arp_db := (ar_arp_db s)\<lparr>arp_table_size := 0\<rparr>,
      ar_nd_db := (ar_nd_db s)\<lparr>table_size_assigned := 0, table_size_tmp := 0\<rparr>\<rparr>
    = arp_set (ndp_set s ts 0 ys 0) xs 0"
    using assms by (cases s) (simp add: arp_set_def ndp_set_def)
  then show ?thesis by (simp add: ar_get_interface_info_def Let_def)
qed

lemma arp_ndp_commute: "arp_set (ndp_set s ts c ys g) xs n = ndp_set (arp_set s xs n) ts c ys g"
  by (simp add: arp_set_def ndp_set_def)

lemma arp_set_sizes [simp]: "ar_ndptblsize (arp_set s xs c) = ar_ndptblsize s"
  by (simp add: arp_set_def)

section \<open>The ARP table in every configuration\<close>

lemma arp_gather_prefix:
  assumes "core_ready s" and "arp_table_size (ar_arp_db s) = 0" and "net_ok net d"
  shows "\<exists>ys c. ar_get_ipv4_info net d s = Inr (arp_set s ys c) \<and>
    length ys = unat (ar_arptblsize s) \<and>
    take (min (unat (ar_arptblsize s) - 1) (length (arp_config net d))) ys =
      take (min (unat (ar_arptblsize s) - 1) (length (arp_config net d))) (arp_config net d) \<and>
    min (unat (ar_arptblsize s) - 1) (length (arp_config net d)) \<le> c \<and>
    c \<le> unat (ar_arptblsize s) + length (late_vlans d net)"
proof -
  obtain xs where xs: "ar_arp_tbl s = TArr xs" "length xs = unat (ar_arptblsize s)" "0 < length xs"
    using core_readyE [OF assms(1)] by metis
  then have s: "s = arp_set s xs 0" using assms(2) by (simp add: arp_set_def)
  obtain as where as: "in_dev d = Some as" and devs: "list_all (has_in_dev d) net"
    using assms(3) by (auto simp: net_ok_def)
  let ?A = "arp_config net d" and ?n = "length xs"
  let ?good = "\<lambda>ys c. length ys = ?n \<and> take (min (?n - 1) (length ?A)) ys = take (min (?n - 1) (length ?A)) ?A \<and>
      min (?n - 1) (length ?A) \<le> c \<and> c \<le> ?n + length (late_vlans d net)"
  have "\<exists>ys c. ar_get_ipv4_info net d (arp_set s xs 0) = Inr (arp_set s ys c) \<and> ?good ys c"
  proof (cases "length ?A \<le> ?n")
    case True
    from ipv4_fit [OF xs(2,3) assms(3) True] True show ?thesis
      by (intro exI [of _ "overlay xs 0 ?A"] exI [of _ "length ?A"]) (simp add: overlay_def)
  next
    case over: False
    show ?thesis
    proof (cases "?n \<le> length as")
      case True
      from ipv4_phys_full [OF xs(2,3) as True, of net] over show ?thesis
        by (intro exI [of _ "take ?n ?A"] exI [of _ ?n]) (simp add: min_def)
    next
      case False
      have "length ?A = length as + length (vlan_entries d net)"
        using as by (simp add: arp_config_def arp_entries_def dev_addrs_def)
      then have "?n - length as \<le> length (vlan_entries d net)" and "0 < ?n - length as"
        using over False by simp_all
      then obtain ds1 e ds2 where net: "net = ds1 @ e # ds2" and e: "vlan_of d e"
        and room: "length (vlan_entries d ds1) < ?n - length as"
        and full: "?n - length as \<le> length (vlan_entries d ds1) + length (dev_addrs e)"
        by (rule overflow_split)
      let ?f = "\<lambda>t d. t[?n - 1 := dev_entry d True (hd (dev_addrs d))]"
      let ?ys = "foldl ?f (take ?n ?A) (late_vlans d ds2)"
      have keep: "length (foldl ?f t ds) = length t \<and> take (?n - 1) (foldl ?f t ds) = take (?n - 1) t" for t ds
        by (induction ds arbitrary: t) simp_all
      have run: "ar_get_ipv4_info net d (arp_set s xs 0) = Inr (arp_set s ?ys (?n + length (late_vlans d ds2)))"
        using ipv4_vlan_overflow [OF xs(2) as net e _ _ devs] room full by simp
      have "min (?n - 1) (length ?A) = ?n - 1" using over by linarith
      moreover have "length (late_vlans d ds2) \<le> length (late_vlans d net)" by (simp add: net late_vlans_def)
      ultimately have "?good ?ys (?n + length (late_vlans d ds2))"
        using keep [of "take ?n ?A" "late_vlans d ds2"] over by simp
      with run show ?thesis by blast
    qed
  qed
  then show ?thesis unfolding s [symmetric] xs(2) .
qed

section \<open>Safety of the loops\<close>

text \<open>Where the loops stand in the neighbour tables, whatever the addresses were.\<close>

definition ndp_inv :: "ndp_pos \<Rightarrow> core_state \<Rightarrow> bool" where
  "ndp_inv p s \<longleftrightarrow>
     (case ar_ndp_tem_tbl s of TArr xs \<Rightarrow> length xs = unat (ar_ndptblsize s) \<and> index_tem p < length xs | _ \<Rightarrow> False) \<and>
     (case ar_ndp_tgt_tbl s of TArr ys \<Rightarrow> length ys = unat (ar_ndptblsize s) \<and> index_tgt p < length ys | _ \<Rightarrow> False) \<and>
     index_tem p \<le> table_size_tmp (ar_nd_db s) \<and> index_tgt p \<le> table_size_assigned (ar_nd_db s)"

text \<open>What the IPv6 functions leave alone.\<close>

definition same_arp :: "core_state \<Rightarrow> core_state \<Rightarrow> bool" where
  "same_arp s s' \<longleftrightarrow> ar_arp_tbl s' = ar_arp_tbl s \<and> ar_arp_db s' = ar_arp_db s \<and>
     ar_arptblsize s' = ar_arptblsize s \<and> ar_ndptblsize s' = ar_ndptblsize s"

lemma ndp_invE:
  assumes "ndp_inv p s"
  obtains ts ys where "ar_ndp_tem_tbl s = TArr ts" and "length ts = unat (ar_ndptblsize s)"
    and "index_tem p < unat (ar_ndptblsize s)" and "ar_ndp_tgt_tbl s = TArr ys"
    and "length ys = unat (ar_ndptblsize s)" and "index_tgt p < unat (ar_ndptblsize s)"
    and "index_tem p \<le> table_size_tmp (ar_nd_db s)" and "index_tgt p \<le> table_size_assigned (ar_nd_db s)"
  using assms by (auto simp: ndp_inv_def split: tblptr.splits)

lemma put_tem_inv:
  assumes "ndp_inv p s"
  shows "\<exists>s'. put_tem (index_tem p) e s = Inr s' \<and> same_arp s s' \<and> ndp_inv p s' \<and>
    table_size_tmp (ar_nd_db s') = Suc (table_size_tmp (ar_nd_db s)) \<and>
    (table_size_tmp (ar_nd_db s') < unat (ar_ndptblsize s) \<longrightarrow> ndp_inv (p\<lparr>index_tem := Suc (index_tem p)\<rparr>) s')"
  by (rule ndp_invE [OF assms]) (simp add: put_tem_def same_arp_def ndp_inv_def)

lemma put_tgt_inv:
  assumes "ndp_inv p s"
  shows "\<exists>s'. put_tgt (index_tgt p) e s = Inr s' \<and> same_arp s s' \<and> ndp_inv p s' \<and>
    table_size_assigned (ar_nd_db s') = Suc (table_size_assigned (ar_nd_db s)) \<and>
    (table_size_assigned (ar_nd_db s') < unat (ar_ndptblsize s) \<longrightarrow> ndp_inv (p\<lparr>index_tgt := Suc (index_tgt p)\<rparr>) s')"
  by (rule ndp_invE [OF assms]) (simp add: put_tgt_def same_arp_def ndp_inv_def)

lemma same_arp_trans: "same_arp s t \<Longrightarrow> same_arp t u \<Longrightarrow> same_arp s u"
  by (simp add: same_arp_def)

lemma same_arp_refl [simp]: "same_arp s s"
  by (simp add: same_arp_def)

lemma ndp_inv_flag [simp]:
  "ndp_inv (p\<lparr>maxlim_flag_tem := b\<rparr>) s = ndp_inv p s" "ndp_inv (p\<lparr>maxlim_flag_tgt := b\<rparr>) s = ndp_inv p s"
  by (simp_all add: ndp_inv_def split: tblptr.split)

lemma ndp_phys_safe:
  "ndp_inv p s \<Longrightarrow> \<exists>p' s'. ndp_phys d as p s = Inr (p', s') \<and> ndp_inv p' s' \<and> same_arp s s'"
proof (induction as arbitrary: p s)
  case Nil
  then show ?case by simp
next
  case (Cons a as)
  obtain s1 where t: "put_tem (index_tem p) (dev_entry d False (s6_addr32 a)) s = Inr s1" "same_arp s s1"
    "ndp_inv p s1" "table_size_tmp (ar_nd_db s1) < unat (ar_ndptblsize s) \<longrightarrow> ndp_inv (p\<lparr>index_tem := Suc (index_tem p)\<rparr>) s1"
    using put_tem_inv [OF Cons.prems] by blast
  obtain s2 where g: "put_tgt (index_tgt p) (dev_entry d False (s6_addr32 a)) s = Inr s2" "same_arp s s2"
    "ndp_inv p s2" "table_size_assigned (ar_nd_db s2) < unat (ar_ndptblsize s) \<longrightarrow> ndp_inv (p\<lparr>index_tgt := Suc (index_tgt p)\<rparr>) s2"
    using put_tgt_inv [OF Cons.prems] by blast
  have sizes: "ar_ndptblsize s1 = ar_ndptblsize s" "ar_ndptblsize s2 = ar_ndptblsize s"
    using t(2) g(2) by (simp_all add: same_arp_def)
  show ?case
    using t g sizes Cons.IH [of "p\<lparr>index_tem := Suc (index_tem p)\<rparr>" s1]
      Cons.IH [of "p\<lparr>index_tgt := Suc (index_tgt p)\<rparr>" s2] Cons.IH [OF Cons.prems]
    by (auto simp: not_le intro: same_arp_trans)
qed

lemma ndp_vlan_safe:
  "ndp_inv p s \<Longrightarrow> \<exists>p' s'. ndp_vlan d as p s = Inr (p', s') \<and> ndp_inv p' s' \<and> same_arp s s'"
proof (induction as arbitrary: p s)
  case Nil
  then show ?case by simp
next
  case (Cons a as)
  obtain s1 where t: "put_tem (index_tem p) (dev_entry d True (s6_addr32 a)) s = Inr s1" "same_arp s s1"
    "ndp_inv p s1" "table_size_tmp (ar_nd_db s1) < unat (ar_ndptblsize s) \<longrightarrow> ndp_inv (p\<lparr>index_tem := Suc (index_tem p)\<rparr>) s1"
    using put_tem_inv [OF Cons.prems] by blast
  obtain s2 where g: "put_tgt (index_tgt p) (dev_entry d True (s6_addr32 a)) s = Inr s2" "same_arp s s2"
    "ndp_inv p s2" "table_size_assigned (ar_nd_db s2) < unat (ar_ndptblsize s) \<longrightarrow> ndp_inv (p\<lparr>index_tgt := Suc (index_tgt p)\<rparr>) s2"
    using put_tgt_inv [OF Cons.prems] by blast
  have sizes: "ar_ndptblsize s1 = ar_ndptblsize s" "ar_ndptblsize s2 = ar_ndptblsize s"
    using t(2) g(2) by (simp_all add: same_arp_def)
  show ?case
    using t g sizes Cons.IH [of "p\<lparr>index_tem := Suc (index_tem p)\<rparr>" s1]
      Cons.IH [of "p\<lparr>index_tgt := Suc (index_tgt p)\<rparr>" s2] Cons.IH [OF Cons.prems]
    by (auto simp: not_le intro: same_arp_trans)
qed

lemma ndp_vlans_safe:
  "ndp_inv p s \<Longrightarrow> list_all (has_in6_dev netdev) ds \<Longrightarrow>
     \<exists>p' s'. ndp_vlans netdev ds p s = Inr s' \<and> ndp_inv p' s' \<and> same_arp s s'"
proof (induction ds arbitrary: p s)
  case Nil
  then show ?case by auto
next
  case (Cons d ds)
  show ?case
  proof (cases "vlan_of netdev d")
    case False
    with Cons show ?thesis by simp
  next
    case True
    with Cons.prems(2) obtain as where as: "in6_dev d = Some as" by (auto simp: has_in6_dev_def)
    obtain p1 s1 where s1: "ndp_vlan d as p s = Inr (p1, s1)" "ndp_inv p1 s1" "same_arp s s1"
      using ndp_vlan_safe [OF Cons.prems(1)] by blast
    from Cons.IH [OF this(2)] Cons.prems(2) True as s1 show ?thesis by (auto intro: same_arp_trans)
  qed
qed

lemma gather_safe:
  assumes "core_ready s" and "ar_ndptblsize s \<noteq> 0" and "net_ok net d" and "net6_ok net d"
  shows "\<exists>s'. ar_get_interface_info net (Some d) s = Inr (0, s') \<and> core_ready s' \<and>
    ar_arptblsize s' = ar_arptblsize s \<and> ar_ndptblsize s' = ar_ndptblsize s"
proof -
  obtain xs ts ys where s: "ar_arp_tbl s = TArr xs" "length xs = unat (ar_arptblsize s)" "0 < length xs"
    "ar_ndp_tem_tbl s = TArr ts" "length ts = unat (ar_ndptblsize s)"
    "ar_ndp_tgt_tbl s = TArr ys" "length ys = unat (ar_ndptblsize s)"
    using core_readyE [OF assms(1)] .
  let ?s0 = "arp_set (ndp_set s ts 0 ys 0) xs 0"
  have n: "0 < unat (ar_ndptblsize s)" using assms(2) by (simp add: unat_gt_0)
  have xs: "xs \<noteq> []" using s(3) by blast
  have "core_ready ?s0" using s n xs by (simp add: core_ready_def arp_ndp_commute)
  from arp_gather_prefix [OF this _ assms(3)] obtain zs c where
    r4: "ar_get_ipv4_info net d ?s0 = Inr (arp_set ?s0 zs c)" and zs: "length zs = unat (ar_arptblsize s)"
    by (auto simp: arp_ndp_commute)
  let ?s1 = "ndp_set (arp_set s zs c) ts 0 ys 0"
  have s1: "arp_set ?s0 zs c = ?s1" by (simp add: arp_ndp_commute)
  obtain as where as: "in6_dev d = Some as" and devs: "list_all (has_in6_dev d) net"
    using assms(4) by (auto simp: net6_ok_def)
  have "ndp_inv \<lparr>index_tem = 0, index_tgt = 0, maxlim_flag_tem = False, maxlim_flag_tgt = False\<rparr> ?s1"
    using s n by (simp add: ndp_inv_def)
  from ndp_phys_safe [OF this] obtain p2 s2 where
    s2: "ndp_phys d as \<lparr>index_tem = 0, index_tgt = 0, maxlim_flag_tem = False, maxlim_flag_tgt = False\<rparr> ?s1
      = Inr (p2, s2)" "ndp_inv p2 s2" "same_arp ?s1 s2" by blast
  from ndp_vlans_safe [OF s2(2) devs] obtain p3 s3 where
    s3: "ndp_vlans d net p2 s2 = Inr s3" "ndp_inv p3 s3" "same_arp s2 s3" by blast
  have keep: "same_arp ?s1 s3" using s2(3) s3(3) by (rule same_arp_trans)
  have "zs \<noteq> []" using zs s(2) xs by auto
  then have "core_ready s3" using keep zs s3(2)
    by (auto simp: core_ready_def ndp_inv_def same_arp_def split: tblptr.splits)
  moreover have "ar_get_interface_info net (Some d) s = Inr (0, s3)"
    unfolding gather_eq [OF s(1,4,6)] r4 s1 using as s2(1) s3(1) by (simp add: ar_get_ipv6_info_def)
  ultimately show ?thesis using keep by (auto simp: same_arp_def)
qed

lemma gather_fit:
  assumes "core_ready s" and "net_ok net d" and "net6_ok net d"
    and "length (arp_config net d) \<le> unat (ar_arptblsize s)"
    and "length (ndp_config temps net d) < unat (ar_ndptblsize s)"
    and "length (ndp_config perms net d) < unat (ar_ndptblsize s)"
  shows "\<exists>s'. ar_get_interface_info net (Some d) s = Inr (0, s') \<and> core_ready s' \<and>
    arp_rows s' = arp_config net d \<and> tem_rows s' = ndp_config temps net d \<and>
    tgt_rows s' = ndp_config perms net d \<and>
    arp_table_size (ar_arp_db s') = length (arp_config net d) \<and>
    table_size_assigned (ar_nd_db s') = length (ndp_config perms net d)"
proof -
  obtain xs ts ys where s: "ar_arp_tbl s = TArr xs" "length xs = unat (ar_arptblsize s)" "0 < length xs"
    "ar_ndp_tem_tbl s = TArr ts" "length ts = unat (ar_ndptblsize s)"
    "ar_ndp_tgt_tbl s = TArr ys" "length ys = unat (ar_ndptblsize s)"
    using core_readyE [OF assms(1)] .
  let ?A = "arp_config net d" and ?T = "ndp_config temps net d" and ?P = "ndp_config perms net d"
  let ?s1 = "arp_set s (overlay xs 0 ?A) (length ?A)"
  have r4: "ar_get_ipv4_info net d (arp_set (ndp_set s ts 0 ys 0) xs 0) = Inr (ndp_set ?s1 ts 0 ys 0)"
    using ipv4_fit [of xs "ndp_set s ts 0 ys 0" net d] s assms(2,4) by (simp add: arp_ndp_commute)
  have r6: "ar_get_ipv6_info net d (ndp_set ?s1 ts 0 ys 0)
      = Inr (ndp_set ?s1 (overlay ts 0 ?T) (length ?T) (overlay ys 0 ?P) (length ?P))"
    using ipv6_room [of ts ?s1 ys net d] s assms(3,5,6) by simp
  let ?s2 = "ndp_set ?s1 (overlay ts 0 ?T) (length ?T) (overlay ys 0 ?P) (length ?P)"
  have run: "ar_get_interface_info net (Some d) s = Inr (0, ?s2)"
    unfolding gather_eq [OF s(1,4,6)] r4 rbind_Inr r6 ..
  have "length (overlay xs 0 ?A) = length xs" using s assms(4) by simp
  then have "overlay xs 0 ?A \<noteq> []" using s(3) by (metis length_greater_0_conv)
  then have "core_ready ?s2" using s assms(4-6) by (simp add: core_ready_def)
  moreover have "arp_rows ?s2 = ?A" and "tem_rows ?s2 = ?T" and "tgt_rows ?s2 = ?P"
    using s assms(4-6) take_overlay [of 0 ?A xs] take_overlay [of 0 ?T ts] take_overlay [of 0 ?P ys]
    by (simp_all add: arp_rows_def tem_rows_def tgt_rows_def)
  moreover have "arp_table_size (ar_arp_db ?s2) = length ?A" "table_size_assigned (ar_nd_db ?s2) = length ?P"
    by simp_all
  ultimately show ?thesis using run by blast
qed

section \<open>Properties\<close>

text \<open>
  Claim C7.  Gathering the interface configuration: when the port and the VLAN devices on it have
  an IPv4 and an IPv6 configuration, their addresses fit in the ARP table, and fit in the
  neighbour tables with a slot to spare (on an exact fit the code drops addresses,
  \<open>ndp_full_drops_permanent\<close>), the status is 0 and the counted parts of the three
  tables hold exactly these addresses in order, each with the hardware address of its device and,
  for a VLAN device, its VLAN identifier.
\<close>

theorem gather_complete:
  assumes "core_ready s" and "net_ok net d" and "net6_ok net d"
    and "length (arp_config net d) \<le> unat (ar_arptblsize s)"
    and "length (ndp_config temps net d) < unat (ar_ndptblsize s)"
    and "length (ndp_config perms net d) < unat (ar_ndptblsize s)"
  shows "\<exists>s'. ar_get_interface_info net (Some d) s = Inr (0, s') \<and> core_ready s' \<and>
    arp_rows s' = arp_config net d \<and> tem_rows s' = ndp_config temps net d \<and>
    tgt_rows s' = ndp_config perms net d"
  using gather_fit [OF assms] by blast

definition demo_netdev :: "nat \<Rightarrow> string \<Rightarrow> bool \<Rightarrow> u32 list \<Rightarrow> inet6_ifaddr list \<Rightarrow> net_device" where
  "demo_netdev i name vlan as as6 =
     \<lparr>ifindex = i, dev_name = name, dev_addr = replicate 5 2 @ [of_nat i] @ replicate 26 0, is_8021q = vlan,
      is_up = True, real_dev = 1, vlan_id = (if vlan then of_nat i * 10 else 0),
      in_dev = Some as, in6_dev = Some as6, port_rx = Some 1, port_tx = Some 2\<rparr>"

definition demo_addr6 :: "u32 \<Rightarrow> u32 \<Rightarrow> inet6_ifaddr" where
  "demo_addr6 a f = \<lparr>s6_addr32 = (0xfe80, 0, 0, a), ifa_flags = f\<rparr>"

definition demo_port :: net_device where
  "demo_port = demo_netdev 1 ''fm1-mac5'' False [0x0a000001] [demo_addr6 1 0x80, demo_addr6 2 0x01]"

definition demo_net :: "net_device list" where
  "demo_net = [demo_port, demo_netdev 2 ''vlan2'' True [0x0a000002] [demo_addr6 3 0x80],
               demo_netdev 3 ''vlan3'' True [0x0a000003] []]"

definition demo_core :: "nat \<Rightarrow> core_state" where
  "demo_core n = core_boot\<lparr>ar_arptblsize := of_nat n, ar_ndptblsize := of_nat n,
     ar_arp_tbl := TArr (replicate n zero_arp), ar_ndp_tem_tbl := TArr (replicate n zero_ndp),
     ar_ndp_tgt_tbl := TArr (replicate n zero_ndp)\<rparr>"

lemmas demo_net_simps =
  demo_net_def demo_port_def demo_netdev_def demo_addr6_def net_ok_def net6_ok_def has_in_dev_def
  has_in6_dev_def vlan_of_def arp_config_def arp_entries_def vlan_entries_def dev_addrs_def
  ndp_config_def ndp_entries_def dev_addrs6_def ifa_temporary_def ifa_permanent_def
  IFA_F_TEMPORARY_def IFA_F_PERMANENT_def late_vlans_def

lemma demo_core_ready: "0 < n \<Longrightarrow> n < 2 ^ 32 \<Longrightarrow> core_ready (demo_core n)"
  by (simp add: core_ready_def demo_core_def unsigned_of_nat take_bit_nat_eq_self)

theorem gather_complete_witness:
  "\<exists>s'. ar_get_interface_info demo_net (Some demo_port) (demo_core 4) = Inr (0, s') \<and>
     map ip_address (arp_rows s') = [0x0a000001, 0x0a000002, 0x0a000003] \<and>
     map ip_address (tgt_rows s') = [(0xfe80, 0, 0, 1), (0xfe80, 0, 0, 3)]"
proof -
  have "net_ok demo_net demo_port" and "net6_ok demo_net demo_port"
    by (simp_all add: demo_net_simps)
  moreover have "length (arp_config demo_net demo_port) \<le> unat (ar_arptblsize (demo_core 4))"
    and "length (ndp_config temps demo_net demo_port) < unat (ar_ndptblsize (demo_core 4))"
    and "length (ndp_config perms demo_net demo_port) < unat (ar_ndptblsize (demo_core 4))"
    by (simp_all add: demo_net_simps demo_core_def core_boot_def)
  moreover have "map ip_address (arp_config demo_net demo_port) = [0x0a000001, 0x0a000002, 0x0a000003]"
    and "map ip_address (ndp_config perms demo_net demo_port) = [(0xfe80, 0, 0, 1), (0xfe80, 0, 0, 3)]"
    by (simp_all add: demo_net_simps dev_entry_def)
  ultimately show ?thesis
    using gather_complete [OF demo_core_ready, of 4 demo_net demo_port] by auto
qed



text \<open>
  Claim C36.  When the addresses of one VLAN device fill the ARP table, every later VLAN device
  on the port that has an address still adds one to the count and overwrites the last slot, so
  the count handed to the firmware exceeds the size of the table by their number.
\<close>

theorem arp_count_overrun:
  assumes "core_ready s" and "arp_table_size (ar_arp_db s) = 0" and "in_dev d = Some as"
    and "list_all (has_in_dev d) (ds1 @ e # ds2)" and "vlan_of d e"
    and "length as + length (vlan_entries d ds1) < unat (ar_arptblsize s)"
    and "unat (ar_arptblsize s) \<le> length as + length (vlan_entries d ds1) + length (dev_addrs e)"
  shows "\<exists>s'. ar_get_ipv4_info (ds1 @ e # ds2) d s = Inr s' \<and>
    arp_table_size (ar_arp_db s') = unat (ar_arptblsize s) + length (late_vlans d ds2) \<and>
    length (arr (ar_arp_tbl s')) = unat (ar_arptblsize s) \<and>
    (unat (ar_arptblsize s) + length (late_vlans d ds2) < 2 ^ w \<longrightarrow>
      ar_get_ipv4_info_w w (ds1 @ e # ds2) d s = Inr s')"
proof -
  obtain xs where xs: "ar_arp_tbl s = TArr xs" "length xs = unat (ar_arptblsize s)"
    using core_readyE [OF assms(1)] by metis
  then have s: "s = arp_set s xs 0" using assms(2) by (simp add: arp_set_def)
  have keep: "length (foldl (\<lambda>t d. t[i := f d]) t ds) = length t"
    for t and i and f :: "net_device \<Rightarrow> auto_res_arp_entry" and ds :: "net_device list"
    by (induction ds arbitrary: t) simp_all
  have "length xs \<le> length (arp_config (ds1 @ e # ds2) d)"
    using assms(3,5,7) xs(2)
    by (simp add: arp_config_def arp_entries_def dev_addrs_def vlan_entries_append vlan_entries_Cons)
  then obtain s' where s': "ar_get_ipv4_info (ds1 @ e # ds2) d s = Inr s'"
    "arp_table_size (ar_arp_db s') = unat (ar_arptblsize s) + length (late_vlans d ds2)"
    "length (arr (ar_arp_tbl s')) = unat (ar_arptblsize s)"
    using ipv4_vlan_overflow [OF xs(2) assms(3) refl assms(5) _ _ assms(4)] assms(6,7) xs(2) s
    by (auto simp: keep)
  from ipv4_width [OF s'(1), of w] s' show ?thesis by auto
qed

theorem arp_count_overrun_witness:
  "\<exists>s'. ar_get_ipv4_info demo_net demo_port (demo_core 2) = Inr s' \<and> arp_table_size (ar_arp_db s') = 3 \<and>
     length (arr (ar_arp_tbl s')) = 2"
proof -
  have net: "demo_net = [demo_port] @ demo_netdev 2 ''vlan2'' True [0x0a000002] [demo_addr6 3 0x80] #
      [demo_netdev 3 ''vlan3'' True [0x0a000003] []]" by (simp add: demo_net_def)
  have "arp_table_size (ar_arp_db (demo_core 2)) = 0" "unat (ar_arptblsize (demo_core 2)) = 2"
    "in_dev demo_port = Some [0x0a000001]"
    by (simp_all add: demo_core_def core_boot_def zero_arp_db_def demo_net_simps)
  then show ?thesis
    unfolding net
    using arp_count_overrun [OF demo_core_ready, of 2 demo_port "[0x0a000001]" "[demo_port]"
        "demo_netdev 2 ''vlan2'' True [0x0a000002] [demo_addr6 3 0x80]"
        "[demo_netdev 3 ''vlan3'' True [0x0a000003] []]"]
    by (auto simp: demo_net_simps)
qed

text \<open>
  The neighbour tables of the port itself: as soon as one of its temporary addresses
  fills the temporary table, its remaining addresses are not looked at, so permanent addresses
  listed after it get no slot although their table has room.
\<close>

theorem ndp_full_drops_permanent:
  assumes "core_ready s" and "table_size_tmp (ar_nd_db s) = 0" and "table_size_assigned (ar_nd_db s) = 0"
    and "in6_dev d = Some (as @ a # bs)" and "ifa_temporary a"
    and "Suc (length (temps as)) = unat (ar_ndptblsize s)" and "length (perms as) < unat (ar_ndptblsize s)"
    and "list_all (\<lambda>e. \<not> vlan_of d e) net"
  shows "\<exists>s'. ar_get_ipv6_info net d s = Inr s' \<and> tgt_rows s' = map (dev_entry d False) (perms as) \<and>
    tem_rows s' = map (dev_entry d False) (temps as @ [s6_addr32 a])"
proof -
  obtain ts ys where t: "ar_ndp_tem_tbl s = TArr ts" "length ts = unat (ar_ndptblsize s)"
    "ar_ndp_tgt_tbl s = TArr ys" "length ys = unat (ar_ndptblsize s)"
    using core_readyE [OF assms(1)] by metis
  then have s: "s = ndp_set s ts 0 ys 0" using assms(2,3) by (simp add: ndp_set_def)
  let ?T = "map (dev_entry d False) (temps as)" and ?P = "map (dev_entry d False) (perms as)"
  let ?n = "length (temps as)" and ?m = "length (perms as)"
  have novlan: "ndp_vlans d net p s1 = Inr s1" for p s1
    using assms(8) by (induction net) auto
  have "ar_get_ipv6_info net d (ndp_set s ts 0 ys 0) =
      rbind (ndp_phys d (as @ a # bs) (ndp_at 0 0) (ndp_set s ts 0 ys 0)) (\<lambda>(p, s). ndp_vlans d net p s)"
    using assms(4) by (simp add: ar_get_ipv6_info_def ndp_at_def)
  also have "ndp_phys d (as @ a # bs) (ndp_at 0 0) (ndp_set s ts 0 ys 0) =
      ndp_phys d (a # bs) (ndp_at ?n ?m) (ndp_set s (overlay ts 0 ?T) ?n (overlay ys 0 ?P) ?m)"
    using ndp_phys_room [OF t(2,4), of 0 as 0 d "a # bs"] assms(6,7) t by simp
  also have "\<dots> = Inr ((ndp_at ?n ?m)\<lparr>maxlim_flag_tem := True\<rparr>,
      ndp_set s ((overlay ts 0 ?T)[?n := dev_entry d False (s6_addr32 a)]) (Suc ?n) (overlay ys 0 ?P) ?m)"
    using assms(5,6) t by simp
  finally have "ar_get_ipv6_info net d s =
      Inr (ndp_set s ((overlay ts 0 ?T)[?n := dev_entry d False (s6_addr32 a)]) (Suc ?n) (overlay ys 0 ?P) ?m)"
    using s novlan by simp
  moreover have "take (Suc ?n) ((overlay ts 0 ?T)[?n := dev_entry d False (s6_addr32 a)])
      = ?T @ [dev_entry d False (s6_addr32 a)]"
    using assms(6) t(2) overlay_Cons [of ?n "overlay ts 0 ?T" _ "[]"]
      overlay_append [of 0 ?T "[dev_entry d False (s6_addr32 a)]" ts] by (simp add: overlay_def)
  moreover have "take ?m (overlay ys 0 ?P) = ?P" by (simp add: overlay_def)
  ultimately show ?thesis by (simp add: tem_rows_def tgt_rows_def)
qed

theorem ndp_full_drops_permanent_witness:
  "let d = demo_port\<lparr>in6_dev := Some [demo_addr6 1 0x01, demo_addr6 2 0x80]\<rparr> in
     \<exists>s'. ar_get_ipv6_info [d] d (demo_core 1) = Inr s' \<and> tgt_rows s' = [] \<and> length (tem_rows s') = 1"
proof -
  let ?d = "demo_port\<lparr>in6_dev := Some [demo_addr6 1 0x01, demo_addr6 2 0x80]\<rparr>"
  have "table_size_tmp (ar_nd_db (demo_core 1)) = 0" "table_size_assigned (ar_nd_db (demo_core 1)) = 0"
    "unat (ar_ndptblsize (demo_core 1)) = 1"
    by (simp_all add: demo_core_def core_boot_def zero_nd_db_def)
  then show ?thesis
    using ndp_full_drops_permanent [OF demo_core_ready, of 1 ?d "[]" "demo_addr6 1 0x01" "[demo_addr6 2 0x80]" "[?d]"]
    by (auto simp: Let_def demo_net_simps)
qed

lemma intf_init_total:
  "ar_get_fm_port net port = Inr (rx, tx) \<Longrightarrow> \<exists>r s'. ar_intf_init_db net port maxsize kz s = Inr (r, s')"
  by (cases "maxsize rx") (simp_all add: ar_intf_init_db_def Let_def)

text \<open>Allocating the tables, for every answer of the driver and the allocator.\<close>

lemma intf_init_result:
  assumes "ar_get_fm_port net port = Inr (rx, tx)" and "ar_intf_init_db net port maxsize kz core_boot = Inr (r, s')"
  shows "(r = 0 \<longleftrightarrow> (rx \<noteq> None \<or> tx \<noteq> None) \<and> maxsize rx \<noteq> None \<and> kz 0 \<and> kz 1 \<and> kz 2) \<and>
    (if r = 0 then p_ar_maxsize s' = maxsize rx \<and>
       ar_arptblsize s' = max_num_of_arp_entries (the (maxsize rx)) \<and>
       ar_ndptblsize s' = max_num_of_ndp_entries (the (maxsize rx)) \<and>
       (core_ready s' \<or> ar_arptblsize s' = 0) \<and> arp_rows s' = [] \<and> tem_rows s' = [] \<and> tgt_rows s' = [] \<and>
       echo_table (ar_ipv4_echo_db s') = Some Arp_Tbl \<and> echo_table (ar_ipv6_echo_db s') = Some Ndp_Tgt_Tbl
     else \<not> core_ready s' \<and> r < 0)"
proof (cases "rx = None \<and> tx = None")
  case True
  with assms show ?thesis by (auto simp: ar_intf_init_db_def core_ready_def core_boot_def)
next
  case up: False
  show ?thesis
  proof (cases "maxsize rx")
    case None
    with up assms show ?thesis by (auto simp: ar_intf_init_db_def core_ready_def core_boot_def)
  next
    case (Some m)
    with up assms show ?thesis
      by (auto simp: ar_intf_init_db_def core_ready_def core_boot_def Let_def arp_rows_def tem_rows_def
          tgt_rows_def zero_arp_db_def zero_nd_db_def zero_echo_db_def unat_gt_0 split: if_splits)
  qed
qed

text \<open>
  \<open>ar_intf_init_db\<close>: status 0 exactly when the port is there and up, the FMAN driver
  reports sizes and all three tables can be allocated; the tables then have these sizes, are
  empty, and the echo tables share them (the IPv4 one the ARP table, the IPv6 one the permanent
  neighbour table).  A nonzero status leaves no table that can be used.
\<close>

theorem intf_init_outcome:
  assumes "ar_get_fm_port net port = Inr (rx, tx)" and "ar_intf_init_db net port maxsize kz core_boot = Inr (r, s')"
  shows "(r = 0 \<longleftrightarrow> (rx \<noteq> None \<or> tx \<noteq> None) \<and> maxsize rx \<noteq> None \<and> kz 0 \<and> kz 1 \<and> kz 2) \<and>
    (if r = 0 then p_ar_maxsize s' = maxsize rx \<and>
       ar_arptblsize s' = max_num_of_arp_entries (the (maxsize rx)) \<and>
       ar_ndptblsize s' = max_num_of_ndp_entries (the (maxsize rx)) \<and>
       (core_ready s' \<or> ar_arptblsize s' = 0) \<and> arp_rows s' = [] \<and> tem_rows s' = [] \<and> tgt_rows s' = [] \<and>
       echo_table (ar_ipv4_echo_db s') = Some Arp_Tbl \<and> echo_table (ar_ipv6_echo_db s') = Some Ndp_Tgt_Tbl
     else \<not> core_ready s' \<and> r < 0)"
  using assms by (rule intf_init_result)

theorem intf_init_outcome_witness:
  "\<exists>s'. ar_intf_init_db demo_net ''fm1-mac5'' (\<lambda>_. Some demo_sizes) (\<lambda>_. True) core_boot = Inr (0, s') \<and>
     core_ready s' \<and> ar_arptblsize s' = 4"
proof -
  have p: "ar_get_fm_port demo_net ''fm1-mac5'' = Inr (Some 1, Some 2)"
    by (simp add: ar_get_fm_port_def dev_get_by_name_def demo_net_simps)
  then obtain r s' where r: "ar_intf_init_db demo_net ''fm1-mac5'' (\<lambda>_. Some demo_sizes) (\<lambda>_. True) core_boot = Inr (r, s')"
    by (simp add: ar_intf_init_db_def Let_def)
  from intf_init_outcome [OF p r] r show ?thesis by (auto simp: demo_sizes_def)
qed

end
