(* ===== verification/AR_ProtDb.thy ===== *)
theory AR_ProtDb
  imports AR_Common
begin

text \<open>
  The protocol name table \<open>prot_info\<close> of \<open>arctrl_wakeup.c\<close> and its search function
  \<open>ar_wakeup_get_prot_code\<close>.  The search compares as many bytes as the argument has, so
  it looks for the first entry the argument is a prefix of; for a line with its newline
  this is the entry with exactly that name.
\<close>

section \<open>The table\<close>

record prot =
  prot_name :: "u8 list"
  prot_code :: u8

text \<open>The initialiser of \<open>prot_info\<close>, in its order.\<close>

definition prot_init :: "(string \<times> u8) list" where
  "prot_init =
    [
     (''HOPOPT\<newline>'', 0x00), (''ICMP\<newline>'', 0x01), (''IGMP\<newline>'', 0x02),
     (''GGP\<newline>'', 0x03), (''IP-in-IP\<newline>'', 0x04), (''ST\<newline>'', 0x05),
     (''TCP\<newline>'', 0x06), (''CBT\<newline>'', 0x07), (''EGP\<newline>'', 0x08),
     (''IGP\<newline>'', 0x09), (''BBN-RCC-MON\<newline>'', 0x0A), (''NVP-II\<newline>'', 0x0B),
     (''PUP\<newline>'', 0x0C), (''ARGUS\<newline>'', 0x0D), (''EMCON\<newline>'', 0x0E),
     (''XNET\<newline>'', 0x0F), (''CHAOS\<newline>'', 0x10), (''UDP\<newline>'', 0x11),
     (''MUX\<newline>'', 0x12), (''DCN-MEAS\<newline>'', 0x13), (''HMP\<newline>'', 0x14),
     (''PRM\<newline>'', 0x15), (''XNS-IDP\<newline>'', 0x16), (''TRUNK-1\<newline>'', 0x17),
     (''TRUNK-2\<newline>'', 0x18), (''LEAF-1\<newline>'', 0x19), (''LEAF-2\<newline>'', 0x1A),
     (''RDP\<newline>'', 0x1B), (''IRTP\<newline>'', 0x1C), (''ISO-TP4\<newline>'', 0x1D),
     (''NETBLT\<newline>'', 0x1E), (''MFE-NSP\<newline>'', 0x1F), (''MERIT-INP\<newline>'', 0x20),
     (''DCCP\<newline>'', 0x21), (''3PC\<newline>'', 0x22), (''IDPR\<newline>'', 0x23),
     (''XTP\<newline>'', 0x24), (''DDP\<newline>'', 0x25), (''IDPR-CMTP\<newline>'', 0x26),
     (''TP++\<newline>'', 0x27), (''IL\<newline>'', 0x28), (''IPv6\<newline>'', 0x29),
     (''SDRP\<newline>'', 0x2A), (''IPv6-Route\<newline>'', 0x2B), (''IPv6-Frag\<newline>'', 0x2C),
     (''IDRP\<newline>'', 0x2D), (''RSVP\<newline>'', 0x2E), (''GRE\<newline>'', 0x2F),
     (''MHRP\<newline>'', 0x30), (''BNA\<newline>'', 0x31), (''ESP\<newline>'', 0x32),
     (''AH\<newline>'', 0x33), (''I-NLSP\<newline>'', 0x34), (''SWIPE\<newline>'', 0x35),
     (''NARP\<newline>'', 0x36), (''MOBILE\<newline>'', 0x37), (''TLSP\<newline>'', 0x38),
     (''SKIP\<newline>'', 0x39), (''IPv6-ICMP\<newline>'', 0x3A), (''IPv6-NoNxt\<newline>'', 0x3B),
     (''IPv6-Opts\<newline>'', 0x3C), (''CFTP\<newline>'', 0x3E), (''SAT-EXPAK\<newline>'', 0x40),
     (''KRYPTOLAN\<newline>'', 0x41), (''RVD\<newline>'', 0x42), (''IPPC\<newline>'', 0x43),
     (''SAT-MON\<newline>'', 0x45), (''VISA\<newline>'', 0x46), (''IPCU\<newline>'', 0x47),
     (''CPNX\<newline>'', 0x48), (''CPHB\<newline>'', 0x49), (''WSN\<newline>'', 0x4A),
     (''PVP\<newline>'', 0x4B), (''BR-SAT-MON\<newline>'', 0x4C), (''SUN-ND\<newline>'', 0x4D),
     (''WB-MON\<newline>'', 0x4E), (''WB-EXPAK\<newline>'', 0x4F), (''ISO-IP\<newline>'', 0x50),
     (''VMTP\<newline>'', 0x51), (''SECURE-VMTP\<newline>'', 0x52), (''VINES\<newline>'', 0x53),
     (''TTP\<newline>'', 0x54), (''IPTM\<newline>'', 0x54), (''NSFNET-IGP\<newline>'', 0x55),
     (''DGP\<newline>'', 0x56), (''TCF\<newline>'', 0x57), (''EIGRP\<newline>'', 0x58),
     (''OSPF\<newline>'', 0x59), (''Sprite-RPC\<newline>'', 0x5A), (''LARP\<newline>'', 0x5B),
     (''MTP\<newline>'', 0x5C), (''AX.25\<newline>'', 0x5D), (''IPIP\<newline>'', 0x5E),
     (''MICP\<newline>'', 0x5F), (''SCC-SP\<newline>'', 0x60), (''ETHERIP\<newline>'', 0x61),
     (''ENCAP\<newline>'', 0x62), (''GMTP\<newline>'', 0x64), (''IFMP\<newline>'', 0x65),
     (''PNNI\<newline>'', 0x66), (''PIM\<newline>'', 0x67), (''ARIS\<newline>'', 0x68),
     (''SCPS\<newline>'', 0x69), (''QNX\<newline>'', 0x6A), (''A/N\<newline>'', 0x6B),
     (''IPComp\<newline>'', 0x6C), (''SNP\<newline>'', 0x6D), (''Compaq-Peer\<newline>'', 0x6E),
     (''IPX-in-IP\<newline>'', 0x6F), (''VRRP\<newline>'', 0x70), (''PGM\<newline>'', 0x71),
     (''L2TP\<newline>'', 0x73), (''DDX\<newline>'', 0x74), (''IATP\<newline>'', 0x75),
     (''STP\<newline>'', 0x76), (''SRP\<newline>'', 0x77), (''UTI\<newline>'', 0x78),
     (''SMP\<newline>'', 0x79), (''SM\<newline>'', 0x7A), (''PTP\<newline>'', 0x7B),
     (''IS-IS over IPv4\<newline>'', 0x7C), (''FIRE\<newline>'', 0x7D), (''CRTP\<newline>'', 0x7E),
     (''CRUDP\<newline>'', 0x7F), (''SSCOPMCE\<newline>'', 0x80), (''IPLT\<newline>'', 0x81),
     (''SPS\<newline>'', 0x82), (''PIPE\<newline>'', 0x83), (''SCTP\<newline>'', 0x84),
     (''FC\<newline>'', 0x85), (''RSVP-E2E-IGNORE\<newline>'', 0x86), (''Mobility Header\<newline>'', 0x87),
     (''UDPLite\<newline>'', 0x88), (''MPLS-in-IP\<newline>'', 0x89), (''manet\<newline>'', 0x8A),
     (''HIP\<newline>'', 0x8B), (''Shim6\<newline>'', 0x8C), (''WESP\<newline>'', 0x8D),
     (''ROHC\<newline>'', 0x8E)]"

text \<open>
  The array: a name fills the first bytes of its 25-byte field, the rest of the field and
  the slots after the initialiser are zero.
\<close>

definition prot_slot :: "string \<times> u8 \<Rightarrow> prot" where
  "prot_slot e = \<lparr>prot_name = bytes_of (fst e) @ replicate (25 - length (fst e)) 0,
                  prot_code = snd e\<rparr>"

definition prot_info :: "prot list" where
  "prot_info = map prot_slot prot_init @
     replicate (255 - length prot_init) \<lparr>prot_name = replicate 25 0, prot_code = 0\<rparr>"

section \<open>The search\<close>

text \<open>The loop of \<open>ar_wakeup_get_prot_code\<close>, over the slots of \<open>prot_info\<close>.\<close>

fun prot_search :: "u8 list \<Rightarrow> prot list \<Rightarrow> u8 res" where
  "prot_search pProtName [] = Inr (- 1)"
| "prot_search pProtName (p # ps) =
     rbind (c_strlen pProtName) (\<lambda>n.
     rbind (c_strncmp pProtName (prot_name p) n) (\<lambda>d.
     if d = 0 then Inr (prot_code p) else prot_search pProtName ps))"

definition ar_wakeup_get_prot_code :: "u8 list \<Rightarrow> u8 res" where
  "ar_wakeup_get_prot_code pProtName = prot_search pProtName prot_info"

section \<open>Characters and lines\<close>

lemma cstr_val_cstr [simp]: "CHR 0x00 \<notin> set s \<Longrightarrow> cstr_val (cstr s) = bytes_of s"
  by (simp add: cstr_def)

lemma has_nul_cstr [simp]: "has_nul (cstr s)"
  by (simp add: cstr_def)

text \<open>A line as \<open>fgets\<close> returns it: no NUL, and a newline at the end and nowhere else.\<close>

definition is_line :: "string \<Rightarrow> bool" where
  "is_line s \<longleftrightarrow>
     s \<noteq> [] \<and> last s = CHR 0x0A \<and> CHR 0x0A \<notin> set (butlast s) \<and> CHR 0x00 \<notin> set s"

lemma prefix_of_line:
  assumes "is_line s" and "is_line t" and "prefix s t"
  shows "s = t"
proof (rule ccontr)
  assume "s \<noteq> t"
  with assms(3) obtain r where t: "t = s @ r" and "r \<noteq> []" by (auto elim: prefixE)
  then have "set s \<subseteq> set (butlast t)" by (auto simp: butlast_append)
  moreover have "CHR 0x0A \<in> set s" using assms(1) by (metis is_line_def last_in_set)
  ultimately show False using assms(2) by (auto simp: is_line_def)
qed

section \<open>What the search returns\<close>

lemma prot_init_lines: "list_all (\<lambda>e. is_line (fst e)) prot_init"
  by code_simp

lemma prot_init_fits: "list_all (\<lambda>e. length (fst e) < 25) prot_init"
  by code_simp

lemma prot_slot_name:
  "e \<in> set prot_init \<Longrightarrow>
     has_nul (prot_name (prot_slot e)) \<and> cstr_val (prot_name (prot_slot e)) = bytes_of (fst e)"
  using prot_init_fits prot_init_lines
  by (cases "25 - length (fst e)")
    (auto simp: prot_slot_def list_all_iff is_line_def)

lemma prot_info_names: "p \<in> set prot_info \<Longrightarrow> has_nul (prot_name p)"
  using prot_slot_name by (auto simp: prot_info_def has_nul_def)

lemma prot_search_eq:
  assumes "has_nul nm" and "\<And>p. p \<in> set ps \<Longrightarrow> has_nul (prot_name p)"
  shows "prot_search nm ps =
    Inr (case find (\<lambda>p. prefix (cstr_val nm) (cstr_val (prot_name p))) ps of
           None \<Rightarrow> - 1 | Some p \<Rightarrow> prot_code p)"
  using assms(2)
proof (induction ps)
  case Nil
  then show ?case by simp
next
  case (Cons p ps)
  then have "has_nul (prot_name p)" by simp
  from c_strncmp_prefix [OF assms(1) this] obtain d where
    "c_strncmp nm (prot_name p) (length (cstr_val nm)) = Inr d"
    "d = 0 \<longleftrightarrow> prefix (cstr_val nm) (cstr_val (prot_name p))" by blast
  with Cons assms(1) show ?case by (simp add: c_strlen_eq)
qed

text \<open>The search never faults on a NUL-terminated argument.\<close>

lemma get_prot_code_total: "has_nul nm \<Longrightarrow> \<exists>c. ar_wakeup_get_prot_code nm = Inr c"
  using prot_search_eq [OF _ prot_info_names] by (simp add: ar_wakeup_get_prot_code_def)

lemma find_lines:
  assumes "is_line s" and "list_all (\<lambda>e. is_line (fst e)) es"
  shows "map_option snd (find (\<lambda>e. prefix s (fst e)) es) = map_of es s"
  using assms(2)
proof (induction es)
  case Nil
  then show ?case by simp
next
  case (Cons e es)
  then show ?case using prefix_of_line [OF assms(1), of "fst e"] by (cases e) auto
qed

lemma find_prot_info:
  assumes "is_line s"
  shows "map_option prot_code
      (find (\<lambda>p. prefix (bytes_of s) (cstr_val (prot_name p))) prot_info) = map_of prot_init s"
proof -
  let ?P = "\<lambda>p. prefix (bytes_of s) (cstr_val (prot_name p))"
  let ?z = "\<lparr>prot_name = replicate 25 0, prot_code = 0\<rparr> :: prot"
  have z: "\<not> ?P ?z" using assms
    by (auto simp: is_line_def bytes_of_def cstr_val_def numeral_eq_Suc)
  have app: "find ?P (xs @ replicate n ?z) = find ?P xs" for xs n
    using z by (induction xs; induction n) auto
  have map: "map_option prot_code (find ?P (map prot_slot es))
      = map_option snd (find (\<lambda>e. prefix s (fst e)) es)"
    if "set es \<subseteq> set prot_init" for es
    using that prot_slot_name by (induction es) (auto simp: prot_slot_def)
  show ?thesis
    using find_lines [OF assms prot_init_lines] by (simp add: prot_info_def app map)
qed

lemma get_prot_code_line:
  assumes "is_line s"
  shows "ar_wakeup_get_prot_code (cstr s) =
    Inr (case map_of prot_init s of None \<Rightarrow> 255 | Some c \<Rightarrow> c)"
proof -
  have "CHR 0x00 \<notin> set s" using assms by (simp add: is_line_def)
  then have "ar_wakeup_get_prot_code (cstr s) =
    Inr (case map_option prot_code (find (\<lambda>p. prefix (bytes_of s) (cstr_val (prot_name p))) prot_info)
         of None \<Rightarrow> - 1 | Some c \<Rightarrow> c)"
    by (simp add: ar_wakeup_get_prot_code_def prot_search_eq [OF _ prot_info_names]
        option.case_eq_if option.map_sel)
  moreover have "(- 1 :: u8) = 255" by simp
  ultimately show ?thesis unfolding find_prot_info [OF assms] by (simp only:)
qed

lemma prot_init_distinct: "distinct (map fst prot_init)"
  unfolding prot_init_def list.map fst_conv by simp

end
