(* ===== verification/AR_Wakeup.thy ===== *)
theory AR_Wakeup
  imports AR_ProtDb
begin

text \<open>
  The wake-up rule database, \<open>armodule/source/arctrl_wakeup.c\<close>: UDP and TCP port rules and
  IP protocols, each in a table of fixed size with a count of the slots in use.  The
  second half proves that, for rules the free-slot test can tell from an empty slot,
  each table implements the abstract insertion of \<open>AR_Slots\<close>, and shows what happens
  for the rules it cannot tell.
\<close>

section \<open>Data\<close>

record auto_res_port_filtering_e =
  src_port :: u16
  dst_port :: u16
  src_port_mask :: u16
  dst_port_mask :: u16

definition zero_port :: auto_res_port_filtering_e where
  "zero_port = \<lparr>src_port = 0, dst_port = 0, src_port_mask = 0, dst_port_mask = 0\<rparr>"

text \<open>
  The table pointers inside \<open>ar_wakeup_db\<close> alias the global tables; the name of the global
  stands for the address.
\<close>

datatype wakeup_tbl = Udp_Entity | Tcp_Entity | Ip_Prot_Tbl

record auto_res_filtering_db =
  ip_prot_table_size :: nat
  udp_ports_table_size :: nat
  tcp_ports_table_size :: nat
  ip_prot_table_ptr :: "wakeup_tbl option"
  udp_ports_table_ptr :: "wakeup_tbl option"
  tcp_ports_table_ptr :: "wakeup_tbl option"
  ip_prot_pass_on_hit :: int
  udp_port_pass_on_hit :: int
  tcp_port_pass_on_hit :: int
  tcp_flags_mask :: u16

record wakeup_state =
  ar_wakeuptblsize :: u32
  udptblsize :: u32
  tcptblsize :: u32
  iptblsize :: u32
  ar_wakeup_udp_entity :: "auto_res_port_filtering_e tblptr"
  ar_wakeup_tcp_entity :: "auto_res_port_filtering_e tblptr"
  ar_wakeup_ip_prot_tbl :: "u8 tblptr"
  ar_wakeup_db :: auto_res_filtering_db

text \<open>The static storage before \<open>ar_wakeup_init_db\<close> runs.\<close>

definition wakeup_boot :: wakeup_state where
  "wakeup_boot =
     \<lparr>ar_wakeuptblsize = 0, udptblsize = 0, tcptblsize = 0, iptblsize = 0,
      ar_wakeup_udp_entity = TNull, ar_wakeup_tcp_entity = TNull, ar_wakeup_ip_prot_tbl = TNull,
      ar_wakeup_db = \<lparr>ip_prot_table_size = 0, udp_ports_table_size = 0, tcp_ports_table_size = 0,
        ip_prot_table_ptr = None, udp_ports_table_ptr = None, tcp_ports_table_ptr = None,
        ip_prot_pass_on_hit = 0, udp_port_pass_on_hit = 0, tcp_port_pass_on_hit = 0,
        tcp_flags_mask = 0\<rparr>\<rparr>"

section \<open>Operations\<close>

definition ar_wakeup_init_db ::
    "auto_res_tables_sizes option \<Rightarrow> alloc_ok \<Rightarrow> wakeup_state \<Rightarrow> (u32 \<times> wakeup_state) res" where
  "ar_wakeup_init_db p_ar_maxsize kz s =
     (case p_ar_maxsize of
        None \<Rightarrow> Inl NullDeref
      | Some m \<Rightarrow>
        let s1 = s\<lparr>ar_wakeuptblsize := max_num_of_ip_prot_filtering m,
                   udptblsize := max_num_of_udp_port_filtering m,
                   tcptblsize := max_num_of_tcp_port_filtering m,
                   iptblsize := max_num_of_ip_prot_filtering m\<rparr>;
            nomem = word_of_int (- ar_code AR_MEMORY_UNAVALABLE_ERROR) in
        if \<not> kz 0 then Inr (nomem, s1\<lparr>ar_wakeup_udp_entity := TNull\<rparr>)
        else let s2 = s1\<lparr>ar_wakeup_udp_entity := TArr (replicate (unat (udptblsize s1)) zero_port)\<rparr> in
        if \<not> kz 1 then Inr (nomem, s2\<lparr>ar_wakeup_tcp_entity := TNull, ar_wakeup_udp_entity := TFreed\<rparr>)
        else let s3 = s2\<lparr>ar_wakeup_tcp_entity := TArr (replicate (unat (tcptblsize s1)) zero_port)\<rparr> in
        if \<not> kz 2 then Inr (nomem, s3\<lparr>ar_wakeup_ip_prot_tbl := TNull,
                                     ar_wakeup_tcp_entity := TFreed, ar_wakeup_udp_entity := TFreed\<rparr>)
        else let s4 = s3\<lparr>ar_wakeup_ip_prot_tbl := TArr (replicate (unat (iptblsize s1)) 0)\<rparr> in
        Inr (word_of_int (ar_code AR_SUCCESS),
             s4\<lparr>ar_wakeup_db := (ar_wakeup_db s4)\<lparr>ip_prot_table_ptr := Some Ip_Prot_Tbl,
                                                  udp_ports_table_ptr := Some Udp_Entity,
                                                  tcp_ports_table_ptr := Some Tcp_Entity\<rparr>\<rparr>))"

text \<open>The free-slot tests.\<close>

definition free_port :: "auto_res_port_filtering_e \<Rightarrow> bool" where
  "free_port e \<longleftrightarrow> src_port e = 0x0 \<and> dst_port e = 0x0"

definition ar_wakeup_get_free_index :: "string \<Rightarrow> wakeup_state \<Rightarrow> int res" where
  "ar_wakeup_get_free_index prot s =
     (if prot = ''UDP'' then
        scan (\<lambda>e. Inr (free_port e)) (ar_wakeup_udp_entity s) 0 (unat (udptblsize s))
      else if prot = ''TCP'' then
        scan (\<lambda>e. Inr (free_port e)) (ar_wakeup_tcp_entity s) 0 (unat (tcptblsize s))
      else if prot = ''IP_PROT'' then
        scan (\<lambda>b. Inr (b = 0x00)) (ar_wakeup_ip_prot_tbl s) 0 (unat (iptblsize s))
      else Inr (- 1))"

text \<open>
  The \<open>void *\<close> argument of the configuration calls: NULL, a port rule, or a protocol name
  in a byte buffer.
\<close>

datatype wakeup_arg = ArgNull | ArgPort auto_res_port_filtering_e | ArgName "u8 list"

definition same_rule :: "auto_res_port_filtering_e \<Rightarrow> auto_res_port_filtering_e \<Rightarrow> bool" where
  "same_rule e pInfo \<longleftrightarrow>
     src_port e = src_port pInfo \<and> dst_port e = dst_port pInfo \<and>
     src_port_mask e = src_port_mask pInfo \<and> dst_port_mask e = dst_port_mask pInfo"

definition ar_wakeup_get_index :: "wakeup_arg \<Rightarrow> string \<Rightarrow> wakeup_state \<Rightarrow> int res" where
  "ar_wakeup_get_index pConfig prot s =
     (if prot = ''UDP'' then
        (case pConfig of
           ArgPort pInfo \<Rightarrow> scan (\<lambda>e. Inr (same_rule e pInfo)) (ar_wakeup_udp_entity s) 0
                              (udp_ports_table_size (ar_wakeup_db s))
         | _ \<Rightarrow> Inl BadCast)
      else if prot = ''TCP'' then
        (case pConfig of
           ArgPort pInfo \<Rightarrow> scan (\<lambda>e. Inr (same_rule e pInfo)) (ar_wakeup_tcp_entity s) 0
                              (tcp_ports_table_size (ar_wakeup_db s))
         | _ \<Rightarrow> Inl BadCast)
      else if prot = ''IP_PROT'' then
        (case pConfig of
           ArgName nm \<Rightarrow>
             rbind (ar_wakeup_get_prot_code nm) (\<lambda>prot_code.
             if uint prot_code < 0 then Inr (uint prot_code)
             else scan (\<lambda>b. Inr (b = prot_code)) (ar_wakeup_ip_prot_tbl s) 0
                    (ip_prot_table_size (ar_wakeup_db s)))
         | _ \<Rightarrow> Inl BadCast)
      else Inr (- 1))"

text \<open>The four field assignments that store a rule in a slot.\<close>

definition put_rule ::
    "auto_res_port_filtering_e tblptr \<Rightarrow> nat \<Rightarrow> auto_res_port_filtering_e
       \<Rightarrow> auto_res_port_filtering_e tblptr res" where
  "put_rule t i pInfo =
     rbind (tbl_get t i) (\<lambda>e.
     tbl_set t i (e\<lparr>src_port := src_port pInfo, dst_port := dst_port pInfo,
                    src_port_mask := src_port_mask pInfo, dst_port_mask := dst_port_mask pInfo\<rparr>))"

definition recv_udp_rule :: "wakeup_arg \<Rightarrow> wakeup_state \<Rightarrow> (int \<times> wakeup_state) res" where
  "recv_udp_rule pConfig s =
     (case pConfig of
        ArgPort pInfo \<Rightarrow>
          rbind (ar_wakeup_get_index (ArgPort pInfo) ''UDP'' s) (\<lambda>retVal.
          if retVal \<noteq> - 1 then
            rbind (put_rule (ar_wakeup_udp_entity s) (nat retVal) pInfo) (\<lambda>t.
            Inr (ar_code AR_SUCCESS, s\<lparr>ar_wakeup_udp_entity := t\<rparr>))
          else
            rbind (ar_wakeup_get_free_index ''UDP'' s) (\<lambda>retVal.
            if retVal \<noteq> - 1 then
              rbind (put_rule (ar_wakeup_udp_entity s) (nat retVal) pInfo) (\<lambda>t.
              Inr (ar_code AR_SUCCESS,
                   s\<lparr>ar_wakeup_udp_entity := t,
                     ar_wakeup_db := (ar_wakeup_db s)
                       \<lparr>udp_ports_table_size := udp_ports_table_size (ar_wakeup_db s) + 1\<rparr>\<rparr>))
            else Inr (- 1, s)))
      | _ \<Rightarrow> Inl BadCast)"

definition recv_tcp_rule :: "wakeup_arg \<Rightarrow> wakeup_state \<Rightarrow> (int \<times> wakeup_state) res" where
  "recv_tcp_rule pConfig s =
     (case pConfig of
        ArgPort pInfo \<Rightarrow>
          rbind (ar_wakeup_get_index (ArgPort pInfo) ''TCP'' s) (\<lambda>retVal.
          if retVal \<noteq> - 1 then
            rbind (put_rule (ar_wakeup_tcp_entity s) (nat retVal) pInfo) (\<lambda>t.
            Inr (ar_code AR_SUCCESS, s\<lparr>ar_wakeup_tcp_entity := t\<rparr>))
          else
            rbind (ar_wakeup_get_free_index ''TCP'' s) (\<lambda>retVal.
            if retVal \<noteq> - 1 then
              rbind (put_rule (ar_wakeup_tcp_entity s) (nat retVal) pInfo) (\<lambda>t.
              Inr (ar_code AR_SUCCESS,
                   s\<lparr>ar_wakeup_tcp_entity := t,
                     ar_wakeup_db := (ar_wakeup_db s)
                       \<lparr>tcp_ports_table_size := tcp_ports_table_size (ar_wakeup_db s) + 1\<rparr>\<rparr>))
            else Inr (- 1, s)))
      | _ \<Rightarrow> Inl BadCast)"

definition recv_ip_prot :: "wakeup_arg \<Rightarrow> wakeup_state \<Rightarrow> (int \<times> wakeup_state) res" where
  "recv_ip_prot pConfig s =
     (case pConfig of
        ArgName p_ip_prot \<Rightarrow>
          rbind (ar_wakeup_get_prot_code p_ip_prot) (\<lambda>prot_code.
          if uint prot_code < 0 then Inr (uint prot_code, s)
          else
            rbind (ar_wakeup_get_index (ArgName p_ip_prot) ''IP_PROT'' s) (\<lambda>retVal.
            if retVal \<noteq> - 1 then
              rbind (tbl_set (ar_wakeup_ip_prot_tbl s) (nat retVal) prot_code) (\<lambda>t.
              Inr (ar_code AR_SUCCESS, s\<lparr>ar_wakeup_ip_prot_tbl := t\<rparr>))
            else
              rbind (ar_wakeup_get_free_index ''IP_PROT'' s) (\<lambda>retVal.
              if retVal \<noteq> - 1 then
                rbind (tbl_set (ar_wakeup_ip_prot_tbl s) (nat retVal) prot_code) (\<lambda>t.
                Inr (ar_code AR_SUCCESS,
                     s\<lparr>ar_wakeup_ip_prot_tbl := t,
                       ar_wakeup_db := (ar_wakeup_db s)
                         \<lparr>ip_prot_table_size := ip_prot_table_size (ar_wakeup_db s) + 1\<rparr>\<rparr>))
              else Inr (ar_code AR_SUCCESS, s))))
      | _ \<Rightarrow> Inl BadCast)"

definition ar_wakeup_recv_config ::
    "u32 \<Rightarrow> wakeup_arg \<Rightarrow> wakeup_state \<Rightarrow> (int \<times> wakeup_state) res" where
  "ar_wakeup_recv_config cmd pConfig s =
     (if pConfig = ArgNull then Inr (- ar_code AR_GET_INFO_ERROR, s)
      else if cmd = wakeup_cmd CONFIG_WAKEUP_IP_PROTO then recv_ip_prot pConfig s
      else if cmd = wakeup_cmd CONFIG_WAKEUP_UDP_RULE then recv_udp_rule pConfig s
      else if cmd = wakeup_cmd CONFIG_WAKEUP_TCP_RULE then recv_tcp_rule pConfig s
      else Inr (ar_code AR_SUCCESS, s))"

section \<open>Lemmas on the operations\<close>

lemma same_rule_iff [simp]: "same_rule e r \<longleftrightarrow> e = r"
  by (cases e; cases r) (simp add: same_rule_def)

lemma put_rule_in [simp]: "i < length xs \<Longrightarrow> put_rule (TArr xs) i r = Inr (TArr (xs[i := r]))"
  by (cases "xs ! i"; cases r) (simp add: put_rule_def)

text \<open>
  The invariant of one table: the pointer is live, the array has the announced size, and
  the slots counted as used are distinct, not free, and the only ones that are not free.
\<close>

definition table_wf :: "('a \<Rightarrow> bool) \<Rightarrow> 'a tblptr \<Rightarrow> u32 \<Rightarrow> nat \<Rightarrow> bool" where
  "table_wf free t sz n \<longleftrightarrow>
     (case t of TArr xs \<Rightarrow> length xs = unat sz \<and> slots free xs n | _ \<Rightarrow> False)"

lemma table_wf_TArr [simp]:
  "table_wf free (TArr xs) sz n \<longleftrightarrow> length xs = unat sz \<and> slots free xs n"
  by (simp add: table_wf_def)

lemma table_wfE:
  assumes "table_wf free t sz n"
  obtains xs where "t = TArr xs" and "length xs = unat sz" and "slots free xs n"
  using assms by (auto simp: table_wf_def split: tblptr.splits)

text \<open>The two searches on a table that satisfies the invariant.\<close>

lemma scan_used:
  assumes "slots free xs n"
  shows "scan (\<lambda>e. Inr (e = x)) (TArr xs) 0 n =
    Inr (if x \<in> set (take n xs) then int (first_pos (\<lambda>e. e = x) (take n xs)) else - 1)"
  using scan_eq [OF slots_le [OF assms], of "\<lambda>e. Inr (e = x)" "\<lambda>e. e = x"] by simp

lemma scan_free:
  assumes "slots free xs n"
  shows "scan (\<lambda>e. Inr (free e)) (TArr xs) 0 (length xs) =
    Inr (if n < length xs then int n else - 1)"
proof -
  have "scan (\<lambda>e. Inr (free e)) (TArr xs) 0 (length xs) =
    Inr (if \<exists>e \<in> set xs. free e then int (first_pos free xs) else - 1)"
    using scan_eq [of "length xs" xs "\<lambda>e. Inr (free e)" free] by simp
  then show ?thesis using slots_first_free [OF assms] by auto
qed

section \<open>Each table is a rule table\<close>

definition udp_wf :: "wakeup_state \<Rightarrow> bool" where
  "udp_wf s = table_wf free_port (ar_wakeup_udp_entity s) (udptblsize s)
                (udp_ports_table_size (ar_wakeup_db s))"

definition udp_rules :: "wakeup_state \<Rightarrow> auto_res_port_filtering_e list" where
  "udp_rules s = take (udp_ports_table_size (ar_wakeup_db s)) (arr (ar_wakeup_udp_entity s))"

definition tcp_wf :: "wakeup_state \<Rightarrow> bool" where
  "tcp_wf s = table_wf free_port (ar_wakeup_tcp_entity s) (tcptblsize s)
                (tcp_ports_table_size (ar_wakeup_db s))"

definition tcp_rules :: "wakeup_state \<Rightarrow> auto_res_port_filtering_e list" where
  "tcp_rules s = take (tcp_ports_table_size (ar_wakeup_db s)) (arr (ar_wakeup_tcp_entity s))"

definition ip_wf :: "wakeup_state \<Rightarrow> bool" where
  "ip_wf s = table_wf (\<lambda>b. b = 0) (ar_wakeup_ip_prot_tbl s) (iptblsize s)
               (ip_prot_table_size (ar_wakeup_db s))"

definition ip_protos :: "wakeup_state \<Rightarrow> u8 list" where
  "ip_protos s = take (ip_prot_table_size (ar_wakeup_db s)) (arr (ar_wakeup_ip_prot_tbl s))"

definition wakeup_wf :: "wakeup_state \<Rightarrow> bool" where
  "wakeup_wf s \<longleftrightarrow> udp_wf s \<and> tcp_wf s \<and> ip_wf s"

text \<open>What the protocol table stores for a name.\<close>

definition prot_key :: "u8 list \<Rightarrow> u8" where
  "prot_key nm = (case ar_wakeup_get_prot_code nm of Inr c \<Rightarrow> c | Inl _ \<Rightarrow> 0)"

definition prot_valid :: "u8 list \<Rightarrow> bool" where
  "prot_valid nm \<longleftrightarrow> has_nul nm \<and> prot_key nm \<noteq> 0"

definition add_udp :: "auto_res_port_filtering_e \<Rightarrow> wakeup_state \<Rightarrow> (int \<times> wakeup_state) res" where
  "add_udp r s = ar_wakeup_recv_config (wakeup_cmd CONFIG_WAKEUP_UDP_RULE) (ArgPort r) s"

definition add_tcp :: "auto_res_port_filtering_e \<Rightarrow> wakeup_state \<Rightarrow> (int \<times> wakeup_state) res" where
  "add_tcp r s = ar_wakeup_recv_config (wakeup_cmd CONFIG_WAKEUP_TCP_RULE) (ArgPort r) s"

definition add_prot :: "u8 list \<Rightarrow> wakeup_state \<Rightarrow> (int \<times> wakeup_state) res" where
  "add_prot nm s = ar_wakeup_recv_config (wakeup_cmd CONFIG_WAKEUP_IP_PROTO) (ArgName nm) s"

lemma add_udp_eq: "add_udp r s = recv_udp_rule (ArgPort r) s"
  by (simp add: add_udp_def ar_wakeup_recv_config_def)

lemma add_tcp_eq: "add_tcp r s = recv_tcp_rule (ArgPort r) s"
  by (simp add: add_tcp_def ar_wakeup_recv_config_def)

lemma add_prot_eq: "add_prot nm s = recv_ip_prot (ArgName nm) s"
  by (simp add: add_prot_def ar_wakeup_recv_config_def)

lemma prot_key_eq: "has_nul nm \<Longrightarrow> ar_wakeup_get_prot_code nm = Inr (prot_key nm)"
  using get_prot_code_total by (fastforce simp: prot_key_def)

lemmas port_ops = ar_wakeup_get_index_def ar_wakeup_get_free_index_def

lemma udp_store:
  assumes "table_wf free_port (ar_wakeup_udp_entity s) (udptblsize s) n"
    and "n = udp_ports_table_size (ar_wakeup_db s)"
    and "ar_wakeup_udp_entity s = TArr xs"
  shows "recv_udp_rule (ArgPort r) s =
    (if r \<in> set (take n xs) then Inr (0, s)
     else if n < length xs then
       Inr (0, s\<lparr>ar_wakeup_udp_entity := TArr (xs[n := r]),
                 ar_wakeup_db := (ar_wakeup_db s)\<lparr>udp_ports_table_size := n + 1\<rparr>\<rparr>)
     else Inr (- 1, s))"
proof -
  from assms(1,3) have len: "length xs = unat (udptblsize s)" and sl: "slots free_port xs n"
    by (auto elim: table_wfE)
  show ?thesis
    using first_pos_take_update [of r n xs] assms(2,3) len
      scan_used [OF sl, of r] scan_free [OF sl]
    by (auto simp: recv_udp_rule_def port_ops)
qed

lemma tcp_store:
  assumes "table_wf free_port (ar_wakeup_tcp_entity s) (tcptblsize s) n"
    and "n = tcp_ports_table_size (ar_wakeup_db s)"
    and "ar_wakeup_tcp_entity s = TArr xs"
  shows "recv_tcp_rule (ArgPort r) s =
    (if r \<in> set (take n xs) then Inr (0, s)
     else if n < length xs then
       Inr (0, s\<lparr>ar_wakeup_tcp_entity := TArr (xs[n := r]),
                 ar_wakeup_db := (ar_wakeup_db s)\<lparr>tcp_ports_table_size := n + 1\<rparr>\<rparr>)
     else Inr (- 1, s))"
proof -
  from assms(1,3) have len: "length xs = unat (tcptblsize s)" and sl: "slots free_port xs n"
    by (auto elim: table_wfE)
  show ?thesis
    using first_pos_take_update [of r n xs] assms(2,3) len
      scan_used [OF sl, of r] scan_free [OF sl]
    by (auto simp: recv_tcp_rule_def port_ops)
qed

lemma prot_store:
  assumes "table_wf (\<lambda>b. b = 0) (ar_wakeup_ip_prot_tbl s) (iptblsize s) n"
    and "n = ip_prot_table_size (ar_wakeup_db s)"
    and "ar_wakeup_ip_prot_tbl s = TArr xs" and nm: "has_nul nm"
  shows "recv_ip_prot (ArgName nm) s =
    (if prot_key nm \<in> set (take n xs) then Inr (0, s)
     else if n < length xs then
       Inr (0, s\<lparr>ar_wakeup_ip_prot_tbl := TArr (xs[n := prot_key nm]),
                 ar_wakeup_db := (ar_wakeup_db s)\<lparr>ip_prot_table_size := n + 1\<rparr>\<rparr>)
     else Inr (0, s))"
proof -
  from assms(1,3) have len: "length xs = unat (iptblsize s)" and sl: "slots (\<lambda>b. b = 0) xs n"
    by (auto elim: table_wfE)
  show ?thesis
    using first_pos_take_update [of "prot_key nm" n xs] assms(2,3) len prot_key_eq [OF nm]
      scan_used [OF sl, of "prot_key nm"] scan_free [OF sl]
    by (auto simp: recv_ip_prot_def port_ops)
qed

text \<open>What one command changes, table by table.\<close>

lemma udp_step:
  assumes "udp_wf s" and "\<not> free_port r"
  shows "(r \<in> set (udp_rules s) \<longrightarrow> add_udp r s = Inr (0, s)) \<and>
    (r \<notin> set (udp_rules s) \<longrightarrow> unat (udptblsize s) \<le> length (udp_rules s) \<longrightarrow>
       add_udp r s = Inr (- 1, s)) \<and>
    (r \<notin> set (udp_rules s) \<longrightarrow> length (udp_rules s) < unat (udptblsize s) \<longrightarrow>
       (\<exists>s'. add_udp r s = Inr (0, s') \<and> udp_wf s' \<and> udp_rules s' = udp_rules s @ [r] \<and>
          udptblsize s' = udptblsize s \<and> tcptblsize s' = tcptblsize s \<and>
          iptblsize s' = iptblsize s \<and>
          tcp_wf s' = tcp_wf s \<and> tcp_rules s' = tcp_rules s \<and>
          ip_wf s' = ip_wf s \<and> ip_protos s' = ip_protos s))"
proof -
  from assms(1) obtain xs where xs: "ar_wakeup_udp_entity s = TArr xs"
    and len: "length xs = unat (udptblsize s)"
    and sl: "slots free_port xs (udp_ports_table_size (ar_wakeup_db s))"
    by (auto simp: udp_wf_def elim: table_wfE)
  let ?n = "udp_ports_table_size (ar_wakeup_db s)"
  have rules: "udp_rules s = take ?n xs" and lr: "length (udp_rules s) = ?n"
    using xs slots_le [OF sl] by (simp_all add: udp_rules_def)
  have st: "add_udp r s = (if r \<in> set (take ?n xs) then Inr (0, s)
     else if ?n < length xs then
       Inr (0, s\<lparr>ar_wakeup_udp_entity := TArr (xs[?n := r]),
                 ar_wakeup_db := (ar_wakeup_db s)\<lparr>udp_ports_table_size := ?n + 1\<rparr>\<rparr>)
     else Inr (- 1, s))"
    using udp_store [OF _ refl xs] assms(1) by (simp add: add_udp_eq udp_wf_def)
  show ?thesis
    using st len lr rules slots_insert [OF sl] assms(2)
    by (auto simp: udp_wf_def tcp_wf_def ip_wf_def udp_rules_def tcp_rules_def ip_protos_def
        take_Suc_update)
qed

lemma tcp_step:
  assumes "tcp_wf s" and "\<not> free_port r"
  shows "(r \<in> set (tcp_rules s) \<longrightarrow> add_tcp r s = Inr (0, s)) \<and>
    (r \<notin> set (tcp_rules s) \<longrightarrow> unat (tcptblsize s) \<le> length (tcp_rules s) \<longrightarrow>
       add_tcp r s = Inr (- 1, s)) \<and>
    (r \<notin> set (tcp_rules s) \<longrightarrow> length (tcp_rules s) < unat (tcptblsize s) \<longrightarrow>
       (\<exists>s'. add_tcp r s = Inr (0, s') \<and> tcp_wf s' \<and> tcp_rules s' = tcp_rules s @ [r] \<and>
          udptblsize s' = udptblsize s \<and> tcptblsize s' = tcptblsize s \<and>
          iptblsize s' = iptblsize s \<and>
          udp_wf s' = udp_wf s \<and> udp_rules s' = udp_rules s \<and>
          ip_wf s' = ip_wf s \<and> ip_protos s' = ip_protos s))"
proof -
  from assms(1) obtain xs where xs: "ar_wakeup_tcp_entity s = TArr xs"
    and len: "length xs = unat (tcptblsize s)"
    and sl: "slots free_port xs (tcp_ports_table_size (ar_wakeup_db s))"
    by (auto simp: tcp_wf_def elim: table_wfE)
  let ?n = "tcp_ports_table_size (ar_wakeup_db s)"
  have rules: "tcp_rules s = take ?n xs" and lr: "length (tcp_rules s) = ?n"
    using xs slots_le [OF sl] by (simp_all add: tcp_rules_def)
  have st: "add_tcp r s = (if r \<in> set (take ?n xs) then Inr (0, s)
     else if ?n < length xs then
       Inr (0, s\<lparr>ar_wakeup_tcp_entity := TArr (xs[?n := r]),
                 ar_wakeup_db := (ar_wakeup_db s)\<lparr>tcp_ports_table_size := ?n + 1\<rparr>\<rparr>)
     else Inr (- 1, s))"
    using tcp_store [OF _ refl xs] assms(1) by (simp add: add_tcp_eq tcp_wf_def)
  show ?thesis
    using st len lr rules slots_insert [OF sl] assms(2)
    by (auto simp: udp_wf_def tcp_wf_def ip_wf_def udp_rules_def tcp_rules_def ip_protos_def
        take_Suc_update)
qed

lemma prot_step:
  assumes "ip_wf s" and "prot_valid nm"
  shows "(prot_key nm \<in> set (ip_protos s) \<longrightarrow> add_prot nm s = Inr (0, s)) \<and>
    (prot_key nm \<notin> set (ip_protos s) \<longrightarrow> unat (iptblsize s) \<le> length (ip_protos s) \<longrightarrow>
       add_prot nm s = Inr (0, s)) \<and>
    (prot_key nm \<notin> set (ip_protos s) \<longrightarrow> length (ip_protos s) < unat (iptblsize s) \<longrightarrow>
       (\<exists>s'. add_prot nm s = Inr (0, s') \<and> ip_wf s' \<and> ip_protos s' = ip_protos s @ [prot_key nm] \<and>
          udptblsize s' = udptblsize s \<and> tcptblsize s' = tcptblsize s \<and>
          iptblsize s' = iptblsize s \<and>
          udp_wf s' = udp_wf s \<and> udp_rules s' = udp_rules s \<and>
          tcp_wf s' = tcp_wf s \<and> tcp_rules s' = tcp_rules s))"
proof -
  from assms(2) have nm: "has_nul nm" and nz: "prot_key nm \<noteq> 0"
    by (auto simp: prot_valid_def)
  from assms(1) obtain xs where xs: "ar_wakeup_ip_prot_tbl s = TArr xs"
    and len: "length xs = unat (iptblsize s)"
    and sl: "slots (\<lambda>b. b = 0) xs (ip_prot_table_size (ar_wakeup_db s))"
    by (auto simp: ip_wf_def elim: table_wfE)
  let ?n = "ip_prot_table_size (ar_wakeup_db s)"
  have rules: "ip_protos s = take ?n xs" and lr: "length (ip_protos s) = ?n"
    using xs slots_le [OF sl] by (simp_all add: ip_protos_def)
  have st: "add_prot nm s = (if prot_key nm \<in> set (take ?n xs) then Inr (0, s)
     else if ?n < length xs then
       Inr (0, s\<lparr>ar_wakeup_ip_prot_tbl := TArr (xs[?n := prot_key nm]),
                 ar_wakeup_db := (ar_wakeup_db s)\<lparr>ip_prot_table_size := ?n + 1\<rparr>\<rparr>)
     else Inr (0, s))"
    using prot_store [OF _ refl xs nm] assms(1) by (simp add: add_prot_eq ip_wf_def)
  show ?thesis
    using st len lr rules slots_insert [OF sl] nz
    by (auto simp: udp_wf_def tcp_wf_def ip_wf_def udp_rules_def tcp_rules_def ip_protos_def
        take_Suc_update)
qed

lemma table_shape:
  assumes "table_wf free t sz n"
  shows "distinct (take n (arr t)) \<and> length (take n (arr t)) \<le> unat sz"
  using assms by (auto elim!: table_wfE dest: slots_distinct slots_le)

interpretation udp_table: rule_table add_udp "\<lambda>r. r" udp_rules "\<lambda>s. unat (udptblsize s)" udp_wf
  "\<lambda>r. \<not> free_port r" "- 1"
proof unfold_locales
  fix s e assume wf: "udp_wf s" and e: "\<not> free_port e"
  note st = udp_step [OF this]
  show "e \<in> set (udp_rules s) \<Longrightarrow> add_udp e s = Inr (0, s)" using st by simp
  show "e \<notin> set (udp_rules s) \<Longrightarrow> length (udp_rules s) < unat (udptblsize s) \<Longrightarrow>
    \<exists>s'. add_udp e s = Inr (0, s') \<and> udp_wf s' \<and> udp_rules s' = udp_rules s @ [e] \<and>
      unat (udptblsize s') = unat (udptblsize s)" using st by auto
  show "e \<notin> set (udp_rules s) \<Longrightarrow> unat (udptblsize s) \<le> length (udp_rules s) \<Longrightarrow>
    add_udp e s = Inr (- 1, s)" using st by simp
next
  fix s assume "udp_wf s"
  then show "distinct (udp_rules s) \<and> length (udp_rules s) \<le> unat (udptblsize s)"
    unfolding udp_wf_def udp_rules_def by (rule table_shape)
qed

interpretation tcp_table: rule_table add_tcp "\<lambda>r. r" tcp_rules "\<lambda>s. unat (tcptblsize s)" tcp_wf
  "\<lambda>r. \<not> free_port r" "- 1"
proof unfold_locales
  fix s e assume wf: "tcp_wf s" and e: "\<not> free_port e"
  note st = tcp_step [OF this]
  show "e \<in> set (tcp_rules s) \<Longrightarrow> add_tcp e s = Inr (0, s)" using st by simp
  show "e \<notin> set (tcp_rules s) \<Longrightarrow> length (tcp_rules s) < unat (tcptblsize s) \<Longrightarrow>
    \<exists>s'. add_tcp e s = Inr (0, s') \<and> tcp_wf s' \<and> tcp_rules s' = tcp_rules s @ [e] \<and>
      unat (tcptblsize s') = unat (tcptblsize s)" using st by auto
  show "e \<notin> set (tcp_rules s) \<Longrightarrow> unat (tcptblsize s) \<le> length (tcp_rules s) \<Longrightarrow>
    add_tcp e s = Inr (- 1, s)" using st by simp
next
  fix s assume "tcp_wf s"
  then show "distinct (tcp_rules s) \<and> length (tcp_rules s) \<le> unat (tcptblsize s)"
    unfolding tcp_wf_def tcp_rules_def by (rule table_shape)
qed

interpretation prot_table: rule_table add_prot prot_key ip_protos "\<lambda>s. unat (iptblsize s)" ip_wf
  prot_valid 0
proof unfold_locales
  fix s e assume wf: "ip_wf s" and e: "prot_valid e"
  note st = prot_step [OF this]
  show "prot_key e \<in> set (ip_protos s) \<Longrightarrow> add_prot e s = Inr (0, s)" using st by simp
  show "prot_key e \<notin> set (ip_protos s) \<Longrightarrow> length (ip_protos s) < unat (iptblsize s) \<Longrightarrow>
    \<exists>s'. add_prot e s = Inr (0, s') \<and> ip_wf s' \<and> ip_protos s' = ip_protos s @ [prot_key e] \<and>
      unat (iptblsize s') = unat (iptblsize s)" using st by auto
  show "prot_key e \<notin> set (ip_protos s) \<Longrightarrow> unat (iptblsize s) \<le> length (ip_protos s) \<Longrightarrow>
    add_prot e s = Inr (0, s)" using st by simp
next
  fix s assume "ip_wf s"
  then show "distinct (ip_protos s) \<and> length (ip_protos s) \<le> unat (iptblsize s)"
    unfolding ip_wf_def ip_protos_def by (rule table_shape)
qed

section \<open>Sequences of configuration commands\<close>

definition run_config ::
    "(u32 \<times> wakeup_arg) list \<Rightarrow> wakeup_state \<Rightarrow> (int list \<times> wakeup_state) res" where
  "run_config = run_inserts (\<lambda>ca. ar_wakeup_recv_config (fst ca) (snd ca))"

text \<open>
  The commands the contract covers: the argument has the type of the command, a port
  rule names a port, a protocol name has a nonzero code.
\<close>

definition config_ok :: "u32 \<times> wakeup_arg \<Rightarrow> bool" where
  "config_ok ca =
     (case snd ca of
        ArgNull \<Rightarrow> True
      | ArgPort r \<Rightarrow> \<not> free_port r \<and> fst ca \<noteq> wakeup_cmd CONFIG_WAKEUP_IP_PROTO
      | ArgName nm \<Rightarrow> prot_valid nm \<and> fst ca \<noteq> wakeup_cmd CONFIG_WAKEUP_UDP_RULE \<and>
                      fst ca \<noteq> wakeup_cmd CONFIG_WAKEUP_TCP_RULE)"

text \<open>The part of a sequence each table is concerned with.\<close>

definition ports_of :: "ar_wakeup_tool_e \<Rightarrow> (u32 \<times> wakeup_arg) list \<Rightarrow> auto_res_port_filtering_e list" where
  "ports_of k cs = concat (map (\<lambda>ca. case snd ca of
     ArgPort r \<Rightarrow> if fst ca = wakeup_cmd k then [r] else [] | _ \<Rightarrow> []) cs)"

definition protos_of :: "(u32 \<times> wakeup_arg) list \<Rightarrow> u8 list" where
  "protos_of cs = concat (map (\<lambda>ca. case snd ca of
     ArgName nm \<Rightarrow> if fst ca = wakeup_cmd CONFIG_WAKEUP_IP_PROTO then [prot_key nm] else []
   | _ \<Rightarrow> []) cs)"

definition wakeup_follows ::
    "wakeup_state \<Rightarrow> (u32 \<times> wakeup_arg) list \<Rightarrow> wakeup_state \<Rightarrow> bool" where
  "wakeup_follows s cs s' \<longleftrightarrow>
     wakeup_wf s' \<and>
     udptblsize s' = udptblsize s \<and> tcptblsize s' = tcptblsize s \<and> iptblsize s' = iptblsize s \<and>
     udp_rules s' = upserts (unat (udptblsize s)) (udp_rules s) (ports_of CONFIG_WAKEUP_UDP_RULE cs) \<and>
     tcp_rules s' = upserts (unat (tcptblsize s)) (tcp_rules s) (ports_of CONFIG_WAKEUP_TCP_RULE cs) \<and>
     ip_protos s' = upserts (unat (iptblsize s)) (ip_protos s) (protos_of cs)"

lemma follows_Nil: "wakeup_wf s \<Longrightarrow> wakeup_follows s [] s"
  by (simp add: wakeup_follows_def ports_of_def protos_of_def)

lemma follows_append:
  "wakeup_follows s cs s1 \<Longrightarrow> wakeup_follows s1 ds s2 \<Longrightarrow> wakeup_follows s (cs @ ds) s2"
  by (simp add: wakeup_follows_def ports_of_def protos_of_def upserts_append)

lemma recv_udp_cases:
  assumes "wakeup_wf s" and "\<not> free_port r"
  shows "\<exists>x s'. add_udp r s = Inr (x, s') \<and> wakeup_wf s' \<and>
    udptblsize s' = udptblsize s \<and> tcptblsize s' = tcptblsize s \<and> iptblsize s' = iptblsize s \<and>
    udp_rules s' = upsert (unat (udptblsize s)) (udp_rules s) r \<and>
    tcp_rules s' = tcp_rules s \<and> ip_protos s' = ip_protos s"
  using udp_step [of s r] assms unfolding wakeup_wf_def upsert_def
  by (cases "r \<in> set (udp_rules s)"; cases "length (udp_rules s) < unat (udptblsize s)") auto

lemma recv_tcp_cases:
  assumes "wakeup_wf s" and "\<not> free_port r"
  shows "\<exists>x s'. add_tcp r s = Inr (x, s') \<and> wakeup_wf s' \<and>
    udptblsize s' = udptblsize s \<and> tcptblsize s' = tcptblsize s \<and> iptblsize s' = iptblsize s \<and>
    tcp_rules s' = upsert (unat (tcptblsize s)) (tcp_rules s) r \<and>
    udp_rules s' = udp_rules s \<and> ip_protos s' = ip_protos s"
  using tcp_step [of s r] assms unfolding wakeup_wf_def upsert_def
  by (cases "r \<in> set (tcp_rules s)"; cases "length (tcp_rules s) < unat (tcptblsize s)") auto

lemma recv_prot_cases:
  assumes "wakeup_wf s" and "prot_valid nm"
  shows "\<exists>x s'. add_prot nm s = Inr (x, s') \<and> wakeup_wf s' \<and>
    udptblsize s' = udptblsize s \<and> tcptblsize s' = tcptblsize s \<and> iptblsize s' = iptblsize s \<and>
    ip_protos s' = upsert (unat (iptblsize s)) (ip_protos s) (prot_key nm) \<and>
    udp_rules s' = udp_rules s \<and> tcp_rules s' = tcp_rules s"
  using prot_step [of s nm] assms unfolding wakeup_wf_def upsert_def
  by (cases "prot_key nm \<in> set (ip_protos s)";
      cases "length (ip_protos s) < unat (iptblsize s)") auto

lemma config_step:
  assumes "wakeup_wf s" and "config_ok ca"
  shows "\<exists>x s'. ar_wakeup_recv_config (fst ca) (snd ca) s = Inr (x, s') \<and> wakeup_follows s [ca] s'"
proof (cases "snd ca")
  case ArgNull
  with assms show ?thesis
    by (simp add: ar_wakeup_recv_config_def wakeup_follows_def ports_of_def protos_of_def)
next
  case (ArgPort r)
  with assms have r: "\<not> free_port r" "fst ca \<noteq> wakeup_cmd CONFIG_WAKEUP_IP_PROTO"
    by (auto simp: config_ok_def)
  show ?thesis
    using recv_udp_cases [OF assms(1) r(1)] recv_tcp_cases [OF assms(1) r(1)] r(2) ArgPort assms(1)
    by (cases "fst ca = wakeup_cmd CONFIG_WAKEUP_UDP_RULE")
      (auto simp: add_udp_eq add_tcp_eq ar_wakeup_recv_config_def wakeup_follows_def
        ports_of_def protos_of_def)
next
  case (ArgName nm)
  with assms have nm: "prot_valid nm" "fst ca \<noteq> wakeup_cmd CONFIG_WAKEUP_UDP_RULE"
    "fst ca \<noteq> wakeup_cmd CONFIG_WAKEUP_TCP_RULE"
    by (auto simp: config_ok_def)
  show ?thesis
    using recv_prot_cases [OF assms(1) nm(1)] nm(2,3) ArgName assms(1)
    by (auto simp: add_prot_eq ar_wakeup_recv_config_def wakeup_follows_def
        ports_of_def protos_of_def)
qed

lemma run_config_follows:
  "wakeup_wf s \<Longrightarrow> list_all config_ok cs \<Longrightarrow>
     \<exists>rs s'. run_config cs s = Inr (rs, s') \<and> wakeup_follows s cs s'"
proof (induction cs arbitrary: s)
  case Nil
  then show ?case by (simp add: run_config_def follows_Nil)
next
  case (Cons ca cs)
  then have "config_ok ca" and cs: "list_all config_ok cs" by auto
  from config_step [OF Cons.prems(1) this(1)] obtain x s1 where
    s1: "ar_wakeup_recv_config (fst ca) (snd ca) s = Inr (x, s1)" "wakeup_follows s [ca] s1" by blast
  then have "wakeup_wf s1" by (simp add: wakeup_follows_def)
  from Cons.IH [OF this cs] obtain rs s2 where
    "run_config cs s1 = Inr (rs, s2)" "wakeup_follows s1 cs s2" by blast
  with s1 follows_append [OF s1(2)] show ?case by (auto simp: run_config_def)
qed

section \<open>Properties\<close>

text \<open>A freshly initialised database with two slots per table, for the instances below.\<close>

definition demo_wakeup :: wakeup_state where
  "demo_wakeup = wakeup_boot
     \<lparr>ar_wakeuptblsize := 2, udptblsize := 2, tcptblsize := 2, iptblsize := 2,
      ar_wakeup_udp_entity := TArr [zero_port, zero_port],
      ar_wakeup_tcp_entity := TArr [zero_port, zero_port],
      ar_wakeup_ip_prot_tbl := TArr [0, 0]\<rparr>"

definition demo_rule :: "u16 \<Rightarrow> u16 \<Rightarrow> auto_res_port_filtering_e" where
  "demo_rule a b = \<lparr>src_port = a, dst_port = b, src_port_mask = 0xFFFF, dst_port_mask = 0xFFFF\<rparr>"

lemma free_zero_port [simp]: "free_port zero_port"
  by (simp add: free_port_def zero_port_def)

lemma free_demo_rule [simp]: "free_port (demo_rule a b) \<longleftrightarrow> a = 0 \<and> b = 0"
  by (simp add: free_port_def demo_rule_def)

lemma demo_rule_eq [simp]: "demo_rule a b = demo_rule c d \<longleftrightarrow> a = c \<and> b = d"
  by (simp add: demo_rule_def)

lemmas demo_simps =
  demo_wakeup_def wakeup_boot_def wakeup_wf_def udp_wf_def tcp_wf_def ip_wf_def
  udp_rules_def tcp_rules_def ip_protos_def slots_def

lemma demo_wakeup_wf: "wakeup_wf demo_wakeup"
  by (simp add: demo_simps)

lemma demo_wakeup_empty:
  "udp_rules demo_wakeup = []" "tcp_rules demo_wakeup = []" "ip_protos demo_wakeup = []"
  "arr (ar_wakeup_udp_entity demo_wakeup) = [zero_port, zero_port]"
  "udp_ports_table_size (ar_wakeup_db demo_wakeup) = 0"
  "udptblsize demo_wakeup = 2" "tcptblsize demo_wakeup = 2" "iptblsize demo_wakeup = 2"
  by (simp_all add: demo_simps)

lemma prot_key_line:
  "is_line s \<Longrightarrow> prot_key (cstr s) = (case map_of prot_init s of None \<Rightarrow> 255 | Some c \<Rightarrow> c)"
  by (simp add: prot_key_def get_prot_code_line)

text \<open>Initialisation, for every pattern of failing allocations.\<close>

lemma wakeup_init_result:
  "\<exists>s'. ar_wakeup_init_db (Some m) kz wakeup_boot =
      Inr (if kz 0 \<and> kz 1 \<and> kz 2 then 0 else 0xFFFFFFFB, s') \<and>
    (if kz 0 \<and> kz 1 \<and> kz 2
     then wakeup_wf s' \<and> udp_rules s' = [] \<and> tcp_rules s' = [] \<and> ip_protos s' = [] \<and>
       udptblsize s' = max_num_of_udp_port_filtering m \<and>
       tcptblsize s' = max_num_of_tcp_port_filtering m \<and>
       iptblsize s' = max_num_of_ip_prot_filtering m \<and>
       udp_ports_table_ptr (ar_wakeup_db s') = Some Udp_Entity \<and>
       tcp_ports_table_ptr (ar_wakeup_db s') = Some Tcp_Entity \<and>
       ip_prot_table_ptr (ar_wakeup_db s') = Some Ip_Prot_Tbl
     else \<not> wakeup_wf s' \<and> udp_ports_table_ptr (ar_wakeup_db s') = None)"
  by (simp add: ar_wakeup_init_db_def Let_def wakeup_boot_def wakeup_wf_def udp_wf_def tcp_wf_def
      ip_wf_def udp_rules_def tcp_rules_def ip_protos_def slots_fresh_table table_wf_def)

text \<open>
  Initialisation: the status is 0 exactly when the three tables were allocated;
  then every table has the size the FMAN driver announced, is empty and satisfies the
  invariant.  When an allocation fails the status is the unsigned value of
  \<open>-AR_MEMORY_UNAVALABLE_ERROR\<close>.
\<close>

theorem wakeup_init_outcome:
  "\<exists>s'. ar_wakeup_init_db (Some m) kz wakeup_boot =
      Inr (if kz 0 \<and> kz 1 \<and> kz 2 then 0 else 0xFFFFFFFB, s') \<and>
    (if kz 0 \<and> kz 1 \<and> kz 2
     then wakeup_wf s' \<and> udp_rules s' = [] \<and> tcp_rules s' = [] \<and> ip_protos s' = [] \<and>
       udptblsize s' = max_num_of_udp_port_filtering m \<and>
       tcptblsize s' = max_num_of_tcp_port_filtering m \<and>
       iptblsize s' = max_num_of_ip_prot_filtering m \<and>
       udp_ports_table_ptr (ar_wakeup_db s') = Some Udp_Entity \<and>
       tcp_ports_table_ptr (ar_wakeup_db s') = Some Tcp_Entity \<and>
       ip_prot_table_ptr (ar_wakeup_db s') = Some Ip_Prot_Tbl
     else \<not> wakeup_wf s' \<and> udp_ports_table_ptr (ar_wakeup_db s') = None)"
  by (rule wakeup_init_result)

text \<open>
  Claim C3.  Refinement: any sequence of UDP, TCP and protocol commands, interleaved in any
  way, runs without undefined behaviour and leaves in each table exactly what the abstract
  insertion of the commands for that table leaves: new rules appended in order, repeated
  rules stored once, rules beyond the capacity dropped.
\<close>

theorem config_run_refines:
  assumes "wakeup_wf s" and "list_all config_ok cs"
  shows "\<exists>rs s'. run_config cs s = Inr (rs, s') \<and> wakeup_wf s' \<and>
    udp_rules s' = upserts (unat (udptblsize s)) (udp_rules s) (ports_of CONFIG_WAKEUP_UDP_RULE cs) \<and>
    tcp_rules s' = upserts (unat (tcptblsize s)) (tcp_rules s) (ports_of CONFIG_WAKEUP_TCP_RULE cs) \<and>
    ip_protos s' = upserts (unat (iptblsize s)) (ip_protos s) (protos_of cs)"
  using run_config_follows [OF assms] by (auto simp: wakeup_follows_def)

definition demo_cmds :: "(u32 \<times> wakeup_arg) list" where
  "demo_cmds =
     [(1, ArgPort (demo_rule 10 20)), (2, ArgPort (demo_rule 30 0)), (1, ArgPort (demo_rule 10 20)),
      (4, ArgName (cstr ''TCP\<newline>'')), (9, ArgNull)]"

lemma demo_line: "is_line ''TCP\<newline>''"
  by (simp add: is_line_def)

lemma demo_key: "prot_key (cstr ''TCP\<newline>'') = 6"
  by (simp add: prot_key_line demo_line prot_init_def)

lemma demo_cmds_ok: "list_all config_ok demo_cmds"
  by (simp add: demo_cmds_def config_ok_def prot_valid_def demo_key)

theorem config_run_refines_witness:
  "\<exists>rs s'. run_config demo_cmds demo_wakeup = Inr (rs, s') \<and> wakeup_wf s' \<and>
    udp_rules s' = [demo_rule 10 20] \<and> tcp_rules s' = [demo_rule 30 0] \<and> ip_protos s' = [6]"
  using config_run_refines [OF demo_wakeup_wf demo_cmds_ok]
  by (simp add: demo_wakeup_empty ports_of_def protos_of_def demo_cmds_def upsert_def demo_key)

text \<open>
  A batch of UDP rules that fits is stored completely: every command returns 0
  and the table holds the old rules and the new ones, each once.
\<close>

theorem udp_batch_complete:
  assumes "udp_wf s" and "list_all (\<lambda>r. \<not> free_port r) rs"
    and "card (set (udp_rules s) \<union> set rs) \<le> unat (udptblsize s)"
  shows "\<exists>s'. run_inserts add_udp rs s = Inr (replicate (length rs) 0, s') \<and> udp_wf s' \<and>
           set (udp_rules s') = set (udp_rules s) \<union> set rs \<and> distinct (udp_rules s')"
  using udp_table.run_complete [OF assms(1,2)] assms(3) by simp

theorem udp_batch_complete_witness:
  "\<exists>s'. run_inserts add_udp [demo_rule 1 2, demo_rule 3 4, demo_rule 1 2] demo_wakeup
       = Inr ([0, 0, 0], s') \<and> udp_wf s' \<and>
     set (udp_rules s') = {demo_rule 1 2, demo_rule 3 4} \<and> distinct (udp_rules s')"
  using udp_batch_complete [of demo_wakeup "[demo_rule 1 2, demo_rule 3 4, demo_rule 1 2]"]
    demo_wakeup_wf
  by (simp add: demo_wakeup_empty wakeup_wf_def insert_commute del: run_inserts.simps)

text \<open>
  Protocol names: a batch of lines that name protocols of the table with a nonzero
  code, and whose codes fit, is stored completely; every command returns 0.
\<close>

theorem protocol_batch_complete:
  assumes "ip_wf s" and "list_all (\<lambda>l. \<exists>c. map_of prot_init l = Some c \<and> c \<noteq> 0) ls"
    and "card (set (ip_protos s) \<union> set (map (the \<circ> map_of prot_init) ls)) \<le> unat (iptblsize s)"
  shows "\<exists>s'. run_inserts add_prot (map cstr ls) s = Inr (replicate (length ls) 0, s') \<and> ip_wf s' \<and>
           set (ip_protos s') = set (ip_protos s) \<union> set (map (the \<circ> map_of prot_init) ls) \<and>
           distinct (ip_protos s')"
proof -
  have line: "is_line l" if "map_of prot_init l = Some c" for l c
    using map_of_SomeD [OF that] prot_init_lines by (auto simp: list_all_iff)
  have key: "prot_key (cstr l) = the (map_of prot_init l)" if "l \<in> set ls" for l
    using assms(2) that line prot_key_line by (fastforce simp: list_all_iff)
  have "list_all prot_valid (map cstr ls)"
    using assms(2) key by (fastforce simp: list_all_iff prot_valid_def)
  moreover have keys: "set (map prot_key (map cstr ls)) = set (map (the \<circ> map_of prot_init) ls)"
    using key by force
  ultimately show ?thesis
    using prot_table.run_complete [OF assms(1), of "map cstr ls"] assms(3) by (simp only: keys length_map)
qed

theorem protocol_batch_complete_witness:
  "\<exists>s'. run_inserts add_prot (map cstr [''ICMP\<newline>'', ''TCP\<newline>'']) demo_wakeup = Inr ([0, 0], s') \<and>
     ip_wf s' \<and> set (ip_protos s') = {1, 6} \<and> distinct (ip_protos s')"
  using protocol_batch_complete [of demo_wakeup "[''ICMP\<newline>'', ''TCP\<newline>'']"] demo_wakeup_wf
  by (simp add: demo_wakeup_empty wakeup_wf_def prot_init_def del: run_inserts.simps list.map)

text \<open>
  Claim C27.  A rule that is new to a full table changes nothing.  A port rule is refused with
  status -1; a protocol is dropped with status 0, which the caller cannot tell from success.
\<close>

theorem full_table_status:
  assumes "wakeup_wf s" and "\<not> free_port r" and "prot_valid nm"
  shows "(r \<notin> set (udp_rules s) \<and> length (udp_rules s) = unat (udptblsize s) \<longrightarrow>
            ar_wakeup_recv_config (wakeup_cmd CONFIG_WAKEUP_UDP_RULE) (ArgPort r) s = Inr (- 1, s)) \<and>
         (r \<notin> set (tcp_rules s) \<and> length (tcp_rules s) = unat (tcptblsize s) \<longrightarrow>
            ar_wakeup_recv_config (wakeup_cmd CONFIG_WAKEUP_TCP_RULE) (ArgPort r) s = Inr (- 1, s)) \<and>
         (prot_key nm \<notin> set (ip_protos s) \<and> length (ip_protos s) = unat (iptblsize s) \<longrightarrow>
            ar_wakeup_recv_config (wakeup_cmd CONFIG_WAKEUP_IP_PROTO) (ArgName nm) s = Inr (0, s))"
  using assms udp_table.full [of s r] tcp_table.full [of s r] prot_table.full [of s nm]
  by (simp add: wakeup_wf_def add_udp_def add_tcp_def add_prot_def)

definition demo_full :: wakeup_state where
  "demo_full = demo_wakeup
     \<lparr>ar_wakeup_udp_entity := TArr [demo_rule 1 2, demo_rule 3 4],
      ar_wakeup_ip_prot_tbl := TArr [1, 17],
      ar_wakeup_db := (ar_wakeup_db demo_wakeup)
        \<lparr>udp_ports_table_size := 2, ip_prot_table_size := 2\<rparr>\<rparr>"

lemma demo_full_facts:
  "wakeup_wf demo_full" "udp_rules demo_full = [demo_rule 1 2, demo_rule 3 4]"
  "ip_protos demo_full = [1, 17]" "udptblsize demo_full = 2" "iptblsize demo_full = 2"
  by (simp_all add: demo_full_def demo_simps)

theorem full_table_status_witness:
  "ar_wakeup_recv_config 1 (ArgPort (demo_rule 5 6)) demo_full = Inr (- 1, demo_full) \<and>
   ar_wakeup_recv_config 4 (ArgName (cstr ''TCP\<newline>'')) demo_full = Inr (0, demo_full)"
  using full_table_status [OF demo_full_facts(1), of "demo_rule 5 6" "cstr ''TCP\<newline>''"]
  by (simp add: demo_full_facts prot_valid_def demo_key)

text \<open>
  The code for a line (a name with its newline) is the one of the first table entry
  with exactly that name, and 255 when no entry has it.
\<close>

theorem prot_code_of_line:
  assumes "is_line l"
  shows "ar_wakeup_get_prot_code (cstr l) =
           Inr (case map_of prot_init l of None \<Rightarrow> 255 | Some c \<Rightarrow> c)"
  using get_prot_code_line [OF assms] .

theorem prot_code_of_line_witness:
  "ar_wakeup_get_prot_code (cstr ''L2TP\<newline>'') = Inr 0x73 \<and>
   ar_wakeup_get_prot_code (cstr ''XYZ\<newline>'') = Inr 255"
  using prot_code_of_line [of "''L2TP\<newline>''"] prot_code_of_line [of "''XYZ\<newline>''"]
  by (simp add: is_line_def prot_init_def)

text \<open>
  Round trip through the protocol table: the name of every entry is found and gives
  that entry's own code, so no entry is shadowed by an earlier one.
\<close>

theorem prot_table_roundtrip:
  assumes "e \<in> set prot_init"
  shows "ar_wakeup_get_prot_code (cstr (fst e)) = Inr (snd e)"
proof -
  have "map_of prot_init (fst e) = Some (snd e)"
    using assms prot_init_distinct by (simp add: map_of_eq_Some_iff)
  moreover have "is_line (fst e)" using assms prot_init_lines by (simp add: list_all_iff)
  ultimately show ?thesis by (simp add: get_prot_code_line)
qed

theorem prot_table_roundtrip_witness:
  "ar_wakeup_get_prot_code (cstr ''ROHC\<newline>'') = Inr 0x8E"
  using prot_table_roundtrip [of "(''ROHC\<newline>'', 0x8E)"] by (simp add: prot_init_def)

text \<open>
  An unknown protocol name is not refused: the check for a negative code never
  fires on an unsigned byte, and code 255 enters the table with status 0.
\<close>

theorem unknown_protocol_stored:
  assumes "ip_wf s" and "is_line l" and "map_of prot_init l = None"
    and "255 \<notin> set (ip_protos s)" and "length (ip_protos s) < unat (iptblsize s)"
  shows "\<exists>s'. ar_wakeup_recv_config (wakeup_cmd CONFIG_WAKEUP_IP_PROTO) (ArgName (cstr l)) s
             = Inr (0, s') \<and> ip_protos s' = ip_protos s @ [255]"
proof -
  have "prot_key (cstr l) = 255" using assms(2,3) by (simp add: prot_key_line)
  moreover from this have "prot_valid (cstr l)" by (simp add: prot_valid_def)
  ultimately show ?thesis
    using prot_table.fresh [OF assms(1), of "cstr l"] assms(4,5) by (auto simp: add_prot_def)
qed

theorem unknown_protocol_stored_witness:
  "\<exists>s'. ar_wakeup_recv_config 4 (ArgName (cstr ''XYZ\<newline>'')) demo_wakeup = Inr (0, s') \<and>
     ip_protos s' = [255]"
  using unknown_protocol_stored [of demo_wakeup "''XYZ\<newline>''"] demo_wakeup_wf
  by (simp add: wakeup_wf_def demo_wakeup_empty is_line_def prot_init_def)

text \<open>
  Claim C37.  A port rule with both ports zero is accepted but looks like an empty slot: the next
  new rule overwrites it, while the count of used slots grows by two.
\<close>

theorem any_port_rule_overwritten:
  assumes "udp_wf s" and "free_port r" and "\<not> free_port r'" and "r' \<notin> set (udp_rules s)"
    and "length (udp_rules s) < unat (udptblsize s)"
  shows "\<exists>s'. run_inserts add_udp [r, r'] s = Inr ([0, 0], s') \<and>
    arr (ar_wakeup_udp_entity s') = (arr (ar_wakeup_udp_entity s))[length (udp_rules s) := r'] \<and>
    udp_ports_table_size (ar_wakeup_db s') = udp_ports_table_size (ar_wakeup_db s) + 2"
proof -
  from assms(1) obtain xs where xs: "ar_wakeup_udp_entity s = TArr xs"
    and len: "length xs = unat (udptblsize s)"
    and sl: "slots free_port xs (udp_ports_table_size (ar_wakeup_db s))"
    by (auto simp: udp_wf_def elim: table_wfE)
  let ?n = "udp_ports_table_size (ar_wakeup_db s)"
  have rules: "udp_rules s = take ?n xs" and lr: "length (udp_rules s) = ?n" and n: "?n < length xs"
    using xs slots_le [OF sl] assms(5) len by (simp_all add: udp_rules_def)
  have r: "r \<notin> set (take ?n xs)" using slots_used [OF sl] assms(2) by blast
  let ?ys = "xs[?n := r]"
  let ?s1 = "s\<lparr>ar_wakeup_udp_entity := TArr ?ys,
              ar_wakeup_db := (ar_wakeup_db s)\<lparr>udp_ports_table_size := ?n + 1\<rparr>\<rparr>"
  have st1: "add_udp r s = Inr (0, ?s1)"
    using udp_store [OF _ refl xs, of r] assms(1) r n by (simp add: add_udp_eq udp_wf_def)
  have tk: "take (Suc ?n) ?ys = take ?n xs @ [r]" using n by (rule take_Suc_update)
  have "scan (\<lambda>e. Inr (e = r')) (TArr ?ys) 0 (Suc ?n) = Inr (- 1)"
    using scan_eq [of "Suc ?n" ?ys "\<lambda>e. Inr (e = r')" "\<lambda>e. e = r'"] assms(2-4) rules n
    by (auto simp: tk)
  moreover have "slots free_port ?ys ?n"
    using sl n assms(2) set_drop_subset_set_drop [of ?n "Suc ?n" xs]
    by (auto simp: slots_def list_all_iff Cons_nth_drop_Suc [symmetric] drop_update_cancel drop_update_swap)
  then have "scan (\<lambda>e. Inr (free_port e)) (TArr ?ys) 0 (length xs) = Inr (int ?n)"
    using scan_free [of free_port ?ys ?n] n by simp
  ultimately have "add_udp r' ?s1 = Inr (0, ?s1\<lparr>ar_wakeup_udp_entity := TArr (?ys[?n := r']),
        ar_wakeup_db := (ar_wakeup_db ?s1)\<lparr>udp_ports_table_size := ?n + 2\<rparr>\<rparr>)"
    using n len by (simp add: add_udp_eq recv_udp_rule_def port_ops)
  with st1 xs lr show ?thesis by simp
qed

theorem any_port_rule_overwritten_witness:
  "\<exists>s'. run_inserts add_udp [demo_rule 0 0, demo_rule 1 2] demo_wakeup = Inr ([0, 0], s') \<and>
     arr (ar_wakeup_udp_entity s') = [demo_rule 1 2, zero_port] \<and>
     udp_ports_table_size (ar_wakeup_db s') = Suc (Suc 0)"
  using any_port_rule_overwritten [of demo_wakeup "demo_rule 0 0" "demo_rule 1 2"] demo_wakeup_wf
  by (simp add: wakeup_wf_def demo_wakeup_empty del: run_inserts.simps)

text \<open>
  Claim C38.  Protocol code 0 (HOPOPT) is also the mark of an empty slot.  Stored in the last
  slot, it is overwritten by the next protocol, the count passes the size of the array, and
  the search for any further protocol reads beyond the array.
\<close>

theorem hopopt_overruns_table:
  assumes "ip_wf s" and "Suc (length (ip_protos s)) = unat (iptblsize s)"
    and "has_nul z" and "prot_key z = 0"
    and "prot_valid a" and "prot_key a \<notin> set (ip_protos s)"
    and "prot_valid b" and "prot_key b \<notin> set (ip_protos s)" and "prot_key b \<noteq> prot_key a"
  shows "\<exists>s'. run_inserts add_prot [z, a] s = Inr ([0, 0], s') \<and>
    ip_prot_table_size (ar_wakeup_db s') = unat (iptblsize s) + 1 \<and>
    add_prot b s' = Inl OutOfBounds"
proof -
  from assms(1) obtain xs where xs: "ar_wakeup_ip_prot_tbl s = TArr xs"
    and len: "length xs = unat (iptblsize s)"
    and sl: "slots (\<lambda>x. x = 0) xs (ip_prot_table_size (ar_wakeup_db s))"
    by (auto simp: ip_wf_def elim: table_wfE)
  let ?n = "ip_prot_table_size (ar_wakeup_db s)"
  have rules: "ip_protos s = take ?n xs" and n: "Suc ?n = length xs"
    using xs slots_le [OF sl] assms(2) len by (simp_all add: ip_protos_def)
  have "xs ! ?n = 0" using slots_rest [OF sl] n
    by (metis Cons_nth_drop_Suc lessI list.set_intros(1))
  then have same: "xs[?n := 0] = xs" and shape: "xs = take ?n xs @ [0]"
    using n by (metis list_update_id, metis take_Suc_conv_app_nth lessI order_refl take_all)
  have a: "has_nul a" "prot_key a \<noteq> 0" and b: "has_nul b" "prot_key b \<noteq> 0"
    using assms by (auto simp: prot_valid_def)
  let ?s1 = "s\<lparr>ar_wakeup_ip_prot_tbl := TArr xs,
              ar_wakeup_db := (ar_wakeup_db s)\<lparr>ip_prot_table_size := ?n + 1\<rparr>\<rparr>"
  let ?ys = "xs[?n := prot_key a]"
  let ?s2 = "s\<lparr>ar_wakeup_ip_prot_tbl := TArr ?ys,
              ar_wakeup_db := (ar_wakeup_db s)\<lparr>ip_prot_table_size := ?n + 2\<rparr>\<rparr>"
  have "0 \<notin> set (take ?n xs)" using slots_used [OF sl] by blast
  then have st1: "add_prot z s = Inr (0, ?s1)"
    using prot_store [OF _ refl xs assms(3)] assms(1,4) n same by (simp add: add_prot_eq ip_wf_def)
  have nota: "prot_key a \<notin> set xs"
    using shape assms(6) rules a(2) by (metis UnE set_append list.set(1,2) empty_iff insertE)
  have "scan (\<lambda>x. Inr (x = prot_key a)) (TArr xs) 0 (Suc ?n) = Inr (- 1)"
    using scan_eq [of "Suc ?n" xs "\<lambda>x. Inr (x = prot_key a)" "\<lambda>x. x = prot_key a"] n nota by auto
  with scan_free [OF sl] have st2: "add_prot a ?s1 = Inr (0, ?s2)"
    using n len prot_key_eq [OF a(1)] by (simp add: add_prot_eq recv_ip_prot_def port_ops)
  have "prot_key b \<notin> set ?ys"
  proof
    assume "prot_key b \<in> set ?ys"
    then have "prot_key b \<in> insert (prot_key a) (set (take ?n xs @ [0]))"
      using set_update_subset_insert [of xs ?n "prot_key a"] shape by auto
    with assms(8,9) rules b(2) show False by simp
  qed
  then have "scan (\<lambda>x. Inr (x = prot_key b)) (TArr ?ys) 0 (?n + 2) = Inl OutOfBounds"
    using scan_out_of_bounds [of ?ys 0 "?n + 2" "\<lambda>x. Inr (x = prot_key b)"] n by auto
  then have "add_prot b ?s2 = Inl OutOfBounds"
    using prot_key_eq [OF b(1)] by (simp add: add_prot_eq recv_ip_prot_def port_ops)
  moreover have "?n + 2 = unat (iptblsize s) + 1" using n len by simp
  ultimately show ?thesis using st1 st2 by simp
qed

definition demo_one_left :: wakeup_state where
  "demo_one_left = demo_wakeup
     \<lparr>ar_wakeup_ip_prot_tbl := TArr [17, 0],
      ar_wakeup_db := (ar_wakeup_db demo_wakeup)\<lparr>ip_prot_table_size := 1\<rparr>\<rparr>"

lemma demo_one_left_facts:
  "ip_wf demo_one_left" "ip_protos demo_one_left = [17]" "iptblsize demo_one_left = 2"
  by (simp_all add: demo_one_left_def demo_simps)

theorem hopopt_overruns_table_witness:
  "\<exists>s'. run_inserts add_prot [cstr ''HOPOPT\<newline>'', cstr ''ICMP\<newline>''] demo_one_left = Inr ([0, 0], s') \<and>
     ip_prot_table_size (ar_wakeup_db s') = 3 \<and>
     add_prot (cstr ''TCP\<newline>'') s' = Inl OutOfBounds"
proof -
  have k: "prot_key (cstr ''HOPOPT\<newline>'') = 0" "prot_key (cstr ''ICMP\<newline>'') = 1"
    by (simp_all add: prot_key_line is_line_def prot_init_def)
  show ?thesis
    using hopopt_overruns_table [of demo_one_left "cstr ''HOPOPT\<newline>''" "cstr ''ICMP\<newline>''"
        "cstr ''TCP\<newline>''"]
    by (simp add: demo_one_left_facts k demo_key prot_valid_def del: run_inserts.simps)
qed

end
