(* ===== verification/AR_Kmem.thy ===== *)
theory AR_Kmem
  imports AR_Common
begin

text \<open>
  The kernel's dynamic memory as the SNMP part of the module uses it: blocks that are shared by
  pointer and released explicitly.  Which address an allocation returns, and whether it
  succeeds, is the parameter \<open>pick\<close>; its documented law is \<open>alloc_fresh\<close>.  The second part is
  the memory of a user process as \<open>copy_from_user\<close> sees it.
\<close>

section \<open>Kernel blocks\<close>

type_synonym addr = nat
type_synonym kheap = "addr \<Rightarrow> u8 list option"
type_synonym allocator = "kheap \<Rightarrow> nat \<Rightarrow> addr option"

text \<open>An allocation returns no address in use, and never the NULL address.\<close>

definition alloc_fresh :: "allocator \<Rightarrow> bool" where
  "alloc_fresh pick \<longleftrightarrow> (\<forall>h n p. pick h n = Some p \<longrightarrow> p \<noteq> 0 \<and> h p = None)"

definition kzalloc :: "allocator \<Rightarrow> kheap \<Rightarrow> nat \<Rightarrow> addr \<times> kheap" where
  "kzalloc pick h n =
     (case pick h n of None \<Rightarrow> (0, h) | Some p \<Rightarrow> (p, h(p \<mapsto> replicate n 0)))"

definition kfree :: "addr \<Rightarrow> kheap \<Rightarrow> kheap res" where
  "kfree p h = (if p = 0 then Inr h else if h p = None then Inl DoubleFree else Inr (h(p := None)))"

definition kread :: "addr \<Rightarrow> kheap \<Rightarrow> u8 list res" where
  "kread p h = (if p = 0 then Inl NullDeref
                else case h p of None \<Rightarrow> Inl UseAfterFree | Some b \<Rightarrow> Inr b)"

definition live :: "kheap \<Rightarrow> addr \<Rightarrow> bool" where
  "live h p \<longleftrightarrow> p \<noteq> 0 \<and> h p \<noteq> None"

text \<open>The block at an address and the C string in it.\<close>

definition block :: "kheap \<Rightarrow> addr \<Rightarrow> u8 list" where
  "block h p = (case h p of None \<Rightarrow> [] | Some b \<Rightarrow> b)"

definition str_live :: "kheap \<Rightarrow> addr \<Rightarrow> bool" where
  "str_live h p \<longleftrightarrow> live h p \<and> has_nul (block h p)"

lemma kread_live: "live h p \<Longrightarrow> kread p h = Inr (block h p)"
  by (auto simp: kread_def live_def block_def)

lemma kfree_live: "live h p \<Longrightarrow> kfree p h = Inr (h(p := None))"
  by (auto simp: kfree_def live_def)

lemma kread_freed: "p \<noteq> 0 \<Longrightarrow> h p = None \<Longrightarrow> kread p h = Inl UseAfterFree"
  by (simp add: kread_def)

lemma kfree_freed: "p \<noteq> 0 \<Longrightarrow> h p = None \<Longrightarrow> kfree p h = Inl DoubleFree"
  by (simp add: kfree_def)

lemma live_upd [simp]: "live (h(p \<mapsto> b)) q \<longleftrightarrow> (if q = p then p \<noteq> 0 else live h q)"
  by (auto simp: live_def)

lemma block_upd [simp]: "block (h(p \<mapsto> b)) q = (if q = p then b else block h q)"
  by (simp add: block_def)

lemma live_del: "live (h(p := None)) q \<longleftrightarrow> q \<noteq> p \<and> live h q"
  by (auto simp: live_def)

lemma block_del: "q \<noteq> p \<Longrightarrow> block (h(p := None)) q = block h q"
  by (simp add: block_def)

text \<open>Blocks in use are not touched.\<close>

definition heap_ext :: "kheap \<Rightarrow> kheap \<Rightarrow> bool" where
  "heap_ext h h' \<longleftrightarrow> (\<forall>a. h a \<noteq> None \<longrightarrow> h' a = h a)"

lemma heap_ext_refl [simp]: "heap_ext h h"
  by (simp add: heap_ext_def)

lemma heap_ext_trans: "heap_ext h h' \<Longrightarrow> heap_ext h' h'' \<Longrightarrow> heap_ext h h''"
  by (simp add: heap_ext_def)

lemma heap_ext_new: "heap_ext h h' \<Longrightarrow> h p = None \<Longrightarrow> heap_ext h (h'(p \<mapsto> b))"
  by (auto simp: heap_ext_def)

lemma heap_ext_live: "heap_ext h h' \<Longrightarrow> live h p \<Longrightarrow> live h' p \<and> block h' p = block h p"
  by (auto simp: heap_ext_def live_def block_def)

text \<open>The blocks in use, and a heap with \<open>n\<close> blocks more and the others as they were.\<close>

definition blocks :: "kheap \<Rightarrow> addr set" where
  "blocks h = {p. live h p}"

definition heap_grows :: "kheap \<Rightarrow> nat \<Rightarrow> kheap \<Rightarrow> bool" where
  "heap_grows h n h' \<longleftrightarrow> heap_ext h h' \<and>
     (\<exists>N. finite N \<and> card N = n \<and> N \<inter> blocks h = {} \<and> blocks h' = blocks h \<union> N)"

lemma blocks_upd: "p \<noteq> 0 \<Longrightarrow> blocks (h(p \<mapsto> b)) = insert p (blocks h)"
  by (auto simp: blocks_def)

lemma blocks_del: "blocks (h(p := None)) = blocks h - {p}"
  by (auto simp: blocks_def live_del)

lemma heap_grows_refl [simp]: "heap_grows h 0 h"
  by (simp add: heap_grows_def exI [of _ "{}"])

lemma heap_grows_new:
  assumes "heap_grows h n h'" and "h' p = None" and "p \<noteq> 0"
  shows "heap_grows h (Suc n) (h'(p \<mapsto> b))"
proof -
  obtain N where N: "finite N" "card N = n" "N \<inter> blocks h = {}" "blocks h' = blocks h \<union> N" and e: "heap_ext h h'"
    using assms(1) by (auto simp: heap_grows_def)
  have "h p = None" using e assms(2) by (auto simp: heap_ext_def)
  moreover have "p \<notin> blocks h'" using assms(2) by (simp add: blocks_def live_def)
  moreover have "blocks (h'(p \<mapsto> b)) = blocks h \<union> insert p N" using N(4) assms(3) by (simp add: blocks_upd)
  ultimately show ?thesis
    unfolding heap_grows_def using N heap_ext_new [OF e]
    by (intro conjI exI [of _ "insert p N"]) (auto simp: card_insert_disjoint)
qed

lemma heap_grows_ext: "heap_grows h n h' \<Longrightarrow> heap_ext h h'"
  by (simp add: heap_grows_def)

lemma heap_grows_card:
  "heap_grows h n h' \<Longrightarrow> finite (blocks h) \<Longrightarrow> finite (blocks h') \<and> card (blocks h') = card (blocks h) + n"
  by (auto simp: heap_grows_def card_Un_disjoint Int_commute)

lemma kzalloc_cases:
  assumes "alloc_fresh pick"
  obtains (fail) "kzalloc pick h n = (0, h)"
  | (ok) p where "kzalloc pick h n = (p, h(p \<mapsto> replicate n 0))" and "p \<noteq> 0" and "h p = None"
  using assms by (cases "pick h n") (auto simp: kzalloc_def alloc_fresh_def)

lemma kzalloc_disj:
  assumes "alloc_fresh pick"
  shows "kzalloc pick h n = (0, h) \<or>
    (\<exists>p. kzalloc pick h n = (p, h(p \<mapsto> replicate n 0)) \<and> p \<noteq> 0 \<and> h p = None)"
  by (rule kzalloc_cases [OF assms, of h n]) blast+

text \<open>The allocator does not fail before \<open>n\<close> blocks more are in use.\<close>

definition memory_left :: "allocator \<Rightarrow> kheap \<Rightarrow> nat \<Rightarrow> bool" where
  "memory_left pick h n \<longleftrightarrow> finite (blocks h) \<and>
     (\<forall>h' k. finite (blocks h') \<and> card (blocks h') < card (blocks h) + n \<longrightarrow> pick h' k \<noteq> None)"

lemma memory_left_grows: "heap_grows h m h' \<Longrightarrow> memory_left pick h (m + n) \<Longrightarrow> memory_left pick h' n"
  using heap_grows_card [of h m h'] by (auto simp: memory_left_def add.assoc)

lemma memory_left_kzalloc:
  assumes "alloc_fresh pick" and "memory_left pick h (Suc n)"
  obtains p where "kzalloc pick h k = (p, h(p \<mapsto> replicate k 0))" and "p \<noteq> 0" and "h p = None"
    and "\<And>b. memory_left pick (h(p \<mapsto> b)) n"
proof -
  have "pick h k \<noteq> None" using assms(2) by (simp add: memory_left_def del: not_None_eq)
  then obtain p where p: "pick h k = Some p" by blast
  then have new: "p \<noteq> 0" "h p = None" using assms(1) by (auto simp: alloc_fresh_def)
  have "memory_left pick (h(p \<mapsto> b)) n" for b
    using memory_left_grows [OF heap_grows_new [where h' = h, OF heap_grows_refl new(2,1)]] assms(2) by simp
  with that p new show ?thesis by (simp add: kzalloc_def)
qed

text \<open>A concrete allocator: the first address from 1 to 999 not in use.\<close>

definition demo_pick :: allocator where
  "demo_pick h n = find (\<lambda>p. h p = None) [1..<1000]"

lemma demo_pick_fresh: "alloc_fresh demo_pick"
  by (auto simp: alloc_fresh_def demo_pick_def find_Some_iff)

lemma demo_pick_memory:
  assumes "finite (blocks h)" and "card (blocks h) + n \<le> 999"
  shows "memory_left demo_pick h n"
proof -
  have "demo_pick h' k \<noteq> None" if "finite (blocks h')" and "card (blocks h') < card (blocks h) + n" for h' k
  proof
    assume "demo_pick h' k = None"
    then have "{1..<1000} \<subseteq> blocks h'" by (auto simp: demo_pick_def find_None_iff blocks_def live_def)
    from card_mono [OF that(1) this] have "999 \<le> card (blocks h')" by simp
    with that(2) assms(2) show False by simp
  qed
  with assms(1) show ?thesis by (simp add: memory_left_def)
qed

section \<open>User memory\<close>

text \<open>
  What the kernel finds behind an address given by a process: the bytes up to the end of the
  mapping, and whether \<open>copy_from_user\<close> accepts the address.
\<close>

record user_mem =
  um_bytes :: "nat \<Rightarrow> u8 list"
  um_access :: "nat \<Rightarrow> bool"

text \<open>
  \<open>copy_from_user (buf, p, n)\<close>: \<open>None\<close> when the user range cannot be read (the call returns a
  nonzero count); a range longer than the kernel buffer is written beyond it.
\<close>

definition copy_from_user ::
    "'z user_mem_scheme \<Rightarrow> u8 list \<Rightarrow> nat \<Rightarrow> nat \<Rightarrow> u8 list option res" where
  "copy_from_user um buf p n =
     (if um_access um p \<and> n \<le> length (um_bytes um p)
      then rbind (buf_copy buf 0 (take n (um_bytes um p))) (\<lambda>b. Inr (Some b))
      else Inr None)"

end
