(* ===== verification/AR_Store.thy ===== *)
theory AR_Store
  imports AR_Slots "HOL-Library.AList"
begin

text \<open>
  A table with keys and values and a fixed number of slots: the contract the SNMP database
  implements, more general than the rule tables, which are the case of a key without a
  value.  Proved once: what a sequence of insertions leaves, whatever their status was.
\<close>

definition put :: "nat \<Rightarrow> ('k \<times> 'v) list \<Rightarrow> 'k \<times> 'v \<Rightarrow> ('k \<times> 'v) list" where
  "put room m kv =
     (if fst kv \<in> fst ` set m \<or> length m < room then AList.update (fst kv) (snd kv) m else m)"

definition puts :: "nat \<Rightarrow> ('k \<times> 'v) list \<Rightarrow> ('k \<times> 'v) list \<Rightarrow> ('k \<times> 'v) list" where
  "puts room m kvs = foldl (put room) m kvs"

lemma puts_Nil [simp]: "puts room m [] = m"
  by (simp add: puts_def)

lemma puts_Cons [simp]: "puts room m (kv # kvs) = puts room (put room m kv) kvs"
  by (simp add: puts_def)

lemma update_new: "k \<notin> fst ` set m \<Longrightarrow> AList.update k v m = m @ [(k, v)]"
  by (induction m) auto

lemma update_known:
  "k \<in> fst ` set m \<Longrightarrow> AList.update k v m = m[first_pos (\<lambda>e. fst e = k) m := (k, v)]"
  by (induction m) auto

lemma put_distinct: "distinct (map fst m) \<Longrightarrow> distinct (map fst (put room m kv))"
  by (simp add: put_def distinct_update)

lemma map_of_put:
  "fst kv \<in> fst ` set m \<or> length m < room \<Longrightarrow> map_of (put room m kv) = (map_of m)(fst kv \<mapsto> snd kv)"
  by (simp add: put_def update_conv')

text \<open>With room for every key, the table is the map the insertions describe, the last one winning.\<close>

lemma map_of_puts:
  assumes "distinct (map fst m)" and "card (fst ` set m \<union> fst ` set kvs) \<le> room"
  shows "map_of (puts room m kvs) = map_of m ++ map_of (rev kvs)"
  using assms
proof (induction kvs arbitrary: m)
  case Nil
  then show ?case by simp
next
  case (Cons kv kvs)
  have roomy: "fst kv \<in> fst ` set m \<or> length m < room"
  proof (rule disjCI)
    assume "\<not> length m < room"
    then have "room \<le> card (fst ` set m)"
      using Cons.prems(1) distinct_card [of "map fst m"] by simp
    then have "card (fst ` set m \<union> fst ` set (kv # kvs)) \<le> card (fst ` set m)"
      using Cons.prems(2) by simp
    then have "fst ` set m = fst ` set m \<union> fst ` set (kv # kvs)"
      by (intro card_seteq) auto
    then have "fst kv \<in> fst ` set m \<longleftrightarrow> fst kv \<in> fst ` set m \<union> fst ` set (kv # kvs)" by (rule arg_cong)
    then show "fst kv \<in> fst ` set m" by simp
  qed
  then have keys: "fst ` set (put room m kv) = insert (fst kv) (fst ` set m)"
    using arg_cong [OF map_of_put [OF roomy], of dom] by (simp add: dom_map_of_conv_image_fst)
  have "map_of (puts room (put room m kv) kvs) = map_of (put room m kv) ++ map_of (rev kvs)"
    using Cons.prems by (intro Cons.IH) (simp_all add: put_distinct keys insert_commute)
  with map_of_put [OF roomy] show ?case
    by (auto simp: map_add_def fun_eq_iff split: option.splits)
qed

text \<open>
  The contract: an insertion returns a status and either does what \<open>put\<close> says (status 0) or
  leaves the contents alone.
\<close>

locale keyed_store =
  fixes create :: "'e \<Rightarrow> 's \<Rightarrow> (int \<times> 's) res"
    and item :: "'e \<Rightarrow> 'k \<times> 'v"
    and view :: "'s \<Rightarrow> ('k \<times> 'v) list"
    and room :: "'s \<Rightarrow> nat"
    and wf :: "'s \<Rightarrow> bool"
    and valid :: "'e \<Rightarrow> bool"
  assumes create_view: "wf s \<Longrightarrow> valid e \<Longrightarrow>
      \<exists>r s'. create e s = Inr (r, s') \<and> wf s' \<and> room s' = room s \<and>
        view s' = (if r = 0 then put (room s) (view s) (item e) else view s)"
    and view_shape: "wf s \<Longrightarrow> distinct (map fst (view s)) \<and> length (view s) \<le> room s"
begin

text \<open>The items of the insertions that reported success.\<close>

lemma run_view:
  assumes "wf s" and "list_all valid es"
  shows "\<exists>rs s'. run_inserts create es s = Inr (rs, s') \<and> length rs = length es \<and> wf s' \<and>
           room s' = room s \<and>
           view s' = puts (room s) (view s)
                       (map (\<lambda>er. item (fst er)) (filter (\<lambda>er. snd er = 0) (zip es rs)))"
  using assms
proof (induction es arbitrary: s)
  case Nil
  then show ?case by simp
next
  case (Cons e es)
  then have "valid e" and es: "list_all valid es" by auto
  from create_view [OF Cons.prems(1) this(1)] obtain r s1 where
    s1: "create e s = Inr (r, s1)" "wf s1" "room s1 = room s"
      "view s1 = (if r = 0 then put (room s) (view s) (item e) else view s)" by blast
  from Cons.IH [OF s1(2) es] obtain rs s2 where
    "run_inserts create es s1 = Inr (rs, s2)" "length rs = length es" "wf s2" "room s2 = room s1"
    "view s2 = puts (room s1) (view s1)
       (map (\<lambda>er. item (fst er)) (filter (\<lambda>er. snd er = 0) (zip es rs)))" by blast
  with s1 show ?case by (intro exI [of _ "r # rs"] exI [of _ s2]) simp
qed

text \<open>What a lookup finds after a batch that was accepted and fits.\<close>

lemma run_lookup:
  assumes "wf s" and "list_all valid es"
    and "run_inserts create es s = Inr (replicate (length es) 0, s')"
    and "card (fst ` set (view s) \<union> fst ` item ` set es) \<le> room s"
  shows "map_of (view s') = map_of (view s) ++ map_of (rev (map item es))"
proof -
  have "filter (\<lambda>er. snd er = (0 :: int)) (zip es (replicate (length es) 0))
      = zip es (replicate (length es) 0)"
    by (rule filter_True) (auto simp: in_set_zip)
  moreover have items: "map (\<lambda>er. item (fst er)) (zip es (replicate (length es) (0 :: int))) = map item es"
    by (induction es) simp_all
  ultimately have "view s' = puts (room s) (view s) (map item es)"
    using run_view [OF assms(1,2)] assms(3) items by auto
  with map_of_puts [of "view s" "map item es"] view_shape [OF assms(1)] assms(4)
  show ?thesis by (simp add: image_comp)
qed

end

text \<open>A rule table is a keyed store whose keys carry no value.\<close>

lemma put_unit:
  "put room (map (\<lambda>k. (k, ())) ks) (k, ()) = map (\<lambda>k. (k, ())) (upsert room ks k)"
proof -
  have keys: "fst ` set (map (\<lambda>k. (k, ())) ks) = set ks" by force
  have "AList.update k () (map (\<lambda>k. (k, ())) ks) = map (\<lambda>k. (k, ())) ks" if "k \<in> set ks"
    using that by (induction ks) auto
  moreover have "AList.update k () (map (\<lambda>k. (k, ())) ks) = map (\<lambda>k. (k, ())) (ks @ [k])"
    if "k \<notin> set ks"
    using that by (induction ks) auto
  ultimately show ?thesis
    unfolding put_def upsert_def fst_conv snd_conv keys length_map by simp
qed

sublocale rule_table \<subseteq> unit_store: keyed_store ins "\<lambda>e. (key e, ())" "\<lambda>s. map (\<lambda>k. (k, ())) (rules s)"
  room wf valid
proof unfold_locales
  fix s e assume "wf s" and "valid e"
  then obtain r s' where "ins e s = Inr (r, s')" "wf s'" "room s' = room s"
    "rules s' = upsert (room s) (rules s) (key e)"
    "r = (if key e \<in> set (rules s) \<or> length (rules s) < room s then 0 else full_code)"
    using ins_upsert by blast
  then show "\<exists>r s'. ins e s = Inr (r, s') \<and> wf s' \<and> room s' = room s \<and>
      map (\<lambda>k. (k, ())) (rules s') =
        (if r = 0 then put (room s) (map (\<lambda>k. (k, ())) (rules s)) (key e, ())
         else map (\<lambda>k. (k, ())) (rules s))"
    by (auto simp: put_unit upsert_def)
next
  fix s assume "wf s"
  then show "distinct (map fst (map (\<lambda>k. (k, ())) (rules s))) \<and>
      length (map (\<lambda>k. (k, ())) (rules s)) \<le> room s"
    using shape by (simp add: comp_def)
qed

end
