(* ===== verification/AR_Snmp.thy ===== *)
theory AR_Snmp
  imports AR_Kmem AR_Store
begin

text \<open>
  The SNMP database, \<open>armodule/source/arctrl_snmp.c\<close>: a table of object identifiers with the
  response to give for each, and the two community strings.  Entries hold pointers to blocks
  of kernel memory, so the state carries the heap; a copy of an entry shares its blocks.
\<close>

section \<open>Data\<close>

text \<open>The fields as \<open>ar_snmp_tool.h\<close> declares them for user space.\<close>

record auto_res_snmp_e =
  oidSize :: u16
  oidVal :: addr
  resSize :: u16
  resVal :: addr

definition null_entry :: auto_res_snmp_e where
  "null_entry = \<lparr>oidSize = 0, oidVal = 0, resSize = 0, resVal = 0\<rparr>"

datatype snmp_tbl = Snmp_Entity

record auto_res_snmp_db =
  community_read_write_string :: addr
  community_read_only_string :: addr
  control :: int
  max_snmp_msg_length :: u32
  oid_table_size :: nat
  oid_table :: "snmp_tbl option"

definition zero_snmp_db :: auto_res_snmp_db where
  "zero_snmp_db = \<lparr>community_read_write_string = 0, community_read_only_string = 0, control = 0,
     max_snmp_msg_length = 0, oid_table_size = 0, oid_table = None\<rparr>"

record snmp_state =
  kmem :: kheap
  ar_snmp_tblsize :: u32
  ar_snmp_entity :: "auto_res_snmp_e tblptr"
  ar_snmp_db :: auto_res_snmp_db

definition snmp_boot :: "kheap \<Rightarrow> snmp_state" where
  "snmp_boot h = \<lparr>kmem = h, ar_snmp_tblsize = 0, ar_snmp_entity = TNull, ar_snmp_db = zero_snmp_db\<rparr>"

section \<open>Operations\<close>

text \<open>
  Storing a community string in the block at \<open>p\<close>: type byte, length byte, \<open>len\<close> bytes of the
  source, a NUL.  Both \<open>ar_snmp_init_db\<close> and the sysfs files do it with these statements.
\<close>

definition comm_store :: "addr \<Rightarrow> u8 \<Rightarrow> u8 list \<Rightarrow> kheap \<Rightarrow> kheap res" where
  "comm_store p len src h =
     rbind (kread p h) (\<lambda>b.
     rbind (buf_set b 0 0x04) (\<lambda>b.
     rbind (buf_set b 1 len) (\<lambda>b.
     if length src < unat len then Inl OutOfBounds
     else
     rbind (buf_copy b 2 (take (unat len) src)) (\<lambda>b.
     rbind (buf_set b (unat len + 2) 0) (\<lambda>b.
     Inr (h(p \<mapsto> b)))))))"

definition AR_SNMP_MAX_COMM_LENGTH :: nat where
  "AR_SNMP_MAX_COMM_LENGTH = 64"

text \<open>
  \<open>kz 0\<close>: the table could be allocated.  Its pointer is not checked before the \<open>memset\<close>.  The
  status is \<open>AR_SUCCESS\<close> also when a community string could not be allocated.
\<close>

definition ar_snmp_init_db ::
    "auto_res_tables_sizes option \<Rightarrow> alloc_ok \<Rightarrow> allocator \<Rightarrow> snmp_state \<Rightarrow> (u32 \<times> snmp_state) res" where
  "ar_snmp_init_db p_ar_maxsize kz pick s =
     (case p_ar_maxsize of
        None \<Rightarrow> Inl NullDeref
      | Some m \<Rightarrow>
        let n = max_num_of_snmp_oid_entries m;
            ent = (if kz 0 then TArr (replicate (unat n) null_entry) else TNull) in
        if ent = TNull \<and> n \<noteq> 0 then Inl NullDeref
        else
        let (rw, h1) = kzalloc pick (kmem s) AR_SNMP_MAX_COMM_LENGTH;
            s1 = s\<lparr>kmem := h1, ar_snmp_tblsize := n, ar_snmp_entity := ent,
                   ar_snmp_db := zero_snmp_db\<lparr>community_read_write_string := rw\<rparr>\<rparr> in
        if rw = 0 then Inr (0, s1)
        else
        let (ro, h2) = kzalloc pick h1 AR_SNMP_MAX_COMM_LENGTH;
            s2 = s1\<lparr>kmem := h2,
                    ar_snmp_db := (ar_snmp_db s1)\<lparr>community_read_only_string := ro\<rparr>\<rparr> in
        if ro = 0 then rbind (kfree rw h2) (\<lambda>h3. Inr (0, s2\<lparr>kmem := h3\<rparr>))
        else
        rbind (comm_store rw 7 (bytes_of ''private'') h2) (\<lambda>h3.
        rbind (comm_store ro 6 (bytes_of ''public'') h3) (\<lambda>h4.
        Inr (0, s2\<lparr>kmem := h4,
                   ar_snmp_db := (ar_snmp_db s2)
                     \<lparr>control := 0, max_snmp_msg_length := max_num_of_snmp_char m,
                      oid_table := Some Snmp_Entity\<rparr>\<rparr>))))"

definition ar_snmp_get_free_index :: "snmp_state \<Rightarrow> int res" where
  "ar_snmp_get_free_index s =
     scan (\<lambda>e. Inr (oidVal e = 0)) (ar_snmp_entity s) 0 (unat (ar_snmp_tblsize s))"

text \<open>The comparison of two identifiers, \<open>!(strcmp (pInfo->oidVal, entry.oidVal))\<close>.\<close>

definition same_oid :: "kheap \<Rightarrow> addr \<Rightarrow> addr \<Rightarrow> bool res" where
  "same_oid h p q =
     rbind (kread p h) (\<lambda>a. rbind (kread q h) (\<lambda>b. rbind (c_strcmp a b) (\<lambda>d. Inr (d = 0))))"

definition ar_snmp_get_index :: "auto_res_snmp_e \<Rightarrow> snmp_state \<Rightarrow> int res" where
  "ar_snmp_get_index pInfo s =
     scan (\<lambda>e. same_oid (kmem s) (oidVal pInfo) (oidVal e)) (ar_snmp_entity s) 0
       (oid_table_size (ar_snmp_db s))"

text \<open>The four field assignments that copy an entry into a slot.\<close>

definition put_entry ::
    "auto_res_snmp_e tblptr \<Rightarrow> nat \<Rightarrow> auto_res_snmp_e \<Rightarrow> auto_res_snmp_e tblptr res" where
  "put_entry t i e =
     rbind (tbl_get t i) (\<lambda>x.
     tbl_set t i (x\<lparr>oidSize := oidSize e, oidVal := oidVal e, resSize := resSize e, resVal := resVal e\<rparr>))"

definition snmp_create :: "auto_res_snmp_e \<Rightarrow> snmp_state \<Rightarrow> snmp_state res" where
  "snmp_create pInfo s =
     rbind (ar_snmp_get_index pInfo s) (\<lambda>retVal.
     if retVal \<noteq> - 1 then
       rbind (put_entry (ar_snmp_entity s) (nat retVal) pInfo) (\<lambda>t. Inr (s\<lparr>ar_snmp_entity := t\<rparr>))
     else
       rbind (ar_snmp_get_free_index s) (\<lambda>retVal.
       if retVal \<noteq> - 1 then
         rbind (put_entry (ar_snmp_entity s) (nat retVal) pInfo) (\<lambda>t.
         Inr (s\<lparr>ar_snmp_entity := t,
                ar_snmp_db := (ar_snmp_db s)\<lparr>oid_table_size := oid_table_size (ar_snmp_db s) + 1\<rparr>\<rparr>))
       else Inr s))"

text \<open>The loop that moves the entries after a deleted one down, \<open>k\<close> turns from slot \<open>i\<close>.\<close>

fun shift_down :: "auto_res_snmp_e tblptr \<Rightarrow> nat \<Rightarrow> nat \<Rightarrow> auto_res_snmp_e tblptr res" where
  "shift_down t i 0 = Inr t"
| "shift_down t i (Suc k) =
     rbind (tbl_get t (i + 1)) (\<lambda>e. rbind (put_entry t i e) (\<lambda>t. shift_down t (i + 1) k))"

definition snmp_delete :: "auto_res_snmp_e \<Rightarrow> snmp_state \<Rightarrow> snmp_state res" where
  "snmp_delete pInfo s =
     rbind (ar_snmp_get_index pInfo s) (\<lambda>retVal.
     if retVal \<noteq> - 1 then
       let i = nat retVal; last = max i (oid_table_size (ar_snmp_db s) - 1) in
       rbind (shift_down (ar_snmp_entity s) i (last - i)) (\<lambda>t.
       rbind (tbl_get t last) (\<lambda>e.
       rbind (kfree (oidVal e) (kmem s)) (\<lambda>h.
       rbind (kfree (resVal e) h) (\<lambda>h.
       rbind (tbl_set t last (e\<lparr>oidSize := 0, resSize := 0, oidVal := 0, resVal := 0\<rparr>)) (\<lambda>t.
       Inr (s\<lparr>kmem := h, ar_snmp_entity := t,
              ar_snmp_db := (ar_snmp_db s)\<lparr>oid_table_size := oid_table_size (ar_snmp_db s) - 1\<rparr>\<rparr>))))))
     else Inr s)"

text \<open>Every path of \<open>ar_snmp_recv_agent_config\<close> returns \<open>AR_SUCCESS\<close> or \<open>-AR_SUCCESS\<close>.\<close>

definition ar_snmp_recv_agent_config ::
    "u32 \<Rightarrow> auto_res_snmp_e option \<Rightarrow> snmp_state \<Rightarrow> (int \<times> snmp_state) res" where
  "ar_snmp_recv_agent_config cmd pInfo s =
     (case pInfo of
        None \<Rightarrow> Inr (- ar_code AR_SUCCESS, s)
      | Some e \<Rightarrow>
        if cmd = snmp_cmd CREATE_SNMP_ENTRY then
          rbind (snmp_create e s) (\<lambda>s. Inr (ar_code AR_SUCCESS, s))
        else if cmd = snmp_cmd DELETE_SNMP_ENTRY then
          rbind (snmp_delete e s) (\<lambda>s. Inr (ar_code AR_SUCCESS, s))
        else Inr (ar_code AR_SUCCESS, s))"

definition ar_snmp_config_getall_flag_str :: "addr \<Rightarrow> snmp_state \<Rightarrow> snmp_state res" where
  "ar_snmp_config_getall_flag_str pConfigStr s =
     rbind (kread pConfigStr (kmem s)) (\<lambda>b.
     rbind (buf_get b 0) (\<lambda>c.
     rbind (kfree pConfigStr (kmem s)) (\<lambda>h.
     Inr (s\<lparr>kmem := h, ar_snmp_db := (ar_snmp_db s)\<lparr>control := uint c - 48\<rparr>\<rparr>))))"

text \<open>\<open>p[strlen (p)] = 0\<close>.\<close>

definition terminate :: "addr \<Rightarrow> kheap \<Rightarrow> kheap res" where
  "terminate p h =
     rbind (kread p h) (\<lambda>b. rbind (c_strlen b) (\<lambda>n. rbind (buf_set b n 0) (\<lambda>b. Inr (h(p \<mapsto> b)))))"

definition ar_snmp_config_comm_str :: "u32 \<Rightarrow> addr \<Rightarrow> snmp_state \<Rightarrow> snmp_state res" where
  "ar_snmp_config_comm_str cmd pConfigStr s =
     (if cmd = snmp_cmd CONFIG_SNMP_PRIV_COMM then
        rbind (kfree (community_read_write_string (ar_snmp_db s)) (kmem s)) (\<lambda>h.
        rbind (terminate pConfigStr h) (\<lambda>h.
        Inr (s\<lparr>kmem := h,
               ar_snmp_db := (ar_snmp_db s)\<lparr>community_read_write_string := pConfigStr\<rparr>\<rparr>)))
      else if cmd = snmp_cmd CONFIG_SNMP_PUB_COMM then
        rbind (kfree (community_read_only_string (ar_snmp_db s)) (kmem s)) (\<lambda>h.
        rbind (terminate pConfigStr h) (\<lambda>h.
        Inr (s\<lparr>kmem := h,
               ar_snmp_db := (ar_snmp_db s)\<lparr>community_read_only_string := pConfigStr\<rparr>\<rparr>)))
      else Inr s)"

section \<open>The invariant and the contents\<close>

definition entries :: "snmp_state \<Rightarrow> auto_res_snmp_e list" where
  "entries s = take (oid_table_size (ar_snmp_db s)) (arr (ar_snmp_entity s))"

definition oid_key :: "kheap \<Rightarrow> auto_res_snmp_e \<Rightarrow> u8 list" where
  "oid_key h e = cstr_val (block h (oidVal e))"

text \<open>An entry as a key with its value: identifier; its size, the response size and bytes.\<close>

definition entry_item :: "kheap \<Rightarrow> auto_res_snmp_e \<Rightarrow> u8 list \<times> u16 \<times> u16 \<times> u8 list" where
  "entry_item h e = (oid_key h e, oidSize e, resSize e, block h (resVal e))"

definition oid_view :: "snmp_state \<Rightarrow> (u8 list \<times> u16 \<times> u16 \<times> u8 list) list" where
  "oid_view s = map (entry_item (kmem s)) (entries s)"

definition entry_live :: "kheap \<Rightarrow> auto_res_snmp_e \<Rightarrow> bool" where
  "entry_live h e \<longleftrightarrow> str_live h (oidVal e) \<and> live h (resVal e)"

text \<open>Every block the database points to.\<close>

definition owned :: "snmp_state \<Rightarrow> addr list" where
  "owned s = map oidVal (entries s) @ map resVal (entries s) @
     [community_read_write_string (ar_snmp_db s), community_read_only_string (ar_snmp_db s)]"

definition no_oid :: "auto_res_snmp_e \<Rightarrow> bool" where
  "no_oid e \<longleftrightarrow> oidVal e = 0"

definition snmp_wf :: "snmp_state \<Rightarrow> bool" where
  "snmp_wf s \<longleftrightarrow>
     (case ar_snmp_entity s of
        TArr es \<Rightarrow> length es = unat (ar_snmp_tblsize s) \<and>
          oid_table_size (ar_snmp_db s) \<le> length es \<and>
          list_all no_oid (drop (oid_table_size (ar_snmp_db s)) es)
      | _ \<Rightarrow> False) \<and>
     list_all (entry_live (kmem s)) (entries s) \<and>
     distinct (map (oid_key (kmem s)) (entries s)) \<and>
     live (kmem s) (community_read_write_string (ar_snmp_db s)) \<and>
     live (kmem s) (community_read_only_string (ar_snmp_db s)) \<and>
     distinct (owned s)"

text \<open>An entry the caller hands over: its blocks are live, hold a string, and are not owned yet.\<close>

definition fresh_entry :: "snmp_state \<Rightarrow> auto_res_snmp_e \<Rightarrow> bool" where
  "fresh_entry s e \<longleftrightarrow> entry_live (kmem s) e \<and> oidVal e \<noteq> resVal e \<and>
     oidVal e \<notin> set (owned s) \<and> resVal e \<notin> set (owned s)"

lemma snmp_wfE:
  assumes "snmp_wf s"
  obtains es where "ar_snmp_entity s = TArr es" and "length es = unat (ar_snmp_tblsize s)"
    and "list_all no_oid (drop (oid_table_size (ar_snmp_db s)) es)"
    and "entries s = take (oid_table_size (ar_snmp_db s)) es"
    and "length (entries s) = oid_table_size (ar_snmp_db s)"
    and "oid_table_size (ar_snmp_db s) \<le> length es"
  using assms by (auto simp: snmp_wf_def entries_def split: tblptr.splits)

lemma snmp_wfI:
  assumes "ar_snmp_entity s = TArr es" and "length es = unat (ar_snmp_tblsize s)"
    and "oid_table_size (ar_snmp_db s) \<le> length es"
    and "list_all no_oid (drop (oid_table_size (ar_snmp_db s)) es)"
    and "list_all (entry_live (kmem s)) (entries s)"
    and "distinct (map (oid_key (kmem s)) (entries s))"
    and "live (kmem s) (community_read_write_string (ar_snmp_db s))"
    and "live (kmem s) (community_read_only_string (ar_snmp_db s))"
    and "distinct (owned s)"
  shows "snmp_wf s"
  using assms by (simp add: snmp_wf_def)

lemma snmp_wfD:
  assumes "snmp_wf s"
  shows "list_all (entry_live (kmem s)) (entries s)"
    and "distinct (map (oid_key (kmem s)) (entries s))"
    and "live (kmem s) (community_read_write_string (ar_snmp_db s))"
    and "live (kmem s) (community_read_only_string (ar_snmp_db s))"
    and "distinct (owned s)"
  using assms by (simp_all add: snmp_wf_def)

lemma entry_live_oid: "entry_live h e \<Longrightarrow> str_live h (oidVal e) \<and> \<not> no_oid e"
  by (auto simp: entry_live_def str_live_def live_def no_oid_def)

lemma snmp_wf_slots:
  assumes "snmp_wf s" and "ar_snmp_entity s = TArr es"
  shows "slots no_oid es (oid_table_size (ar_snmp_db s))"
proof -
  have "distinct (map oidVal (entries s))" using snmp_wfD(5) [OF assms(1)] by (simp add: owned_def)
  then have "distinct (entries s)" by (simp add: distinct_map)
  moreover have "list_all (\<lambda>e. \<not> no_oid e) (entries s)"
    using snmp_wfD(1) [OF assms(1)] entry_live_oid by (auto simp: list_all_iff)
  ultimately show ?thesis
    using snmp_wfE [OF assms(1)] assms(2) unfolding slots_def by (metis tblptr.inject)
qed

lemma same_oid_live:
  assumes "str_live h p" and "str_live h q"
  shows "same_oid h p q = Inr (cstr_val (block h p) = cstr_val (block h q))"
  using assms c_strcmp_zero [of "block h p" "block h q"]
  by (auto simp: same_oid_def str_live_def kread_live)

lemma put_entry_in [simp]: "i < length es \<Longrightarrow> put_entry (TArr es) i e = Inr (TArr (es[i := e]))"
  by (cases "es ! i"; cases e) (simp add: put_entry_def)

lemma get_index_eq:
  assumes "snmp_wf s" and "str_live (kmem s) (oidVal e)"
  shows "ar_snmp_get_index e s =
    Inr (if oid_key (kmem s) e \<in> oid_key (kmem s) ` set (entries s)
         then int (first_pos (\<lambda>x. oid_key (kmem s) x = oid_key (kmem s) e) (entries s)) else - 1)"
proof -
  obtain es where es: "ar_snmp_entity s = TArr es" "entries s = take (oid_table_size (ar_snmp_db s)) es"
    "oid_table_size (ar_snmp_db s) \<le> length es"
    using snmp_wfE [OF assms(1)] by metis
  have "same_oid (kmem s) (oidVal e) (oidVal x) = Inr (oid_key (kmem s) x = oid_key (kmem s) e)"
    if "x \<in> set (entries s)" for x
  proof -
    have "str_live (kmem s) (oidVal x)"
      using assms(1) that by (auto simp: snmp_wf_def list_all_iff entry_live_def)
    then show ?thesis using same_oid_live [OF assms(2)] by (auto simp: oid_key_def)
  qed
  then have "ar_snmp_get_index e s =
    Inr (if \<exists>x \<in> set (entries s). oid_key (kmem s) x = oid_key (kmem s) e
         then int (first_pos (\<lambda>x. oid_key (kmem s) x = oid_key (kmem s) e) (entries s)) else - 1)"
    using scan_eq [OF es(3), of "\<lambda>x. same_oid (kmem s) (oidVal e) (oidVal x)"
        "\<lambda>x. oid_key (kmem s) x = oid_key (kmem s) e"]
    by (simp add: ar_snmp_get_index_def es(1) es(2) [symmetric])
  then show ?thesis by (auto simp: image_iff eq_commute)
qed

lemma free_index_eq:
  assumes "snmp_wf s"
  shows "ar_snmp_get_free_index s =
    Inr (if oid_table_size (ar_snmp_db s) < unat (ar_snmp_tblsize s)
         then int (oid_table_size (ar_snmp_db s)) else - 1)"
proof -
  obtain es where es: "ar_snmp_entity s = TArr es" "length es = unat (ar_snmp_tblsize s)"
    using snmp_wfE [OF assms] by metis
  have "scan (\<lambda>e. Inr (oidVal e = 0)) (TArr es) 0 (length es) =
    Inr (if \<exists>e \<in> set es. no_oid e then int (first_pos no_oid es) else - 1)"
    using scan_eq [of "length es" es "\<lambda>e. Inr (oidVal e = 0)" no_oid] by (simp add: no_oid_def)
  with slots_first_free [OF snmp_wf_slots [OF assms es(1)]] es show ?thesis by (simp add: ar_snmp_get_free_index_def)
qed

section \<open>Insertion\<close>

lemma first_key_less:
  assumes "k \<in> oid_key h ` set es"
  shows "first_pos (\<lambda>x. oid_key h x = k) es < length es"
    and "oid_key h (es ! first_pos (\<lambda>x. oid_key h x = k) es) = k"
  using assms first_pos_less [of es "\<lambda>x. oid_key h x = k"] first_pos_hit [of es "\<lambda>x. oid_key h x = k"]
  by auto

lemma snmp_create_eq:
  assumes "snmp_wf s" and "str_live (kmem s) (oidVal e)" and "ar_snmp_entity s = TArr es"
  shows "snmp_create e s = Inr
    (if oid_key (kmem s) e \<in> oid_key (kmem s) ` set (entries s)
     then s\<lparr>ar_snmp_entity :=
            TArr (es[first_pos (\<lambda>x. oid_key (kmem s) x = oid_key (kmem s) e) (entries s) := e])\<rparr>
     else if oid_table_size (ar_snmp_db s) < unat (ar_snmp_tblsize s)
     then s\<lparr>ar_snmp_entity := TArr (es[oid_table_size (ar_snmp_db s) := e]),
            ar_snmp_db := (ar_snmp_db s)\<lparr>oid_table_size := oid_table_size (ar_snmp_db s) + 1\<rparr>\<rparr>
     else s)"
proof -
  have "length es = unat (ar_snmp_tblsize s)" and "length (entries s) \<le> length es"
    using snmp_wfE [OF assms(1)] assms(3) by (metis tblptr.inject)+
  then show ?thesis
    using get_index_eq [OF assms(1,2)] free_index_eq [OF assms(1)] assms(3)
      first_key_less(1) [of "oid_key (kmem s) e" "kmem s" "entries s"]
    by (auto simp: snmp_create_def)
qed

lemma distinct_owned_update:
  assumes "distinct (map f es @ map g es @ cs)" and "f e \<noteq> g e"
    and "f e \<notin> set (map f es @ map g es @ cs)" and "g e \<notin> set (map f es @ map g es @ cs)"
  shows "distinct (map f (es[i := e]) @ map g (es[i := e]) @ cs)"
proof -
  have "set (map f (es[i := e])) \<subseteq> insert (f e) (set (map f es))"
    and "set (map g (es[i := e])) \<subseteq> insert (g e) (set (map g es))"
    unfolding map_update by (rule set_update_subset_insert)+
  moreover have "distinct (map f (es[i := e]))" and "distinct (map g (es[i := e]))"
    unfolding map_update using assms by (auto intro!: distinct_list_update)
  ultimately show ?thesis using assms unfolding distinct_append set_append by blast
qed

lemma item_key [simp]: "fst (entry_item h e) = oid_key h e"
  by (simp add: entry_item_def)

lemma view_keys: "fst ` set (oid_view s) = oid_key (kmem s) ` set (entries s)"
  by (force simp: oid_view_def)

text \<open>Replacing the entry with the same identifier.\<close>

lemma put_known:
  assumes wf: "snmp_wf s" and fresh: "fresh_entry s e" and es: "ar_snmp_entity s = TArr es"
    and known: "oid_key (kmem s) e \<in> oid_key (kmem s) ` set (entries s)"
  defines "i \<equiv> first_pos (\<lambda>x. oid_key (kmem s) x = oid_key (kmem s) e) (entries s)"
  defines "s' \<equiv> s\<lparr>ar_snmp_entity := TArr (es[i := e])\<rparr>"
  shows "snmp_wf s' \<and> oid_view s' = put (unat (ar_snmp_tblsize s)) (oid_view s) (entry_item (kmem s) e)"
proof
  have ent0: "entries s = take (oid_table_size (ar_snmp_db s)) es" and len: "length es = unat (ar_snmp_tblsize s)"
    and n: "oid_table_size (ar_snmp_db s) \<le> length es" "length (entries s) = oid_table_size (ar_snmp_db s)"
    and rest: "list_all no_oid (drop (oid_table_size (ar_snmp_db s)) es)"
    using snmp_wfE [OF wf] es by (metis tblptr.inject)+
  have sel: "kmem s' = kmem s" "ar_snmp_tblsize s' = ar_snmp_tblsize s"
    "ar_snmp_entity s' = TArr (es[i := e])" "oid_table_size (ar_snmp_db s') = oid_table_size (ar_snmp_db s)"
    "community_read_write_string (ar_snmp_db s') = community_read_write_string (ar_snmp_db s)"
    "community_read_only_string (ar_snmp_db s') = community_read_only_string (ar_snmp_db s)"
    by (simp_all add: s'_def)
  have i: "i < length (entries s)" and ki: "oid_key (kmem s) (entries s ! i) = oid_key (kmem s) e"
    unfolding i_def using first_key_less [OF known] by auto
  have ent: "entries s' = (entries s)[i := e]"
    using ent0 by (simp add: entries_def s'_def take_update_swap)
  have live: "entry_live (kmem s) e" using fresh by (simp add: fresh_entry_def)
  show "snmp_wf s'"
  proof (rule snmp_wfI)
    show "list_all (entry_live (kmem s')) (entries s')"
      using snmp_wfD(1) [OF wf] live set_update_subset_insert [of "entries s" i e]
      by (auto simp: ent sel list_all_iff)
    have "map (oid_key (kmem s)) (entries s') = map (oid_key (kmem s)) (entries s)"
      using ki i by (simp add: ent map_update list_update_same_conv)
    then show "distinct (map (oid_key (kmem s')) (entries s'))"
      using snmp_wfD(2) [OF wf] by (simp add: sel)
    show "distinct (owned s')"
      using distinct_owned_update [of oidVal "entries s" resVal
          "[community_read_write_string (ar_snmp_db s), community_read_only_string (ar_snmp_db s)]" e i]
        snmp_wfD(5) [OF wf] fresh
      unfolding owned_def ent fresh_entry_def sel by simp
    show "list_all no_oid (drop (oid_table_size (ar_snmp_db s')) (es[i := e]))"
      using rest i n by (simp add: sel drop_update_cancel)
  qed (use snmp_wfD(3,4) [OF wf] len n in \<open>simp_all add: sel\<close>)
  have "oid_view s' = (oid_view s)[i := entry_item (kmem s) e]"
    by (simp add: oid_view_def ent map_update sel)
  moreover have "i = first_pos (\<lambda>x. fst x = oid_key (kmem s) e) (oid_view s)"
    by (simp add: i_def oid_view_def first_pos_map)
  ultimately show "oid_view s' = put (unat (ar_snmp_tblsize s)) (oid_view s) (entry_item (kmem s) e)"
    using known update_known [of "oid_key (kmem s) e" "oid_view s" "snd (entry_item (kmem s) e)"]
    by (simp add: put_def view_keys) (simp add: entry_item_def)
qed

text \<open>Appending an entry with a new identifier.\<close>

lemma put_new:
  assumes wf: "snmp_wf s" and fresh: "fresh_entry s e" and es: "ar_snmp_entity s = TArr es"
    and new: "oid_key (kmem s) e \<notin> oid_key (kmem s) ` set (entries s)"
    and lt: "oid_table_size (ar_snmp_db s) < unat (ar_snmp_tblsize s)"
  defines "n \<equiv> oid_table_size (ar_snmp_db s)"
  defines "s' \<equiv> s\<lparr>ar_snmp_entity := TArr (es[n := e]),
              ar_snmp_db := (ar_snmp_db s)\<lparr>oid_table_size := n + 1\<rparr>\<rparr>"
  shows "snmp_wf s' \<and> oid_view s' = put (unat (ar_snmp_tblsize s)) (oid_view s) (entry_item (kmem s) e)"
proof
  have ent0: "entries s = take n es" and len: "length es = unat (ar_snmp_tblsize s)"
    and ln: "length (entries s) = n" and rest: "list_all no_oid (drop n es)"
    unfolding n_def using snmp_wfE [OF wf] es by (metis tblptr.inject)+
  have sel: "kmem s' = kmem s" "ar_snmp_tblsize s' = ar_snmp_tblsize s"
    "ar_snmp_entity s' = TArr (es[n := e])" "oid_table_size (ar_snmp_db s') = n + 1"
    "community_read_write_string (ar_snmp_db s') = community_read_write_string (ar_snmp_db s)"
    "community_read_only_string (ar_snmp_db s') = community_read_only_string (ar_snmp_db s)"
    by (simp_all add: s'_def)
  have n: "n < length es" using lt len by (simp add: n_def)
  have ent: "entries s' = entries s @ [e]"
    using ent0 n by (simp add: entries_def s'_def take_Suc_update)
  have live: "entry_live (kmem s) e" using fresh by (simp add: fresh_entry_def)
  show "snmp_wf s'"
  proof (rule snmp_wfI)
    show "list_all (entry_live (kmem s')) (entries s')"
      using snmp_wfD(1) [OF wf] live by (simp add: ent sel)
    show "distinct (map (oid_key (kmem s')) (entries s'))"
      using snmp_wfD(2) [OF wf] new by (simp add: ent sel)
    show "distinct (owned s')"
      using snmp_wfD(5) [OF wf] fresh by (auto simp: owned_def ent sel fresh_entry_def)
    show "list_all no_oid (drop (oid_table_size (ar_snmp_db s')) (es[n := e]))"
      using rest set_drop_subset_set_drop [of n "Suc n" es]
      by (auto simp: sel drop_update_cancel list_all_iff)
  qed (use snmp_wfD(3,4) [OF wf] len n in \<open>simp_all add: sel\<close>)
  have upd: "AList.update (oid_key (kmem s) e) v (oid_view s) = oid_view s @ [(oid_key (kmem s) e, v)]" for v
    by (rule update_new) (simp add: view_keys new)
  have "oid_view s' = oid_view s @ [entry_item (kmem s) e]"
    by (simp add: oid_view_def ent sel)
  then show "oid_view s' = put (unat (ar_snmp_tblsize s)) (oid_view s) (entry_item (kmem s) e)"
    using new lt ln upd by (simp add: put_def view_keys) (simp add: oid_view_def n_def entry_item_def)
qed

lemma snmp_create_put:
  assumes wf: "snmp_wf s" and fresh: "fresh_entry s e"
  shows "\<exists>s'. snmp_create e s = Inr s' \<and> snmp_wf s' \<and> kmem s' = kmem s \<and>
    ar_snmp_tblsize s' = ar_snmp_tblsize s \<and>
    oid_view s' = put (unat (ar_snmp_tblsize s)) (oid_view s) (entry_item (kmem s) e)"
proof -
  obtain es where es: "ar_snmp_entity s = TArr es" using snmp_wfE [OF wf] by metis
  have "str_live (kmem s) (oidVal e)" using fresh by (auto simp: fresh_entry_def entry_live_def)
  note cr = snmp_create_eq [OF wf this es]
  have "length (oid_view s) = oid_table_size (ar_snmp_db s)"
    using snmp_wfE [OF wf] by (metis length_map oid_view_def)
  then show ?thesis
    using cr put_known [OF wf fresh es] put_new [OF wf fresh es] wf
    by (auto simp: put_def view_keys)
qed

section \<open>Deletion\<close>

text \<open>The loop moves \<open>k\<close> entries one slot down and leaves the last of them in place.\<close>

lemma shift_down_eq:
  "i + k < length es \<Longrightarrow>
     shift_down (TArr es) i k = Inr (TArr (take i es @ take k (drop (Suc i) es) @ drop (i + k) es))"
proof (induction k arbitrary: i es)
  case 0
  then show ?case by simp
next
  case (Suc k)
  let ?es = "es[i := es ! Suc i]"
  have "shift_down (TArr es) i (Suc k) = shift_down (TArr ?es) (Suc i) k"
    using Suc.prems by simp
  also have "\<dots> = Inr (TArr (take (Suc i) ?es @ take k (drop (Suc (Suc i)) ?es) @ drop (Suc i + k) ?es))"
    using Suc.prems by (intro Suc.IH) simp
  also have "take (Suc i) ?es = take i es @ [es ! Suc i]"
    using Suc.prems by (simp add: take_Suc_update)
  also have "take k (drop (Suc (Suc i)) ?es) = take k (drop (Suc (Suc i)) es)"
    by (simp add: drop_update_cancel)
  also have "drop (Suc i + k) ?es = drop (i + Suc k) es"
    by (simp add: drop_update_cancel)
  also have "take i es @ [es ! Suc i] = take i es @ [es ! Suc i] @ []" by simp
  finally show ?case
    using Suc.prems Cons_nth_drop_Suc [of "Suc i" es] by (simp flip: append_assoc)
      (metis Suc_leI append.assoc append_Cons append_Nil less_add_Suc1 order_le_less_trans take_Suc_Cons)
qed

text \<open>
  Deleting the entry at position \<open>i\<close> of the \<open>n\<close> in use: the table keeps the other entries in
  order, and the blocks of the \<^emph>\<open>last\<close> entry are released, whichever entry was deleted.
\<close>

lemma snmp_delete_at:
  assumes wf: "snmp_wf s" and e: "str_live (kmem s) (oidVal e)"
    and es: "ar_snmp_entity s = TArr es"
    and known: "oid_key (kmem s) e \<in> oid_key (kmem s) ` set (entries s)"
  defines "i \<equiv> first_pos (\<lambda>x. oid_key (kmem s) x = oid_key (kmem s) e) (entries s)"
    and "m \<equiv> oid_table_size (ar_snmp_db s) - 1"
  shows "i \<le> m \<and> m < length es \<and> entries s = take (Suc m) es \<and>
    snmp_delete e s = Inr (s\<lparr>
      kmem := (kmem s)(oidVal (es ! m) := None, resVal (es ! m) := None),
      ar_snmp_entity := TArr (take i es @ take (m - i) (drop (Suc i) es) @ null_entry # drop (Suc m) es),
      ar_snmp_db := (ar_snmp_db s)\<lparr>oid_table_size := m\<rparr>\<rparr>)"
proof -
  have ln: "length (entries s) = oid_table_size (ar_snmp_db s)"
    and le: "oid_table_size (ar_snmp_db s) \<le> length es"
    and ent: "entries s = take (oid_table_size (ar_snmp_db s)) es"
    using snmp_wfE [OF wf] es by (metis tblptr.inject)+
  have i: "i < oid_table_size (ar_snmp_db s)"
    unfolding i_def using first_key_less(1) [OF known] ln by simp
  then have n: "oid_table_size (ar_snmp_db s) = Suc m" and im: "i \<le> m" and m: "m < length es"
    using le by (auto simp: m_def)
  let ?x = "es ! m"
  have "?x \<in> set (entries s)" using ent n m by (metis in_set_conv_nth length_take lessI ln nth_take)
  then have x: "live (kmem s) (oidVal ?x)" "live (kmem s) (resVal ?x)" "oidVal ?x \<noteq> resVal ?x"
    using snmp_wfD(1,5) [OF wf] by (auto simp: list_all_iff entry_live_def str_live_def owned_def)
  let ?t = "take i es @ take (m - i) (drop (Suc i) es) @ drop m es"
  have sh: "shift_down (TArr es) i (m - i) = Inr (TArr ?t)"
    using shift_down_eq [of i "m - i" es] im m by simp
  have lt: "length (take i es @ take (m - i) (drop (Suc i) es)) = m" using im m by simp
  then have tm: "?t ! m = ?x" and tl: "m < length ?t"
    and up: "?t[m := null_entry] = take i es @ take (m - i) (drop (Suc i) es) @ null_entry # drop (Suc m) es"
    using m im by (simp_all add: nth_append list_update_append Cons_nth_drop_Suc [symmetric])
  have z: "?x\<lparr>oidSize := 0, resSize := 0, oidVal := 0, resVal := 0\<rparr> = null_entry"
    by (cases ?x) (simp add: null_entry_def)
  have f1: "kfree (oidVal ?x) (kmem s) = Inr ((kmem s)(oidVal ?x := None))"
    using x(1) by (rule kfree_live)
  have f2: "kfree (resVal ?x) ((kmem s)(oidVal ?x := None))
      = Inr ((kmem s)(oidVal ?x := None, resVal ?x := None))"
    using x(2,3) by (intro kfree_live) (simp add: live_del)
  have gi: "ar_snmp_get_index e s = Inr (int i)"
    using get_index_eq [OF wf e] known by (simp add: i_def)
  have mx: "max i m = m" using im by simp
  have "snmp_delete e s = Inr (s\<lparr>
      kmem := (kmem s)(oidVal (es ! m) := None, resVal (es ! m) := None),
      ar_snmp_entity := TArr (?t[m := null_entry]),
      ar_snmp_db := (ar_snmp_db s)\<lparr>oid_table_size := m\<rparr>\<rparr>)"
    using tl by (simp add: snmp_delete_def gi Let_def mx es sh tm f1 f2 z n
        del: nth_append_length length_append)
  with up im m ent n show ?thesis by simp
qed

lemma snmp_delete_absent:
  assumes "snmp_wf s" and "str_live (kmem s) (oidVal e)"
    and "oid_key (kmem s) e \<notin> oid_key (kmem s) ` set (entries s)"
  shows "snmp_delete e s = Inr s"
  using get_index_eq [OF assms(1,2)] assms(3) by (simp add: snmp_delete_def)

lemma wf_last_entry:
  assumes "snmp_wf s" and "entries s = ys @ [x]"
  shows "y \<in> set ys \<Longrightarrow> {oidVal y, resVal y} \<inter> {oidVal x, resVal x} = {}"
    and "{community_read_write_string (ar_snmp_db s), community_read_only_string (ar_snmp_db s)}
       \<inter> {oidVal x, resVal x} = {}"
  using snmp_wfD(5) [OF assms(1)] assms(2) by (auto simp: owned_def)

lemma key_after_free:
  assumes "oidVal y \<notin> {p, q}" and "resVal y \<notin> {p, q}"
  shows "entry_item (h(p := None, q := None)) y = entry_item h y"
    and "entry_live (h(p := None, q := None)) y = entry_live h y"
    and "oid_key (h(p := None, q := None)) y = oid_key h y"
  using assms by (auto simp: entry_item_def oid_key_def entry_live_def str_live_def live_def block_def)

section \<open>Community strings\<close>

text \<open>The text a reader of the type-length-value format finds in a block.\<close>

definition comm_text :: "u8 list \<Rightarrow> u8 list option" where
  "comm_text b =
     (case b of
        t # l # r \<Rightarrow> if t = 0x04 \<and> unat l < length r \<and> r ! unat l = 0 then Some (take (unat l) r) else None
      | _ \<Rightarrow> None)"

lemma comm_store_text:
  assumes "live h p" and "unat len + 3 \<le> length (block h p)" and "unat len \<le> length src"
  shows "\<exists>b. comm_store p len src h = Inr (h(p \<mapsto> b)) \<and> length b = length (block h p) \<and>
    comm_text b = Some (take (unat len) src)"
proof -
  let ?n = "unat len"
  obtain t l r where b0: "block h p = t # l # r"
    using assms(2) by (cases "block h p"; cases "tl (block h p)") auto
  then have r: "?n < length r" using assms(2) by simp
  let ?b = "0x04 # len # take ?n src @ 0 # drop (Suc ?n) r"
  have "buf_copy (0x04 # len # r) 2 (take ?n src) = Inr (0x04 # len # take ?n src @ drop ?n r)"
    using r assms(3) by (simp add: numeral_2_eq_2)
  moreover have "(take ?n src @ drop ?n r)[?n := 0] = take ?n src @ 0 # drop (Suc ?n) r"
    using r assms(3) by (simp add: list_update_append Cons_nth_drop_Suc [symmetric])
  then have "buf_set (0x04 # len # take ?n src @ drop ?n r) (?n + 2) 0 = Inr ?b"
    using r assms(3) by simp
  ultimately have "comm_store p len src h = Inr (h(p \<mapsto> ?b))"
    using kread_live [OF assms(1)] assms(3) by (simp add: comm_store_def b0)
  moreover have "comm_text ?b = Some (take ?n src)"
    using assms(3) by (simp add: comm_text_def nth_append)
  ultimately show ?thesis using b0 r assms(3) by (intro exI [of _ ?b]) simp
qed

section \<open>Properties\<close>

text \<open>
  Claim C5.  Creating an entry whose blocks are fresh is the abstract insertion: an identifier
  already present gets the new response in its place, a new one is appended while there is
  room, and otherwise nothing changes; the status is 0 in all three cases and the database
  stays well-formed.
\<close>

theorem snmp_create_refines:
  assumes "snmp_wf s" and "fresh_entry s e"
  shows "\<exists>s'. ar_snmp_recv_agent_config (snmp_cmd CREATE_SNMP_ENTRY) (Some e) s = Inr (0, s') \<and>
    snmp_wf s' \<and> kmem s' = kmem s \<and>
    oid_view s' = put (unat (ar_snmp_tblsize s)) (oid_view s) (entry_item (kmem s) e)"
  using snmp_create_put [OF assms] by (auto simp: ar_snmp_recv_agent_config_def)

text \<open>A database with three slots and two entries, for the instances.\<close>

definition demo_heap :: kheap where
  "demo_heap = [1 \<mapsto> 0x04 # 0x07 # cstr ''private'', 2 \<mapsto> 0x04 # 0x06 # cstr ''public'',
     3 \<mapsto> [1, 3, 6, 0], 4 \<mapsto> [2, 1, 10], 5 \<mapsto> [1, 3, 7, 0], 6 \<mapsto> [2, 1, 20],
     7 \<mapsto> [1, 3, 8, 0], 8 \<mapsto> [2, 1, 30]]"

definition demo_oid :: "nat \<Rightarrow> nat \<Rightarrow> auto_res_snmp_e" where
  "demo_oid p q = \<lparr>oidSize = 3, oidVal = p, resSize = 3, resVal = q\<rparr>"

definition demo_snmp :: snmp_state where
  "demo_snmp = \<lparr>kmem = demo_heap, ar_snmp_tblsize = 3,
     ar_snmp_entity = TArr [demo_oid 3 4, demo_oid 5 6, null_entry],
     ar_snmp_db = \<lparr>community_read_write_string = 1, community_read_only_string = 2, control = 0,
       max_snmp_msg_length = 128, oid_table_size = 2, oid_table = Some Snmp_Entity\<rparr>\<rparr>"

lemma demo_oid_sel [simp]: "oidVal (demo_oid p q) = p" "resVal (demo_oid p q) = q"
  by (simp_all add: demo_oid_def)

lemmas demo_snmp_simps =
  demo_snmp_def demo_heap_def demo_oid_def null_entry_def entries_def owned_def oid_view_def
  entry_item_def oid_key_def entry_live_def str_live_def live_def block_def no_oid_def

lemma demo_snmp_wf: "snmp_wf demo_snmp"
  by (simp add: snmp_wf_def demo_snmp_simps)

lemma demo_snmp_view:
  "oid_view demo_snmp = [([1, 3, 6], 3, 3, [2, 1, 10]), ([1, 3, 7], 3, 3, [2, 1, 20])]"
  "entry_item (kmem demo_snmp) (demo_oid 7 8) = ([1, 3, 8], 3, 3, [2, 1, 30])"
  "ar_snmp_tblsize demo_snmp = 3"
  by (simp_all add: demo_snmp_simps)

lemma demo_snmp_fresh: "fresh_entry demo_snmp (demo_oid 7 8)"
  by (simp add: fresh_entry_def demo_snmp_simps)

theorem snmp_create_refines_witness:
  "\<exists>s'. ar_snmp_recv_agent_config 4 (Some (demo_oid 7 8)) demo_snmp = Inr (0, s') \<and> snmp_wf s' \<and>
     oid_view s' = [([1, 3, 6], 3, 3, [2, 1, 10]), ([1, 3, 7], 3, 3, [2, 1, 20]),
                    ([1, 3, 8], 3, 3, [2, 1, 30])]"
  using snmp_create_refines [OF demo_snmp_wf demo_snmp_fresh]
  by (auto simp: demo_snmp_view put_def)

text \<open>
  Deleting the entry stored last: the entry disappears, its two blocks are released,
  every other entry keeps its identifier and response, and the database stays well-formed.
\<close>

theorem snmp_delete_last:
  assumes "snmp_wf s" and "str_live (kmem s) (oidVal e)" and "entries s = ys @ [x]"
    and "oid_key (kmem s) x = oid_key (kmem s) e"
  shows "\<exists>s'. ar_snmp_recv_agent_config (snmp_cmd DELETE_SNMP_ENTRY) (Some e) s = Inr (0, s') \<and>
    snmp_wf s' \<and> oid_view s' = butlast (oid_view s) \<and>
    kmem s' = (kmem s)(oidVal x := None, resVal x := None)"
proof -
  obtain es where es: "ar_snmp_entity s = TArr es" using snmp_wfE [OF assms(1)] by metis
  let ?m = "oid_table_size (ar_snmp_db s) - 1" and ?h = "(kmem s)(oidVal x := None, resVal x := None)"
  have known: "oid_key (kmem s) e \<in> oid_key (kmem s) ` set (entries s)"
    using assms(3,4) by (metis image_eqI in_set_conv_decomp)
  have "oid_key (kmem s) y \<noteq> oid_key (kmem s) e" if "y \<in> set ys" for y
    using snmp_wfD(2) [OF assms(1)] imageI [OF that, of "oid_key (kmem s)"] assms(3,4) by auto
  then have fp: "first_pos (\<lambda>y. oid_key (kmem s) y = oid_key (kmem s) e) (entries s) = length ys"
    using assms(3,4) by (simp add: first_pos_append)
  note del = snmp_delete_at [OF assms(1,2) es known, unfolded fp]
  then have m: "?m < length es" and ent: "ys @ [x] = take (Suc ?m) es" using assms(3) by auto
  then have ym: "length ys = ?m" by (metis length_append_singleton length_take min.absorb2 nat.inject Suc_leI)
  have ys: "ys = take ?m es" and x: "es ! ?m = x"
    using ent m by (simp_all add: take_Suc_conv_app_nth)
  have len: "length es = unat (ar_snmp_tblsize s)" and rest: "list_all no_oid (drop (Suc ?m) es)"
    using snmp_wfE [OF assms(1)] es assms(3) ym by (metis tblptr.inject length_append_singleton)+
  let ?s = "s\<lparr>kmem := ?h, ar_snmp_entity := TArr (ys @ null_entry # drop (Suc ?m) es),
              ar_snmp_db := (ar_snmp_db s)\<lparr>oid_table_size := ?m\<rparr>\<rparr>"
  have st: "snmp_delete e s = Inr ?s" using del ys x ym by simp
  have ent': "entries ?s = ys" using ym by (simp add: entries_def)
  note last = wf_last_entry [OF assms(1,3)]
  have same: "entry_item ?h y = entry_item (kmem s) y \<and> entry_live ?h y = entry_live (kmem s) y \<and>
      oid_key ?h y = oid_key (kmem s) y" if "y \<in> set ys" for y
    using key_after_free [of y "oidVal x" "resVal x" "kmem s"] last(1) [OF that] by auto
  have "snmp_wf ?s"
  proof (rule snmp_wfI [where es = "ys @ null_entry # drop (Suc ?m) es"])
    show "list_all (entry_live (kmem ?s)) (entries ?s)"
      unfolding ent' using snmp_wfD(1) [OF assms(1)] assms(3) same by (auto simp: list_all_iff)
    have keys: "map (oid_key (kmem ?s)) (entries ?s) = map (oid_key (kmem s)) ys"
      unfolding ent' using same by simp
    show "distinct (map (oid_key (kmem ?s)) (entries ?s))"
      unfolding keys using snmp_wfD(2) [OF assms(1)] assms(3) by simp
    show "distinct (owned ?s)"
      using snmp_wfD(5) [OF assms(1)] assms(3) unfolding owned_def ent' by auto
  qed (use snmp_wfD(3,4) [OF assms(1)] last(2) m rest ym len in
      \<open>auto simp: live_def no_oid_def null_entry_def\<close>)
  moreover have "oid_view ?s = butlast (oid_view s)"
    unfolding oid_view_def ent' assms(3) using same by simp
  ultimately show ?thesis using st by (simp add: ar_snmp_recv_agent_config_def)
qed

theorem snmp_delete_last_witness:
  "\<exists>s'. ar_snmp_recv_agent_config 5 (Some (demo_oid 5 6)) demo_snmp = Inr (0, s') \<and>
     snmp_wf s' \<and> oid_view s' = [([1, 3, 6], 3, 3, [2, 1, 10])] \<and> kmem s' 5 = None \<and> kmem s' 6 = None"
proof -
  have "str_live (kmem demo_snmp) (oidVal (demo_oid 5 6))" and "entries demo_snmp = [demo_oid 3 4] @ [demo_oid 5 6]"
    by (simp_all add: demo_snmp_simps)
  from snmp_delete_last [OF demo_snmp_wf this] show ?thesis
    by (auto simp: demo_snmp_view)
qed

text \<open>
  Claim C24.  Deleting any other entry corrupts the database: the entry that was last is still
  listed but its blocks have been released, the blocks of the deleted entry are not, and the
  next request to create an entry with a new identifier reads released memory.
\<close>

theorem snmp_delete_inner_dangles:
  assumes "snmp_wf s" and "str_live (kmem s) (oidVal e)"
    and "entries s = ys @ d # zs @ [x]" and "oid_key (kmem s) d = oid_key (kmem s) e"
    and "str_live (kmem s) (oidVal p)" and "oidVal p \<notin> set (owned s)"
    and "oid_key (kmem s) p \<notin> fst ` set (oid_view s)"
  shows "\<exists>s'. ar_snmp_recv_agent_config (snmp_cmd DELETE_SNMP_ENTRY) (Some e) s = Inr (0, s') \<and>
    entries s' = ys @ zs @ [x] \<and> kmem s' (oidVal x) = None \<and> kmem s' (resVal x) = None \<and>
    live (kmem s') (oidVal d) \<and> live (kmem s') (resVal d) \<and>
    ar_snmp_recv_agent_config (snmp_cmd CREATE_SNMP_ENTRY) (Some p) s' = Inl UseAfterFree"
proof -
  obtain es where es: "ar_snmp_entity s = TArr es" using snmp_wfE [OF assms(1)] by metis
  let ?m = "oid_table_size (ar_snmp_db s) - 1" and ?h = "(kmem s)(oidVal x := None, resVal x := None)"
  have known: "oid_key (kmem s) e \<in> oid_key (kmem s) ` set (entries s)"
    using assms(3,4) by (metis image_eqI in_set_conv_decomp)
  have "oid_key (kmem s) y \<noteq> oid_key (kmem s) e" if "y \<in> set ys" for y
    using snmp_wfD(2) [OF assms(1)] imageI [OF that, of "oid_key (kmem s)"] assms(3,4) by auto
  then have fp: "first_pos (\<lambda>y. oid_key (kmem s) y = oid_key (kmem s) e) (entries s) = length ys"
    using assms(3,4) by (simp add: first_pos_append)
  note del = snmp_delete_at [OF assms(1,2) es known, unfolded fp]
  then have m: "?m < length es" and ent: "ys @ d # zs @ [x] = take (Suc ?m) es" using assms(3) by auto
  have lm: "?m = length ys + Suc (length zs)"
    using arg_cong [OF ent, of length] m by simp
  have split: "es = ys @ d # zs @ x # drop (Suc ?m) es"
    using append_take_drop_id [of "Suc ?m" es] ent by (metis append.assoc append_Cons append_Nil)
  let ?s = "s\<lparr>kmem := ?h, ar_snmp_entity := TArr (ys @ zs @ x # null_entry # drop (Suc ?m) es),
              ar_snmp_db := (ar_snmp_db s)\<lparr>oid_table_size := ?m\<rparr>\<rparr>"
  have pieces: "take (length ys) es = ys" "take (?m - length ys) (drop (Suc (length ys)) es) = zs @ [x]"
    "es ! ?m = x"
    using lm by (subst split; simp add: nth_append)+
  have st: "snmp_delete e s = Inr ?s" using del pieces by simp
  have ent': "entries ?s = ys @ zs @ [x]" using lm by (simp add: entries_def)
  have split': "entries s = (ys @ d # zs) @ [x]" using assms(3) by simp
  note last = wf_last_entry [OF assms(1) split']
  have lived: "entry_live (kmem s) y" if "y \<in> set (entries s)" for y
    using snmp_wfD(1) [OF assms(1)] that by (simp add: list_all_iff)
  have same: "entry_live ?h y \<and> oid_key ?h y = oid_key (kmem s) y" if "y \<in> set (ys @ d # zs)" for y
    using key_after_free [of y "oidVal x" "resVal x" "kmem s"] last(1) [OF that] lived [of y] that
    by (auto simp: assms(3))
  have x: "oidVal x \<noteq> 0" and po: "oidVal p \<noteq> oidVal x" "oidVal p \<noteq> resVal x"
    using lived [of x] assms(3,6) by (auto simp: entry_live_def str_live_def live_def owned_def)
  have p: "str_live ?h (oidVal p)" "cstr_val (block ?h (oidVal p)) = oid_key (kmem s) p"
    using assms(5) po by (auto simp: str_live_def live_def block_def oid_key_def)
  have miss: "same_oid ?h (oidVal p) (oidVal y) = Inr False" if "y \<in> set (ys @ zs)" for y
  proof -
    have y: "y \<in> set (ys @ d # zs)" using that by auto
    then have "oid_key (kmem s) y \<in> oid_key (kmem s) ` set (entries s)"
      using assms(3) by auto
    then have "oid_key (kmem s) y \<noteq> oid_key (kmem s) p"
      using assms(7) unfolding view_keys by metis
    then show ?thesis
      using same_oid_live [OF p(1), of "oidVal y"] same [OF y] p(2)
      by (auto simp: entry_live_def oid_key_def)
  qed
  have dang: "same_oid ?h (oidVal p) (oidVal x) = Inl UseAfterFree"
    using p(1) x by (simp add: same_oid_def str_live_def kread_live kread_freed)
  have "scan (\<lambda>e. same_oid ?h (oidVal p) (oidVal e))
      (TArr (ys @ zs @ x # null_entry # drop (Suc ?m) es)) 0 ?m = Inl UseAfterFree"
    by (rule scan_fault [where j = "length (ys @ zs)"]) (use miss dang lm in \<open>auto simp: nth_append\<close>)
  then have "ar_snmp_get_index p ?s = Inl UseAfterFree" by (simp add: ar_snmp_get_index_def)
  then have "snmp_create p ?s = Inl UseAfterFree" by (simp add: snmp_create_def)
  moreover have "live ?h (oidVal d)" "live ?h (resVal d)"
    using same [of d] by (auto simp: entry_live_def str_live_def)
  ultimately show ?thesis using st ent' by (simp add: ar_snmp_recv_agent_config_def)
qed

theorem snmp_delete_inner_dangles_witness:
  "\<exists>s'. ar_snmp_recv_agent_config 5 (Some (demo_oid 3 4)) demo_snmp = Inr (0, s') \<and>
     entries s' = [demo_oid 5 6] \<and> kmem s' 5 = None \<and> kmem s' 6 = None \<and>
     ar_snmp_recv_agent_config 4 (Some (demo_oid 7 8)) s' = Inl UseAfterFree"
proof -
  have "str_live (kmem demo_snmp) (oidVal (demo_oid 3 4))"
    and "entries demo_snmp = [] @ demo_oid 3 4 # [] @ [demo_oid 5 6]"
    and "oid_key (kmem demo_snmp) (demo_oid 3 4) = oid_key (kmem demo_snmp) (demo_oid 3 4)"
    and "str_live (kmem demo_snmp) (oidVal (demo_oid 7 8))"
    and "oidVal (demo_oid 7 8) \<notin> set (owned demo_snmp)"
    and "oid_key (kmem demo_snmp) (demo_oid 7 8) \<notin> fst ` set (oid_view demo_snmp)"
    by (simp_all add: demo_snmp_simps)
  from snmp_delete_inner_dangles [OF demo_snmp_wf this] show ?thesis by auto
qed

text \<open>Initialisation when the allocator serves both community strings.\<close>

lemma snmp_init_made:
  assumes kz: "kz 0" and p: "kzalloc pick h 64 = (p, h(p \<mapsto> replicate 64 0))" "p \<noteq> 0"
    and q: "kzalloc pick (h(p \<mapsto> replicate 64 0)) 64 = (q, h(p \<mapsto> replicate 64 0, q \<mapsto> replicate 64 0))"
      "q \<noteq> 0" "q \<noteq> p"
    and free: "h p = None" "h q = None"
  shows "\<exists>s'. ar_snmp_init_db (Some m) kz pick (snmp_boot h) = Inr (0, s') \<and> snmp_wf s' \<and> oid_view s' = [] \<and>
    heap_grows h 2 (kmem s') \<and>
    ar_snmp_tblsize s' = max_num_of_snmp_oid_entries m \<and> oid_table (ar_snmp_db s') = Some Snmp_Entity \<and>
    control (ar_snmp_db s') = 0 \<and>
    comm_text (block (kmem s') (community_read_write_string (ar_snmp_db s'))) = Some (bytes_of ''private'') \<and>
    comm_text (block (kmem s') (community_read_only_string (ar_snmp_db s'))) = Some (bytes_of ''public'') \<and>
    length (block (kmem s') (community_read_write_string (ar_snmp_db s'))) = 64 \<and>
    length (block (kmem s') (community_read_only_string (ar_snmp_db s'))) = 64"
proof -
  let ?h2 = "h(p \<mapsto> replicate 64 0, q \<mapsto> replicate 64 0)"
  have u: "unat (7 :: u8) = 7" "unat (6 :: u8) = 6" by simp_all
  have "live ?h2 p" "block ?h2 p = replicate 64 0" using p q(3) by simp_all
  then obtain b where b: "comm_store p 7 (bytes_of ''private'') ?h2 = Inr (?h2(p \<mapsto> b))"
    "comm_text b = Some (bytes_of ''private'')" "length b = 64"
    using comm_store_text [of ?h2 p 7 "bytes_of ''private''"] by (auto simp: bytes_of_def)
  have "live (?h2(p \<mapsto> b)) q" "block (?h2(p \<mapsto> b)) q = replicate 64 0" using q by simp_all
  then obtain c where c: "comm_store q 6 (bytes_of ''public'') (?h2(p \<mapsto> b)) = Inr (?h2(p \<mapsto> b, q \<mapsto> c))"
    "comm_text c = Some (bytes_of ''public'')" "length c = 64"
    using comm_store_text [of "?h2(p \<mapsto> b)" q 6 "bytes_of ''public''"] by (auto simp: bytes_of_def)
  let ?db = "\<lparr>community_read_write_string = p, community_read_only_string = q, control = 0,
    max_snmp_msg_length = max_num_of_snmp_char m, oid_table_size = 0, oid_table = Some Snmp_Entity\<rparr>"
  let ?s = "\<lparr>kmem = ?h2(p \<mapsto> b, q \<mapsto> c), ar_snmp_tblsize = max_num_of_snmp_oid_entries m,
    ar_snmp_entity = TArr (replicate (unat (max_num_of_snmp_oid_entries m)) null_entry),
    ar_snmp_db = ?db\<rparr>"
  have run: "ar_snmp_init_db (Some m) kz pick (snmp_boot h) = Inr (0, ?s)"
    by (simp only: ar_snmp_init_db_def snmp_boot_def AR_SNMP_MAX_COMM_LENGTH_def zero_snmp_db_def
        Let_def option.case snmp_state.simps snmp_state.update_convs auto_res_snmp_db.update_convs
        kz p q prod.case b(1) c(1) rbind_Inr if_True if_False simp_thms
        tblptr.distinct snmp_state.select_convs)
  have "snmp_wf ?s"
    using p q by (simp add: snmp_wf_def entries_def owned_def list_all_iff no_oid_def null_entry_def live_def)
  moreover have "heap_grows h 2 (?h2(p \<mapsto> b, q \<mapsto> c))"
  proof -
    have "heap_grows h 1 (h(p \<mapsto> b))" unfolding One_nat_def by (rule heap_grows_new [where h' = h, OF heap_grows_refl free(1) p(2)])
    moreover have "(h(p \<mapsto> b)) q = None" using free(2) q(3) by simp
    ultimately have "heap_grows h (Suc 1) (h(p \<mapsto> b, q \<mapsto> c))" using q(2) by (rule heap_grows_new)
    then show ?thesis using q(3) by (simp add: fun_upd_twist numeral_2_eq_2)
  qed
  ultimately show ?thesis
    using q(3) by - (rule exI [of _ ?s], simp add: run oid_view_def entries_def b(2,3) c(2,3))
qed

text \<open>Initialisation, for every behaviour of the allocator.\<close>

lemma snmp_init_result:
  assumes "alloc_fresh pick" and "kz 0"
  shows "\<exists>s'. ar_snmp_init_db (Some m) kz pick (snmp_boot h) = Inr (0, s') \<and>
    (if oid_table (ar_snmp_db s') \<noteq> None
     then snmp_wf s' \<and> oid_view s' = [] \<and>
       ar_snmp_tblsize s' = max_num_of_snmp_oid_entries m \<and>
       comm_text (block (kmem s') (community_read_write_string (ar_snmp_db s'))) = Some (bytes_of ''private'') \<and>
       comm_text (block (kmem s') (community_read_only_string (ar_snmp_db s'))) = Some (bytes_of ''public'')
     else community_read_only_string (ar_snmp_db s') = 0)"
proof -
  consider (fail) "kzalloc pick h 64 = (0, h)"
    | (ok) p where "kzalloc pick h 64 = (p, h(p \<mapsto> replicate 64 0))" "p \<noteq> 0" "h p = None"
    using kzalloc_disj [OF assms(1), of h 64] by blast
  then show ?thesis
  proof cases
  case fail
  with assms(2) show ?thesis
    by (simp add: ar_snmp_init_db_def snmp_boot_def AR_SNMP_MAX_COMM_LENGTH_def zero_snmp_db_def Let_def)
next
  case (ok p)
  let ?h1 = "h(p \<mapsto> replicate 64 0)"
  show ?thesis
  proof -
  consider (fail2) "kzalloc pick ?h1 64 = (0, ?h1)"
    | (ok2) q where "kzalloc pick ?h1 64 = (q, ?h1(q \<mapsto> replicate 64 0))" "q \<noteq> 0" "?h1 q = None"
    using kzalloc_disj [OF assms(1), of ?h1 64] by blast
  then show ?thesis
  proof cases
    case fail2
    with ok assms(2) show ?thesis
      by (simp add: ar_snmp_init_db_def snmp_boot_def AR_SNMP_MAX_COMM_LENGTH_def zero_snmp_db_def
          Let_def kfree_def)
  next
    case (ok2 q)
    then have "q \<noteq> p" and "h q = None" by (auto split: if_splits)
    from snmp_init_made [where kz = kz, OF assms(2) ok(1,2) ok2(1,2) this(1) ok(3) this(2), of m] show ?thesis by auto
  qed
  qed
  qed
qed

text \<open>
  Initialisation: the status is always 0.  When the allocator serves both requests
  the database is well-formed and empty and the community strings read as \<open>private\<close> and
  \<open>public\<close>; when it does not, the status is the same but no read-only string is available.
\<close>

theorem snmp_init_outcome:
  assumes "alloc_fresh pick" and "kz 0"
  shows "\<exists>s'. ar_snmp_init_db (Some m) kz pick (snmp_boot h) = Inr (0, s') \<and>
    (if oid_table (ar_snmp_db s') \<noteq> None
     then snmp_wf s' \<and> oid_view s' = [] \<and>
       ar_snmp_tblsize s' = max_num_of_snmp_oid_entries m \<and>
       comm_text (block (kmem s') (community_read_write_string (ar_snmp_db s'))) = Some (bytes_of ''private'') \<and>
       comm_text (block (kmem s') (community_read_only_string (ar_snmp_db s'))) = Some (bytes_of ''public'')
     else community_read_only_string (ar_snmp_db s') = 0)"
  using assms by (rule snmp_init_result)

theorem snmp_init_outcome_witness:
  "\<exists>s'. ar_snmp_init_db (Some demo_sizes) (\<lambda>_. True) demo_pick (snmp_boot Map.empty) = Inr (0, s') \<and>
    (if oid_table (ar_snmp_db s') \<noteq> None then snmp_wf s' \<and> ar_snmp_tblsize s' = 3
     else community_read_only_string (ar_snmp_db s') = 0)"
  using snmp_init_outcome [OF demo_pick_fresh, of "\<lambda>_. True" demo_sizes Map.empty]
  by (auto simp: demo_sizes_def split: if_splits)

end
