(* ===== verification/AR_SnmpIoctl.thy ===== *)
theory AR_SnmpIoctl
  imports AR_Snmp
begin

text \<open>
  The command interface of the SNMP device, \<open>ar_interface_ioctl\<close> of
  \<open>armodule/source/arctrl_snmptool.c\<close>: blocks for the argument are allocated, filled from user
  memory and handed to the SNMP database, which keeps them.
\<close>

section \<open>User memory\<close>

text \<open>The entries a process has in its memory; their addresses point into \<open>um_bytes\<close>.\<close>

record snmp_user_mem = user_mem +
  um_entry :: "nat \<Rightarrow> auto_res_snmp_e option"

definition copy_entry :: "'z snmp_user_mem_scheme \<Rightarrow> nat \<Rightarrow> auto_res_snmp_e option" where
  "copy_entry um p = (if um_access um p then um_entry um p else None)"

text \<open>
  Filling the block at \<open>p\<close> from user memory: the flag says whether the copy succeeded.
\<close>

definition fill_block ::
    "'z user_mem_scheme \<Rightarrow> addr \<Rightarrow> nat \<Rightarrow> nat \<Rightarrow> kheap \<Rightarrow> (bool \<times> kheap) res" where
  "fill_block um p src n h =
     rbind (kread p h) (\<lambda>b.
     rbind (copy_from_user um b src n) (\<lambda>r.
     Inr (case r of None \<Rightarrow> (False, h) | Some b \<Rightarrow> (True, h(p \<mapsto> b)))))"

section \<open>The ioctl\<close>

text \<open>Every early return leaves the blocks allocated so far unreleased.\<close>

definition ioctl_create ::
    "'z snmp_user_mem_scheme \<Rightarrow> allocator \<Rightarrow> u32 \<Rightarrow> nat \<Rightarrow> snmp_state \<Rightarrow> (int \<times> snmp_state) res" where
  "ioctl_create um pick cmd arg s =
     (case copy_entry um arg of
        None \<Rightarrow> Inr (- errno_code EFAULT, s)
      | Some pUsrArg \<Rightarrow>
        let (po, h) = kzalloc pick (kmem s) 128 in
        if po = 0 then Inr (- ar_code AR_MEMORY_UNAVALABLE_ERROR, s\<lparr>kmem := h\<rparr>)
        else rbind (fill_block um po (oidVal pUsrArg) 128 h) (\<lambda>(ok, h).
        if \<not> ok then Inr (- errno_code EFAULT, s\<lparr>kmem := h\<rparr>)
        else let (pr, h) = kzalloc pick h 132 in
        if pr = 0 then Inr (ar_code AR_MEMORY_UNAVALABLE_ERROR, s\<lparr>kmem := h\<rparr>)
        else rbind (fill_block um pr (resVal pUsrArg) 132 h) (\<lambda>(ok, h).
        if \<not> ok then Inr (- errno_code EFAULT, s\<lparr>kmem := h\<rparr>)
        else ar_snmp_recv_agent_config cmd
               (Some (pUsrArg\<lparr>oidVal := po, resVal := pr\<rparr>)) (s\<lparr>kmem := h\<rparr>))))"

definition ioctl_comm ::
    "'z user_mem_scheme \<Rightarrow> allocator \<Rightarrow> u32 \<Rightarrow> nat \<Rightarrow> snmp_state \<Rightarrow> (int \<times> snmp_state) res" where
  "ioctl_comm um pick cmd arg s =
     (let (p, h) = kzalloc pick (kmem s) 16 in
      if p = 0 then Inr (- ar_code AR_MEMORY_UNAVALABLE_ERROR, s\<lparr>kmem := h\<rparr>)
      else rbind (fill_block um p arg 16 h) (\<lambda>(ok, h).
      if \<not> ok then Inr (- errno_code EFAULT, s\<lparr>kmem := h\<rparr>)
      else rbind (ar_snmp_config_comm_str cmd p (s\<lparr>kmem := h\<rparr>)) (\<lambda>s. Inr (0, s))))"

text \<open>The block is released by \<open>ar_snmp_config_getall_flag_str\<close> and once more by its caller.\<close>

definition ioctl_getall ::
    "'z user_mem_scheme \<Rightarrow> allocator \<Rightarrow> nat \<Rightarrow> snmp_state \<Rightarrow> (int \<times> snmp_state) res" where
  "ioctl_getall um pick arg s =
     (let (p, h) = kzalloc pick (kmem s) 1 in
      if p = 0 then Inr (- ar_code AR_MEMORY_UNAVALABLE_ERROR, s\<lparr>kmem := h\<rparr>)
      else rbind (fill_block um p arg 1 h) (\<lambda>(ok, h).
      if \<not> ok then Inr (- errno_code EFAULT, s\<lparr>kmem := h\<rparr>)
      else rbind (ar_snmp_config_getall_flag_str p (s\<lparr>kmem := h\<rparr>)) (\<lambda>s.
           rbind (kfree p (kmem s)) (\<lambda>h. Inr (0, s\<lparr>kmem := h\<rparr>)))))"

definition ar_interface_ioctl ::
    "'z snmp_user_mem_scheme \<Rightarrow> allocator \<Rightarrow> u32 \<Rightarrow> nat \<Rightarrow> snmp_state \<Rightarrow> (int \<times> snmp_state) res" where
  "ar_interface_ioctl um pick cmd arg s =
     (if cmd = snmp_cmd CREATE_SNMP_ENTRY then ioctl_create um pick cmd arg s
      else if cmd = snmp_cmd CONFIG_SNMP_PUB_COMM then ioctl_comm um pick cmd arg s
      else if cmd = snmp_cmd CONFIG_SNMP_PRIV_COMM then ioctl_comm um pick cmd arg s
      else if cmd = snmp_cmd CONFIG_SNMP_GETALL_FLAG then ioctl_getall um pick arg s
      else Inr (- errno_code EBADRQC, s))"

section \<open>Lemmas\<close>

text \<open>What a process offers: readable ranges, and the contents a request would store.\<close>

definition readable :: "'z user_mem_scheme \<Rightarrow> nat \<Rightarrow> nat \<Rightarrow> bool" where
  "readable um p n \<longleftrightarrow> um_access um p \<and> n \<le> length (um_bytes um p)"

definition user_item :: "'z snmp_user_mem_scheme \<Rightarrow> nat \<Rightarrow> u8 list \<times> u16 \<times> u16 \<times> u8 list" where
  "user_item um arg =
     (case um_entry um arg of
        None \<Rightarrow> ([], 0, 0, [])
      | Some u \<Rightarrow> (cstr_val (take 128 (um_bytes um (oidVal u))), oidSize u, resSize u,
                   take 132 (um_bytes um (resVal u))))"

text \<open>An identifier of the request has its NUL within the 128 bytes copied.\<close>

definition oid_ends :: "'z snmp_user_mem_scheme \<Rightarrow> nat \<Rightarrow> bool" where
  "oid_ends um arg \<longleftrightarrow>
     (case copy_entry um arg of
        None \<Rightarrow> True
      | Some u \<Rightarrow> has_nul (take 128 (um_bytes um (oidVal u))) \<or> \<not> readable um (oidVal u) 128)"

lemma fill_block_eq:
  "p \<noteq> 0 \<Longrightarrow> fill_block um p src n (h(p \<mapsto> replicate n 0)) =
     Inr (if readable um src n then (True, h(p \<mapsto> take n (um_bytes um src)))
          else (False, h(p \<mapsto> replicate n 0)))"
  by (auto simp: fill_block_def kread_def copy_from_user_def readable_def)

lemma owned_live: "snmp_wf s \<Longrightarrow> a \<in> set (owned s) \<Longrightarrow> live (kmem s) a"
  using snmp_wfD [of s] by (auto simp: owned_def list_all_iff entry_live_def str_live_def)

text \<open>The database does not notice blocks it does not own.\<close>

lemma snmp_wf_frame:
  assumes "snmp_wf s" and "\<And>a. a \<in> set (owned s) \<Longrightarrow> h a = kmem s a"
  shows "snmp_wf (s\<lparr>kmem := h\<rparr>)" and "oid_view (s\<lparr>kmem := h\<rparr>) = oid_view s"
    and "owned (s\<lparr>kmem := h\<rparr>) = owned s"
proof -
  have ent: "entries (s\<lparr>kmem := h\<rparr>) = entries s" by (simp add: entries_def)
  have same: "entry_item h e = entry_item (kmem s) e \<and> entry_live h e = entry_live (kmem s) e \<and>
      oid_key h e = oid_key (kmem s) e" if "e \<in> set (entries s)" for e
    using that assms(2) [of "oidVal e"] assms(2) [of "resVal e"]
    by (simp add: owned_def entry_item_def entry_live_def oid_key_def str_live_def live_def block_def)
  obtain es where es: "ar_snmp_entity s = TArr es" "length es = unat (ar_snmp_tblsize s)"
    "oid_table_size (ar_snmp_db s) \<le> length es"
    "list_all no_oid (drop (oid_table_size (ar_snmp_db s)) es)"
    using snmp_wfE [OF assms(1)] by metis
  have keys: "map (oid_key h) (entries s) = map (oid_key (kmem s)) (entries s)"
    using same by simp
  show "owned (s\<lparr>kmem := h\<rparr>) = owned s" by (simp add: owned_def ent)
  show "oid_view (s\<lparr>kmem := h\<rparr>) = oid_view s" using same by (simp add: oid_view_def ent)
  show "snmp_wf (s\<lparr>kmem := h\<rparr>)"
    using es snmp_wfD [OF assms(1)] same assms(2)
    by (intro snmp_wfI [where es = es]) (auto simp: ent keys list_all_iff owned_def live_def)
qed

lemma unowned_new: "snmp_wf s \<Longrightarrow> kmem s p = None \<Longrightarrow> a \<in> set (owned s) \<Longrightarrow> a \<noteq> p"
  using owned_live [of s a] by (auto simp: live_def)

text \<open>With both blocks allocated and filled, the request is the insertion into the database.\<close>

lemma ioctl_create_filled:
  fixes u :: auto_res_snmp_e
  assumes wf: "snmp_wf s" and p: "kmem s p = None" and q: "kmem s q = None" "q \<noteq> p" "p \<noteq> 0" "q \<noteq> 0"
    and nul: "has_nul b"
  defines "e \<equiv> u\<lparr>oidVal := p, resVal := q\<rparr>"
  shows "\<exists>s'. ar_snmp_recv_agent_config (snmp_cmd CREATE_SNMP_ENTRY) (Some e)
        (s\<lparr>kmem := (kmem s)(p \<mapsto> b, q \<mapsto> c)\<rparr>) = Inr (0, s') \<and> snmp_wf s' \<and>
      ar_snmp_tblsize s' = ar_snmp_tblsize s \<and>
      oid_view s' = put (unat (ar_snmp_tblsize s)) (oid_view s) (cstr_val b, oidSize u, resSize u, c)"
proof -
  let ?h = "(kmem s)(p \<mapsto> b, q \<mapsto> c)"
  have same: "?h a = kmem s a" if "a \<in> set (owned s)" for a
    using unowned_new [OF wf p that] unowned_new [OF wf q(1) that] by simp
  note frame = snmp_wf_frame [where h = ?h, OF wf same]
  have un: "p \<notin> set (owned s)" "q \<notin> set (owned s)"
    using unowned_new [OF wf p] unowned_new [OF wf q(1)] by blast+
  have "str_live ?h p" "live ?h q" using q nul by (simp_all add: str_live_def live_def block_def)
  then have "fresh_entry (s\<lparr>kmem := ?h\<rparr>) e"
    using q(2) un by (simp add: fresh_entry_def entry_live_def e_def frame(3))
  moreover have "entry_item ?h e = (cstr_val b, oidSize u, resSize u, c)"
    using q(2) by (simp add: entry_item_def oid_key_def e_def)
  ultimately show ?thesis
    using snmp_create_put [OF frame(1), of e] frame(2)
    by (auto simp: ar_snmp_recv_agent_config_def)
qed

lemma ioctl_create_done:
  assumes wf: "snmp_wf s" and ends: "oid_ends um arg" and Some: "copy_entry um arg = Some u"
    and p: "kzalloc pick (kmem s) 128 = (p, (kmem s)(p \<mapsto> replicate 128 0))" "p \<noteq> 0" "kmem s p = None"
    and rd: "readable um (oidVal u) 128"
  defines "h2 \<equiv> (kmem s)(p \<mapsto> take 128 (um_bytes um (oidVal u)))"
  assumes q: "kzalloc pick h2 132 = (q, h2(q \<mapsto> replicate 132 0))" "q \<noteq> 0" "h2 q = None"
    and rd2: "readable um (resVal u) 132"
  shows "\<exists>s'. ioctl_create um pick (snmp_cmd CREATE_SNMP_ENTRY) arg s = Inr (0, s') \<and> snmp_wf s' \<and>
    ar_snmp_tblsize s' = ar_snmp_tblsize s \<and>
    oid_view s' = put (unat (ar_snmp_tblsize s)) (oid_view s) (user_item um arg)"
proof -
  let ?b = "take 128 (um_bytes um (oidVal u))" and ?c = "take 132 (um_bytes um (resVal u))"
  let ?h4 = "(kmem s)(p \<mapsto> ?b, q \<mapsto> ?c)"
  have qp: "q \<noteq> p" and qn: "kmem s q = None" using q(3) by (auto simp: h2_def split: if_splits)
  have f1: "fill_block um p (oidVal u) 128 ((kmem s)(p \<mapsto> replicate 128 0)) = Inr (True, h2)"
    using fill_block_eq [OF p(2), of um "oidVal u" 128] rd by (simp add: h2_def)
  have f2: "fill_block um q (resVal u) 132 (h2(q \<mapsto> replicate 132 0)) = Inr (True, ?h4)"
    using fill_block_eq [OF q(2), of um "resVal u" 132] rd2 by (simp add: h2_def)
  have "has_nul ?b" using ends rd Some by (simp add: oid_ends_def)
  from ioctl_create_filled [OF wf p(3) qn qp p(2) q(2) this, of u ?c] obtain s' where
    "ar_snmp_recv_agent_config (snmp_cmd CREATE_SNMP_ENTRY)
       (Some (u\<lparr>oidVal := p, resVal := q\<rparr>)) (s\<lparr>kmem := ?h4\<rparr>) = Inr (0, s')"
    "snmp_wf s'" "ar_snmp_tblsize s' = ar_snmp_tblsize s"
    "oid_view s' = put (unat (ar_snmp_tblsize s)) (oid_view s) (cstr_val ?b, oidSize u, resSize u, ?c)"
    by blast
  moreover have "user_item um arg = (cstr_val ?b, oidSize u, resSize u, ?c)"
    using Some by (simp add: user_item_def copy_entry_def split: if_splits)
  ultimately show ?thesis
    using f1 f2 p(1,2) q(1,2) by (simp add: ioctl_create_def Some del: snmp_cmd.simps)
qed

text \<open>
  Every outcome of a request to create an entry: it fails, with the blocks it has allocated by
  then, or both blocks are filled and handed to the database.
\<close>

definition create_blocks :: "'z snmp_user_mem_scheme \<Rightarrow> nat \<Rightarrow> int \<Rightarrow> nat" where
  "create_blocks um arg r =
     (if r = - ar_code AR_MEMORY_UNAVALABLE_ERROR then 0
      else if r = ar_code AR_MEMORY_UNAVALABLE_ERROR then 1
      else case copy_entry um arg of None \<Rightarrow> 0 | Some u \<Rightarrow> if readable um (oidVal u) 128 then 2 else 1)"

lemma ioctl_create_cases:
  assumes pick: "alloc_fresh pick"
  obtains (failed) r h where "ioctl_create um pick cmd arg s = Inr (r, s\<lparr>kmem := h\<rparr>)" and "r \<noteq> 0"
      and "heap_grows (kmem s) (create_blocks um arg r) h"
      and "\<not> (\<exists>u. copy_entry um arg = Some u \<and> readable um (oidVal u) 128 \<and> readable um (resVal u) 132) \<or>
        r \<in> {ar_code AR_MEMORY_UNAVALABLE_ERROR, - ar_code AR_MEMORY_UNAVALABLE_ERROR}"
  | (filled) u p q where "copy_entry um arg = Some u"
      and "readable um (oidVal u) 128" and "readable um (resVal u) 132"
      and "kmem s p = None" and "kmem s q = None" and "q \<noteq> p" and "p \<noteq> 0" and "q \<noteq> 0"
      and "heap_grows (kmem s) 2
        ((kmem s)(p \<mapsto> take 128 (um_bytes um (oidVal u)), q \<mapsto> take 132 (um_bytes um (resVal u))))"
      and "ioctl_create um pick cmd arg s = ar_snmp_recv_agent_config cmd (Some (u\<lparr>oidVal := p, resVal := q\<rparr>))
        (s\<lparr>kmem := (kmem s)(p \<mapsto> take 128 (um_bytes um (oidVal u)), q \<mapsto> take 132 (um_bytes um (resVal u)))\<rparr>)"
proof (cases "copy_entry um arg")
  case None
  then show thesis by (intro failed [of "- errno_code EFAULT" "kmem s"]) (simp_all add: ioctl_create_def create_blocks_def)
next
  case (Some u)
  note defs = ioctl_create_def Some create_blocks_def
  let ?b = "take 128 (um_bytes um (oidVal u))" and ?c = "take 132 (um_bytes um (resVal u))"
  show thesis
  proof (rule kzalloc_cases [OF pick, of "kmem s" 128])
    assume "kzalloc pick (kmem s) 128 = (0, kmem s)"
    then show thesis by (intro failed [of "- ar_code AR_MEMORY_UNAVALABLE_ERROR" "kmem s"]) (simp_all add: defs)
  next
    fix p
    let ?h1 = "(kmem s)(p \<mapsto> replicate 128 0)" and ?h2 = "(kmem s)(p \<mapsto> ?b)"
    assume p: "kzalloc pick (kmem s) 128 = (p, ?h1)" "p \<noteq> 0" "kmem s p = None"
    note one = heap_grows_new [where h' = "kmem s", OF heap_grows_refl p(3,2), unfolded One_nat_def [symmetric]]
    have f1: "fill_block um p (oidVal u) 128 ?h1 =
        Inr (if readable um (oidVal u) 128 then (True, ?h2) else (False, ?h1))"
      by (rule fill_block_eq [OF p(2)])
    show thesis
    proof (cases "readable um (oidVal u) 128")
      case False
      with f1 p one show thesis by (intro failed [of "- errno_code EFAULT" ?h1]) (simp_all add: defs)
    next
      case rd: True
      show thesis
      proof (rule kzalloc_cases [OF pick, of ?h2 132])
        assume "kzalloc pick ?h2 132 = (0, ?h2)"
        with rd f1 p one show thesis
          by (intro failed [of "ar_code AR_MEMORY_UNAVALABLE_ERROR" ?h2]) (simp_all add: defs)
      next
        fix q
        let ?h3 = "?h2(q \<mapsto> replicate 132 0)"
        assume q: "kzalloc pick ?h2 132 = (q, ?h3)" "q \<noteq> 0" "?h2 q = None"
        then have qp: "q \<noteq> p" and qn: "kmem s q = None" by (auto split: if_splits)
        note two = heap_grows_new [where h' = ?h2, OF one q(3,2)]
        have f2: "fill_block um q (resVal u) 132 ?h3 =
            Inr (if readable um (resVal u) 132 then (True, ?h2(q \<mapsto> ?c)) else (False, ?h3))"
          by (rule fill_block_eq [OF q(2)])
        show thesis
        proof (cases "readable um (resVal u) 132")
          case False
          with f2 q rd f1 p two show thesis
            by (intro failed [of "- errno_code EFAULT" ?h3]) (simp_all add: defs numeral_2_eq_2)
        next
          case True
          with f2 q rd f1 p two qp qn show thesis
            by (intro filled [of u p q]) (simp_all add: defs numeral_2_eq_2)
        qed
      qed
    qed
  qed
qed

text \<open>The database does not notice blocks allocated beside its own.\<close>

lemma snmp_wf_ext:
  assumes "snmp_wf s" and "heap_ext (kmem s) h"
  shows "snmp_wf (s\<lparr>kmem := h\<rparr>)" and "oid_view (s\<lparr>kmem := h\<rparr>) = oid_view s"
    and "owned (s\<lparr>kmem := h\<rparr>) = owned s"
proof -
  have "h a = kmem s a" if "a \<in> set (owned s)" for a
    using owned_live [OF assms(1) that] assms(2) by (simp add: heap_ext_def live_def)
  from snmp_wf_frame [OF assms(1) this]
  show "snmp_wf (s\<lparr>kmem := h\<rparr>)" and "oid_view (s\<lparr>kmem := h\<rparr>) = oid_view s"
    and "owned (s\<lparr>kmem := h\<rparr>) = owned s" by blast+
qed

lemma ioctl_create_put:
  assumes wf: "snmp_wf s" and pick: "alloc_fresh pick" and ends: "oid_ends um arg"
  shows "\<exists>r s'. ioctl_create um pick (snmp_cmd CREATE_SNMP_ENTRY) arg s = Inr (r, s') \<and> snmp_wf s' \<and>
    ar_snmp_tblsize s' = ar_snmp_tblsize s \<and>
    oid_view s' = (if r = 0 then put (unat (ar_snmp_tblsize s)) (oid_view s) (user_item um arg)
                   else oid_view s)"
proof (rule ioctl_create_cases [OF pick, of um "snmp_cmd CREATE_SNMP_ENTRY" arg s])
  fix r h
  assume "ioctl_create um pick (snmp_cmd CREATE_SNMP_ENTRY) arg s = Inr (r, s\<lparr>kmem := h\<rparr>)" and "r \<noteq> 0"
    and "heap_grows (kmem s) (create_blocks um arg r) h"
  then show ?thesis using snmp_wf_ext [OF wf heap_grows_ext] by simp
next
  fix u :: auto_res_snmp_e and p q
  assume u: "copy_entry um arg = Some u" "readable um (oidVal u) 128"
    and p: "kmem s p = None" "kmem s q = None" "q \<noteq> p" "p \<noteq> 0" "q \<noteq> 0"
    and run: "ioctl_create um pick (snmp_cmd CREATE_SNMP_ENTRY) arg s =
      ar_snmp_recv_agent_config (snmp_cmd CREATE_SNMP_ENTRY) (Some (u\<lparr>oidVal := p, resVal := q\<rparr>))
        (s\<lparr>kmem := (kmem s)(p \<mapsto> take 128 (um_bytes um (oidVal u)), q \<mapsto> take 132 (um_bytes um (resVal u)))\<rparr>)"
  have "has_nul (take 128 (um_bytes um (oidVal u)))" using ends u by (simp add: oid_ends_def)
  from ioctl_create_filled [OF wf p this, of u "take 132 (um_bytes um (resVal u))"] show ?thesis
    using run u(1) by (auto simp: user_item_def copy_entry_def split: if_splits)
qed

text \<open>The blocks in use after a request to create an entry.\<close>

lemma snmp_create_kmem: "snmp_create e s = Inr s' \<Longrightarrow> kmem s' = kmem s"
  by (auto simp: snmp_create_def rbind_eq_Inr split: if_splits)

lemma create_grows:
  assumes pick: "alloc_fresh pick" and run: "ioctl_create um pick (snmp_cmd CREATE_SNMP_ENTRY) arg s = Inr (r, s')"
  shows "heap_grows (kmem s) (create_blocks um arg r) (kmem s')"
proof (rule ioctl_create_cases [OF pick, of um "snmp_cmd CREATE_SNMP_ENTRY" arg s])
  fix r' h
  assume "ioctl_create um pick (snmp_cmd CREATE_SNMP_ENTRY) arg s = Inr (r', s\<lparr>kmem := h\<rparr>)"
    and "heap_grows (kmem s) (create_blocks um arg r') h"
  with run show ?thesis by auto
next
  fix u :: auto_res_snmp_e and p q
  let ?h = "(kmem s)(p \<mapsto> take 128 (um_bytes um (oidVal u)), q \<mapsto> take 132 (um_bytes um (resVal u)))"
  assume u: "copy_entry um arg = Some u" "readable um (oidVal u) 128" and new: "heap_grows (kmem s) 2 ?h"
    and fill: "ioctl_create um pick (snmp_cmd CREATE_SNMP_ENTRY) arg s =
      ar_snmp_recv_agent_config (snmp_cmd CREATE_SNMP_ENTRY) (Some (u\<lparr>oidVal := p, resVal := q\<rparr>)) (s\<lparr>kmem := ?h\<rparr>)"
  from trans [OF fill [symmetric] run]
  have "r = 0" and "snmp_create (u\<lparr>oidVal := p, resVal := q\<rparr>) (s\<lparr>kmem := ?h\<rparr>) = Inr s'"
    by (auto simp: ar_snmp_recv_agent_config_def rbind_eq_Inr)
  with snmp_create_kmem [OF this(2)] new u show ?thesis by (simp add: create_blocks_def)
qed

text \<open>With memory for two blocks, a request that can be read is accepted.\<close>

lemma ioctl_create_granted:
  assumes wf: "snmp_wf s" and pick: "alloc_fresh pick" and ends: "oid_ends um arg"
    and u: "copy_entry um arg = Some u" "readable um (oidVal u) 128" "readable um (resVal u) 132"
    and mem: "memory_left pick (kmem s) 2"
  shows "\<exists>s'. ioctl_create um pick (snmp_cmd CREATE_SNMP_ENTRY) arg s = Inr (0, s')"
proof -
  obtain p where p: "kzalloc pick (kmem s) 128 = (p, (kmem s)(p \<mapsto> replicate 128 0))" "p \<noteq> 0" "kmem s p = None"
    and one: "\<And>b. memory_left pick ((kmem s)(p \<mapsto> b)) 1"
    by (rule memory_left_kzalloc [OF pick, of "kmem s" 1 128]) (use mem in \<open>simp_all add: numeral_2_eq_2\<close>)
  let ?h = "(kmem s)(p \<mapsto> take 128 (um_bytes um (oidVal u)))"
  obtain q where q: "kzalloc pick ?h 132 = (q, ?h(q \<mapsto> replicate 132 0))" "q \<noteq> 0" "?h q = None"
    using one by (auto intro: memory_left_kzalloc [OF pick, of ?h 0 132])
  from ioctl_create_done [OF wf ends u(1) p u(2) q u(3)] show ?thesis by blast
qed

text \<open>The status of a request that can be read: only memory makes it fail.\<close>

lemma ioctl_create_status:
  assumes "alloc_fresh pick" and u: "copy_entry um arg = Some u" "readable um (oidVal u) 128" "readable um (resVal u) 132"
    and "ioctl_create um pick (snmp_cmd CREATE_SNMP_ENTRY) arg s = Inr (r, s')"
  shows "r \<in> {0, ar_code AR_MEMORY_UNAVALABLE_ERROR, - ar_code AR_MEMORY_UNAVALABLE_ERROR}"
proof (rule ioctl_create_cases [OF assms(1), of um "snmp_cmd CREATE_SNMP_ENTRY" arg s])
  fix r' h
  assume "ioctl_create um pick (snmp_cmd CREATE_SNMP_ENTRY) arg s = Inr (r', s\<lparr>kmem := h\<rparr>)"
    and "\<not> (\<exists>u. copy_entry um arg = Some u \<and> readable um (oidVal u) 128 \<and> readable um (resVal u) 132) \<or>
      r' \<in> {ar_code AR_MEMORY_UNAVALABLE_ERROR, - ar_code AR_MEMORY_UNAVALABLE_ERROR}"
  with u assms(5) show ?thesis by auto
next
  fix v :: auto_res_snmp_e and p q
  let ?h = "(kmem s)(p \<mapsto> take 128 (um_bytes um (oidVal v)), q \<mapsto> take 132 (um_bytes um (resVal v)))"
  assume "ioctl_create um pick (snmp_cmd CREATE_SNMP_ENTRY) arg s =
      ar_snmp_recv_agent_config (snmp_cmd CREATE_SNMP_ENTRY) (Some (v\<lparr>oidVal := p, resVal := q\<rparr>)) (s\<lparr>kmem := ?h\<rparr>)"
  from trans [OF this [symmetric] assms(5)] show ?thesis by (auto simp: ar_snmp_recv_agent_config_def rbind_eq_Inr)
qed

section \<open>Community strings\<close>

text \<open>The string a command configures.\<close>

definition comm_ptr :: "u32 \<Rightarrow> snmp_state \<Rightarrow> addr" where
  "comm_ptr cmd s =
     (if cmd = snmp_cmd CONFIG_SNMP_PRIV_COMM then community_read_write_string (ar_snmp_db s)
      else community_read_only_string (ar_snmp_db s))"

definition comm_cmd :: "u32 \<Rightarrow> bool" where
  "comm_cmd cmd \<longleftrightarrow> cmd \<in> {snmp_cmd CONFIG_SNMP_PRIV_COMM, snmp_cmd CONFIG_SNMP_PUB_COMM}"

lemma terminate_id: "live h p \<Longrightarrow> has_nul (block h p) \<Longrightarrow> terminate p h = Inr h"
proof -
  assume p: "live h p" and nul: "has_nul (block h p)"
  let ?n = "length (cstr_val (block h p))"
  have "block h p ! ?n = 0"
    using nul nth_length_takeWhile [of "\<lambda>b. b \<noteq> 0" "block h p"] cstr_val_length [OF nul]
    by (simp add: cstr_val_def)
  then have "buf_set (block h p) ?n 0 = Inr (block h p)"
    using cstr_val_length [OF nul] by (metis buf_set_in list_update_id)
  moreover have "h(p \<mapsto> block h p) = h" using p by (auto simp: live_def block_def)
  ultimately show ?thesis using kread_live [OF p] c_strlen_eq [OF nul] by (simp add: terminate_def)
qed

text \<open>Exchanging one community string for a fresh block keeps the database well-formed.\<close>

lemma comm_swap:
  assumes wf: "snmp_wf s" and p: "kmem s p = None" "p \<noteq> 0"
    and db: "entries s' = entries s" "ar_snmp_entity s' = ar_snmp_entity s"
      "ar_snmp_tblsize s' = ar_snmp_tblsize s" "oid_table_size (ar_snmp_db s') = oid_table_size (ar_snmp_db s)"
    and swap: "(community_read_write_string (ar_snmp_db s'), community_read_only_string (ar_snmp_db s'), old)
      \<in> {(p, community_read_only_string (ar_snmp_db s), community_read_write_string (ar_snmp_db s)),
         (community_read_write_string (ar_snmp_db s), p, community_read_only_string (ar_snmp_db s))}"
    and h: "kmem s' = (kmem s)(p \<mapsto> b, old := None)"
  shows "snmp_wf s'" and "oid_view s' = oid_view s"
proof -
  have "p \<notin> set (owned s)" using unowned_new [OF wf p(1)] by blast
  then have "p \<notin> oidVal ` set (entries s) \<union> resVal ` set (entries s)" by (simp add: owned_def)
  moreover have "old \<notin> oidVal ` set (entries s) \<union> resVal ` set (entries s)"
    using snmp_wfD(5) [OF wf] swap by (auto simp: owned_def simp del: image_iff)
  ultimately have un: "\<And>e. e \<in> set (entries s) \<Longrightarrow> oidVal e \<notin> {p, old} \<and> resVal e \<notin> {p, old}"
    by blast
  have same: "entry_item (kmem s') e = entry_item (kmem s) e \<and>
      entry_live (kmem s') e = entry_live (kmem s) e \<and> oid_key (kmem s') e = oid_key (kmem s) e"
    if "e \<in> set (entries s)" for e
    using un [OF that]
    by (auto simp: h entry_item_def entry_live_def oid_key_def str_live_def live_def block_def)
  obtain es where es: "ar_snmp_entity s = TArr es" "length es = unat (ar_snmp_tblsize s)"
    "oid_table_size (ar_snmp_db s) \<le> length es"
    "list_all no_oid (drop (oid_table_size (ar_snmp_db s)) es)"
    using snmp_wfE [OF wf] by metis
  show "oid_view s' = oid_view s" using same by (simp add: oid_view_def db)
  show "snmp_wf s'"
  proof (rule snmp_wfI [where es = es])
    show "list_all (entry_live (kmem s')) (entries s')"
      using snmp_wfD(1) [OF wf] same by (auto simp: db list_all_iff)
    have "map (oid_key (kmem s')) (entries s') = map (oid_key (kmem s)) (entries s)"
      using same by (simp add: db)
    then show "distinct (map (oid_key (kmem s')) (entries s'))" using snmp_wfD(2) [OF wf] by simp
    have "distinct [community_read_write_string (ar_snmp_db s), community_read_only_string (ar_snmp_db s)]"
      using snmp_wfD(5) [OF wf] by (simp add: owned_def)
    then show "live (kmem s') (community_read_write_string (ar_snmp_db s'))"
      and "live (kmem s') (community_read_only_string (ar_snmp_db s'))"
      using swap snmp_wfD(3,4) [OF wf] p by (auto simp: h live_def)
    show "distinct (owned s')"
      using swap snmp_wfD(5) [OF wf] \<open>p \<notin> set (owned s)\<close>
      by (elim insertE emptyE) (simp_all add: owned_def db eq_commute [of p])
  qed (use es in \<open>simp_all add: db\<close>)
qed

definition comm_swapped :: "u32 \<Rightarrow> addr \<Rightarrow> u8 list \<Rightarrow> snmp_state \<Rightarrow> snmp_state" where
  "comm_swapped cmd p b s = s\<lparr>kmem := (kmem s)(p \<mapsto> b, comm_ptr cmd s := None),
     ar_snmp_db := (if cmd = snmp_cmd CONFIG_SNMP_PRIV_COMM then (ar_snmp_db s)\<lparr>community_read_write_string := p\<rparr>
                    else (ar_snmp_db s)\<lparr>community_read_only_string := p\<rparr>)\<rparr>"

lemma config_comm_run:
  assumes wf: "snmp_wf s" and p: "kmem s p = None" "p \<noteq> 0" and nul: "has_nul b" and cmd: "comm_cmd cmd"
  shows "ar_snmp_config_comm_str cmd p (s\<lparr>kmem := (kmem s)(p \<mapsto> b)\<rparr>) = Inr (comm_swapped cmd p b s)"
proof -
  let ?old = "comm_ptr cmd s"
  let ?h = "(kmem s)(p \<mapsto> b, ?old := None)"
  have old: "live (kmem s) ?old" using snmp_wfD(3,4) [OF wf] by (simp add: comm_ptr_def)
  then have po: "?old \<noteq> p" using p by (auto simp: live_def)
  have fr: "kfree ?old ((kmem s)(p \<mapsto> b)) = Inr ?h" using old po by (intro kfree_live) simp
  have tm: "terminate p ?h = Inr ?h"
    using p po nul by (intro terminate_id) (simp_all add: live_def block_def)
  show ?thesis
    using fr tm cmd by (auto simp: ar_snmp_config_comm_str_def comm_swapped_def comm_ptr_def comm_cmd_def)
qed

lemma comm_swapped_wf:
  assumes wf: "snmp_wf s" and p: "kmem s p = None" "p \<noteq> 0" and cmd: "comm_cmd cmd"
  shows "snmp_wf (comm_swapped cmd p b s)" and "oid_view (comm_swapped cmd p b s) = oid_view s"
    and "block (kmem (comm_swapped cmd p b s)) p = b"
proof -
  have "comm_ptr cmd s \<noteq> p" using p snmp_wfD(3,4) [OF wf] by (auto simp: comm_ptr_def live_def)
  then show "block (kmem (comm_swapped cmd p b s)) p = b" by (simp add: comm_swapped_def block_def)
  show "snmp_wf (comm_swapped cmd p b s)" and "oid_view (comm_swapped cmd p b s) = oid_view s"
    using comm_swap [OF wf p, of "comm_swapped cmd p b s" "comm_ptr cmd s" b] cmd
    by (auto simp: comm_swapped_def comm_cmd_def entries_def comm_ptr_def)
qed

lemma config_comm_swap:
  assumes wf: "snmp_wf s" and p: "kmem s p = None" "p \<noteq> 0" and nul: "has_nul b" and cmd: "comm_cmd cmd"
  shows "\<exists>s'. ar_snmp_config_comm_str cmd p (s\<lparr>kmem := (kmem s)(p \<mapsto> b)\<rparr>) = Inr s' \<and> snmp_wf s' \<and>
    ar_snmp_tblsize s' = ar_snmp_tblsize s \<and> oid_view s' = oid_view s \<and>
    comm_ptr cmd s' = p \<and> block (kmem s') p = b"
proof -
  have "comm_ptr cmd (comm_swapped cmd p b s) = p" by (simp add: comm_swapped_def comm_ptr_def)
  with config_comm_run [OF assms] comm_swapped_wf [OF wf p cmd, of b] show ?thesis
    by (intro exI [of _ "comm_swapped cmd p b s"]) (simp add: comm_swapped_def)
qed

lemma config_comm_unterminated:
  assumes wf: "snmp_wf s" and p: "kmem s p = None" "p \<noteq> 0" and nul: "\<not> has_nul b" and cmd: "comm_cmd cmd"
  shows "ar_snmp_config_comm_str cmd p (s\<lparr>kmem := (kmem s)(p \<mapsto> b)\<rparr>) = Inl OutOfBounds"
proof -
  let ?old = "comm_ptr cmd s"
  let ?h = "(kmem s)(p \<mapsto> b, ?old := None)"
  have old: "live (kmem s) ?old" using snmp_wfD(3,4) [OF wf] by (simp add: comm_ptr_def)
  then have po: "?old \<noteq> p" using p by (auto simp: live_def)
  have fr: "kfree ?old ((kmem s)(p \<mapsto> b)) = Inr ?h" using old po by (intro kfree_live) simp
  have "kread p ?h = Inr b" using p po by (simp add: kread_def)
  then have "terminate p ?h = Inl OutOfBounds" using c_strlen_no_nul [OF nul] by (simp add: terminate_def)
  with fr cmd show ?thesis
    by (auto simp: ar_snmp_config_comm_str_def comm_ptr_def comm_cmd_def)
qed

text \<open>
  Every outcome of a request to set a community string: it fails, with the block it has
  allocated by then, or the block it filled takes the place of the old one.
\<close>

definition comm_blocks :: "int \<Rightarrow> nat" where
  "comm_blocks r = (if r = - ar_code AR_MEMORY_UNAVALABLE_ERROR then 0 else 1)"

lemma ioctl_comm_cases:
  assumes wf: "snmp_wf s" and pick: "alloc_fresh pick" and cmd: "comm_cmd cmd"
    and ends: "has_nul (take 16 (um_bytes um arg)) \<or> \<not> readable um arg 16"
  obtains (failed) r h where "ioctl_comm um pick cmd arg s = Inr (r, s\<lparr>kmem := h\<rparr>)" and "r \<noteq> 0"
      and "heap_grows (kmem s) (comm_blocks r) h"
  | (swapped) p where "ioctl_comm um pick cmd arg s = Inr (0, comm_swapped cmd p (take 16 (um_bytes um arg)) s)"
      and "kmem s p = None" and "p \<noteq> 0" and "readable um arg 16"
proof (rule kzalloc_cases [OF pick, of "kmem s" 16])
  assume "kzalloc pick (kmem s) 16 = (0, kmem s)"
  then show thesis
    by (intro failed [of "- ar_code AR_MEMORY_UNAVALABLE_ERROR" "kmem s"]) (simp_all add: ioctl_comm_def comm_blocks_def)
next
  fix p
  let ?h = "(kmem s)(p \<mapsto> replicate 16 0)"
  assume p: "kzalloc pick (kmem s) 16 = (p, ?h)" "p \<noteq> 0" "kmem s p = None"
  note f = fill_block_eq [OF p(2), of um arg 16 "kmem s"]
  note one = heap_grows_new [where h' = "kmem s", OF heap_grows_refl p(3,2), unfolded One_nat_def [symmetric]]
  show thesis
  proof (cases "readable um arg 16")
    case False
    with f p one show thesis
      by (intro failed [of "- errno_code EFAULT" ?h]) (simp_all add: ioctl_comm_def comm_blocks_def)
  next
    case True
    with ends have "has_nul (take 16 (um_bytes um arg))" by simp
    from config_comm_run [OF wf p(3,2) this cmd] True f p show thesis
      by (intro swapped [of p]) (simp_all add: ioctl_comm_def)
  qed
qed

lemma ioctl_comm_result:
  assumes wf: "snmp_wf s" and pick: "alloc_fresh pick" and cmd: "comm_cmd cmd"
    and ends: "has_nul (take 16 (um_bytes um arg)) \<or> \<not> readable um arg 16"
  shows "\<exists>r s'. ioctl_comm um pick cmd arg s = Inr (r, s') \<and> snmp_wf s' \<and>
    ar_snmp_tblsize s' = ar_snmp_tblsize s \<and> oid_view s' = oid_view s \<and>
    (r \<noteq> 0 \<or> block (kmem s') (comm_ptr cmd s') = take 16 (um_bytes um arg))"
proof (rule ioctl_comm_cases [OF assms])
  fix r h
  assume "ioctl_comm um pick cmd arg s = Inr (r, s\<lparr>kmem := h\<rparr>)" and "r \<noteq> 0"
    and "heap_grows (kmem s) (comm_blocks r) h"
  then show ?thesis using snmp_wf_ext [OF wf heap_grows_ext] by simp
next
  fix p
  let ?b = "take 16 (um_bytes um arg)"
  assume "ioctl_comm um pick cmd arg s = Inr (0, comm_swapped cmd p ?b s)" and p: "kmem s p = None" "p \<noteq> 0"
  moreover have "comm_ptr cmd (comm_swapped cmd p ?b s) = p" "ar_snmp_tblsize (comm_swapped cmd p ?b s) = ar_snmp_tblsize s"
    by (simp_all add: comm_swapped_def comm_ptr_def)
  ultimately show ?thesis using comm_swapped_wf [OF wf p cmd, of ?b] by simp
qed

lemma ioctl_getall_result:
  assumes wf: "snmp_wf s" and pick: "alloc_fresh pick"
  shows "ioctl_getall um pick arg s = Inl DoubleFree \<or>
    (\<exists>r h. ioctl_getall um pick arg s = Inr (r, s\<lparr>kmem := h\<rparr>) \<and> r \<noteq> 0 \<and>
      (\<forall>a. kmem s a \<noteq> None \<longrightarrow> h a = kmem s a))"
proof -
  consider (fail) "kzalloc pick (kmem s) 1 = (0, kmem s)"
    | (ok) p where "kzalloc pick (kmem s) 1 = (p, (kmem s)(p \<mapsto> replicate 1 0))" "p \<noteq> 0" "kmem s p = None"
    using kzalloc_disj [OF pick, of "kmem s" 1] by blast
  then show ?thesis
  proof cases
    case fail
    then have "ioctl_getall um pick arg s = Inr (- 5, s\<lparr>kmem := kmem s\<rparr>)" by (simp add: ioctl_getall_def)
    then show ?thesis by (intro disjI2 exI [of _ "- 5"] exI [of _ "kmem s"]) simp
  next
    case (ok p)
    note f1 = fill_block_eq [OF ok(2), of um arg 1 "kmem s"]
    show ?thesis
    proof (cases "readable um arg 1")
      case False
      with f1 ok show ?thesis by (auto simp: ioctl_getall_def intro!: exI [of _ "(kmem s)(p \<mapsto> [0])"])
    next
      case True
      then obtain c r where "um_bytes um arg = c # r" by (cases "um_bytes um arg") (auto simp: readable_def)
      with True f1 ok show ?thesis
        by (simp add: ioctl_getall_def ar_snmp_config_getall_flag_str_def kread_def buf_get_def kfree_def)
    qed
  qed
qed

section \<open>The contract\<close>

text \<open>A request to create an entry, with the process's memory and the allocator it meets.\<close>

type_synonym snmp_request = "snmp_user_mem \<times> allocator \<times> nat"

fun create_request :: "snmp_request \<Rightarrow> snmp_state \<Rightarrow> (int \<times> snmp_state) res" where
  "create_request (um, pick, arg) s = ar_interface_ioctl um pick (snmp_cmd CREATE_SNMP_ENTRY) arg s"

fun request_item :: "snmp_request \<Rightarrow> u8 list \<times> u16 \<times> u16 \<times> u8 list" where
  "request_item (um, pick, arg) = user_item um arg"

fun request_ok :: "snmp_request \<Rightarrow> bool" where
  "request_ok (um, pick, arg) \<longleftrightarrow> alloc_fresh pick \<and> oid_ends um arg"

lemma oid_view_shape:
  "snmp_wf s \<Longrightarrow> distinct (map fst (oid_view s)) \<and> length (oid_view s) \<le> unat (ar_snmp_tblsize s)"
proof -
  assume wf: "snmp_wf s"
  have "length (entries s) \<le> unat (ar_snmp_tblsize s)"
    by (rule snmp_wfE [OF wf]) simp
  with snmp_wfD(2) [OF wf] show ?thesis by (simp add: oid_view_def comp_def)
qed

interpretation snmp_store: keyed_store create_request request_item oid_view
  "\<lambda>s. unat (ar_snmp_tblsize s)" snmp_wf request_ok
proof unfold_locales
  fix s e assume wf: "snmp_wf s" and ok: "request_ok e"
  obtain um pick arg where e: "e = (um, pick, arg)" by (cases e)
  from ok e have "alloc_fresh pick" and "oid_ends um arg" by simp_all
  from ioctl_create_put [OF wf this]
  show "\<exists>r s'. create_request e s = Inr (r, s') \<and> snmp_wf s' \<and>
      unat (ar_snmp_tblsize s') = unat (ar_snmp_tblsize s) \<and>
      oid_view s' = (if r = 0 then put (unat (ar_snmp_tblsize s)) (oid_view s) (request_item e)
                     else oid_view s)"
    by (auto simp: e ar_interface_ioctl_def)
next
  fix s assume "snmp_wf s"
  then show "distinct (map fst (oid_view s)) \<and> length (oid_view s) \<le> unat (ar_snmp_tblsize s)"
    by (rule oid_view_shape)
qed

text \<open>What every other request does to the database.\<close>

definition request_ends :: "'z snmp_user_mem_scheme \<Rightarrow> u32 \<Rightarrow> nat \<Rightarrow> bool" where
  "request_ends um cmd arg \<longleftrightarrow>
     (if cmd = snmp_cmd CREATE_SNMP_ENTRY then oid_ends um arg
      else if comm_cmd cmd then has_nul (take 16 (um_bytes um arg)) \<or> \<not> readable um arg 16
      else cmd \<noteq> snmp_cmd CONFIG_SNMP_GETALL_FLAG)"

lemma put_keeps: "fst ` set m \<subseteq> fst ` set (put room m kv)"
  by (auto simp: put_def dom_update)

lemma ioctl_step:
  assumes wf: "snmp_wf s" and pick: "alloc_fresh pick" and ends: "request_ends um cmd arg"
  shows "\<exists>r s'. ar_interface_ioctl um pick cmd arg s = Inr (r, s') \<and> snmp_wf s' \<and>
    ar_snmp_tblsize s' = ar_snmp_tblsize s \<and> fst ` set (oid_view s) \<subseteq> fst ` set (oid_view s')"
proof (cases "cmd = snmp_cmd CREATE_SNMP_ENTRY")
  case True
  with ends have "oid_ends um arg" by (simp add: request_ends_def)
  from ioctl_create_put [OF wf pick this] True show ?thesis
    by (auto simp: ar_interface_ioctl_def put_keeps split: if_splits)
next
  case nc: False
  show ?thesis
  proof (cases "comm_cmd cmd")
    case True
    with ends nc have "has_nul (take 16 (um_bytes um arg)) \<or> \<not> readable um arg 16"
      by (simp add: request_ends_def)
    from ioctl_comm_result [OF wf pick True this] True show ?thesis
      by (auto simp: ar_interface_ioctl_def comm_cmd_def)
  next
    case False
    with nc ends wf show ?thesis
      by (auto simp: ar_interface_ioctl_def request_ends_def comm_cmd_def)
  qed
qed

section \<open>Properties\<close>


definition demo_snmp_um :: snmp_user_mem where
  "demo_snmp_um = \<lparr>um_bytes = (\<lambda>p. if p = 100 then [1, 3, 9] @ replicate 125 0
                             else if p = 200 then [2, 1, 77] @ replicate 129 0
                             else if p = 300 then cstr ''secret'' @ replicate 9 0 else []),
     um_access = (\<lambda>p. p \<in> {50, 100, 200, 300}),
     um_entry = (\<lambda>p. if p = 50 then Some \<lparr>oidSize = 3, oidVal = 100, resSize = 3, resVal = 200\<rparr> else None)\<rparr>"

lemma demo_um_ends: "oid_ends demo_snmp_um 50"
  by (simp add: oid_ends_def copy_entry_def demo_snmp_um_def has_nul_def)

lemma demo_user_item: "user_item demo_snmp_um 50 = ([1, 3, 9], 3, 3, [2, 1, 77] @ replicate 129 0)"
  by (simp add: user_item_def demo_snmp_um_def cstr_val_def)

lemma demo_pick_some: "h p = None \<Longrightarrow> p \<in> set [1..<1000] \<Longrightarrow> demo_pick h n \<noteq> None"
  unfolding demo_pick_def find_None_iff by blast

lemma demo_free: "kmem demo_snmp 9 = None" "(9 :: nat) \<in> set [1..<1000]"
  by (simp_all add: demo_snmp_def demo_heap_def)

lemma demo_pick_ok:
  assumes "h p = None" and "p \<in> set [1..<1000]"
  obtains q where "kzalloc demo_pick h n = (q, h(q \<mapsto> replicate n 0))" "q \<noteq> 0" "h q = None"
proof -
  have "demo_pick h n \<noteq> None" using assms by (rule demo_pick_some)
  then obtain q where q: "demo_pick h n = Some q" by blast
  then have "q \<noteq> 0" and "h q = None" using demo_pick_fresh by (auto simp: alloc_fresh_def)
  with q that show ?thesis by (simp add: kzalloc_def)
qed

text \<open>The request of a process for which everything can be read, and room in the allocator.\<close>

lemma demo_create:
  assumes u: "copy_entry um 50 = Some \<lparr>oidSize = 3, oidVal = 100, resSize = 3, resVal = 200\<rparr>" (is "_ = Some ?u")
    and r: "readable um 100 128" "readable um 200 132" and ends: "oid_ends um 50"
  shows "\<exists>s'. create_request (um, demo_pick, 50) demo_snmp = Inr (0, s') \<and> snmp_wf s' \<and>
    oid_view s' = put 3 (oid_view demo_snmp) (user_item um 50)"
proof -
  from demo_free obtain p where p: "kzalloc demo_pick (kmem demo_snmp) 128 = (p, (kmem demo_snmp)(p \<mapsto> replicate 128 0))"
    "p \<noteq> 0" "kmem demo_snmp p = None" by (rule demo_pick_ok)
  let ?h = "(kmem demo_snmp)(p \<mapsto> take 128 (um_bytes um (oidVal ?u)))"
  have "?h 10 = None \<or> ?h 11 = None" by (simp add: demo_snmp_def demo_heap_def)
  then obtain n where "?h n = None" "n \<in> set [1..<1000]"
  proof
    assume a: "?h 10 = None"
    show thesis by (rule that [OF a]) simp
  next
    assume a: "?h 11 = None"
    show thesis by (rule that [OF a]) simp
  qed
  then obtain q where q: "kzalloc demo_pick ?h 132 = (q, ?h(q \<mapsto> replicate 132 0))" "q \<noteq> 0" "?h q = None"
    by (rule demo_pick_ok)
  have r': "readable um (oidVal ?u) 128" "readable um (resVal ?u) 132" using r by simp_all
  have "unat (ar_snmp_tblsize demo_snmp) = 3" by (simp add: demo_snmp_def)
  with ioctl_create_done [OF demo_snmp_wf ends u p r'(1) q r'(2)] show ?thesis
    by (auto simp: ar_interface_ioctl_def)
qed

lemma demo_request:
  "\<exists>s'. create_request (demo_snmp_um, demo_pick, 50) demo_snmp = Inr (0, s') \<and> snmp_wf s' \<and>
    oid_view s' = oid_view demo_snmp @ [([1, 3, 9], 3, 3, [2, 1, 77] @ replicate 129 0)]"
proof -
  have "copy_entry demo_snmp_um 50 = Some \<lparr>oidSize = 3, oidVal = 100, resSize = 3, resVal = 200\<rparr>"
    "readable demo_snmp_um 100 128" "readable demo_snmp_um 200 132"
    by (simp_all add: copy_entry_def demo_snmp_um_def readable_def)
  from demo_create [OF this demo_um_ends] show ?thesis
    by (simp add: demo_user_item demo_snmp_view put_def del: create_request.simps)
qed


text \<open>
  No sequence of device requests (other than the faulty \<open>CONFIG_SNMP_GETALL_FLAG\<close>)
  breaks the database or removes an identifier from it: whatever the allocator and the user
  copies do, the invariant holds after it and every identifier is still there.  In particular
  \<open>DELETE_SNMP_ENTRY\<close> cannot be reached from a process.
\<close>

fun run_requests ::
    "(snmp_user_mem \<times> allocator \<times> u32 \<times> nat) list \<Rightarrow> snmp_state \<Rightarrow> snmp_state res" where
  "run_requests [] s = Inr s"
| "run_requests ((um, pick, cmd, arg) # rs) s =
     rbind (ar_interface_ioctl um pick cmd arg s) (\<lambda>(r, s). run_requests rs s)"

theorem snmp_requests_keep:
  assumes "snmp_wf s"
    and "list_all (\<lambda>(um, pick, cmd, arg). alloc_fresh pick \<and> request_ends um cmd arg) rs"
  shows "\<exists>s'. run_requests rs s = Inr s' \<and> snmp_wf s' \<and> ar_snmp_tblsize s' = ar_snmp_tblsize s \<and>
    fst ` set (oid_view s) \<subseteq> fst ` set (oid_view s')"
  using assms
proof (induction rs arbitrary: s)
  case Nil
  then show ?case by simp
next
  case (Cons x rs)
  obtain um pick cmd arg where x: "x = (um, pick, cmd, arg)" by (cases x)
  with Cons.prems have "alloc_fresh pick" "request_ends um cmd arg" and rs:
    "list_all (\<lambda>(um, pick, cmd, arg). alloc_fresh pick \<and> request_ends um cmd arg) rs" by auto
  from ioctl_step [OF Cons.prems(1) this(1,2)] obtain r s1 where
    s1: "ar_interface_ioctl um pick cmd arg s = Inr (r, s1)" "snmp_wf s1"
      "ar_snmp_tblsize s1 = ar_snmp_tblsize s" "fst ` set (oid_view s) \<subseteq> fst ` set (oid_view s1)" by blast
  from Cons.IH [OF s1(2) rs] s1 x show ?case by auto
qed

theorem snmp_requests_keep_witness:
  "\<exists>s'. run_requests [(demo_snmp_um, demo_pick, 5, 50), (demo_snmp_um, demo_pick, 4, 50)] demo_snmp = Inr s' \<and>
     snmp_wf s' \<and> {[1, 3, 6], [1, 3, 7]} \<subseteq> fst ` set (oid_view s')"
  using snmp_requests_keep [OF demo_snmp_wf,
      of "[(demo_snmp_um, demo_pick, 5, 50), (demo_snmp_um, demo_pick, 4, 50)]"] demo_pick_fresh demo_um_ends
  by (auto simp: request_ends_def comm_cmd_def demo_snmp_view simp del: run_requests.simps)

text \<open>
  Claim C34.  \<open>CONFIG_SNMP_GETALL_FLAG\<close> never succeeds: when its block can be allocated and the
  flag read from the process, the block is released twice.  (\<open>pick\<close> is an allocator that has
  memory left.)
\<close>

theorem snmp_getall_double_free:
  assumes "alloc_fresh pick" and "pick (kmem s) 1 \<noteq> None"
    and "um_access um arg" and "um_bytes um arg \<noteq> []"
  shows "ar_interface_ioctl um pick (snmp_cmd CONFIG_SNMP_GETALL_FLAG) arg s = Inl DoubleFree"
proof -
  obtain p where p: "kzalloc pick (kmem s) 1 = (p, (kmem s)(p \<mapsto> replicate 1 0))" "p \<noteq> 0"
    using assms(1,2) by (auto simp: kzalloc_def alloc_fresh_def)
  obtain c r where u: "um_bytes um arg = c # r" using assms(4) by (cases "um_bytes um arg") auto
  then have "readable um arg 1" using assms(3) by (simp add: readable_def)
  with fill_block_eq [OF p(2), of um arg 1 "kmem s"] p u show ?thesis
    by (simp add: ar_interface_ioctl_def ioctl_getall_def ar_snmp_config_getall_flag_str_def kread_def
        buf_get_def kfree_def)
qed

theorem snmp_getall_double_free_witness:
  "ar_interface_ioctl demo_snmp_um demo_pick 3 300 demo_snmp = Inl DoubleFree"
proof -
  have "demo_pick (kmem demo_snmp) 1 \<noteq> None"
    using demo_free by (rule demo_pick_some)
  moreover have "um_access demo_snmp_um 300" and "um_bytes demo_snmp_um 300 \<noteq> []"
    by (simp_all add: demo_snmp_um_def cstr_def)
  ultimately show ?thesis using snmp_getall_double_free [OF demo_pick_fresh, of demo_snmp] by simp
qed

text \<open>
  Setting a community string through the device, outcome by outcome.  Sixteen
  readable bytes with a NUL among them become the community block as they are, without the type
  and length bytes that \<open>ar_snmp_init_db\<close> and the sysfs files write, and the database keeps
  its entries; sixteen bytes without a NUL make the kernel search past its block.
\<close>

theorem snmp_community_request:
  assumes "snmp_wf s" and "alloc_fresh pick" and "pick (kmem s) 16 \<noteq> None"
    and "comm_cmd cmd" and "readable um arg 16"
  shows "if has_nul (take 16 (um_bytes um arg))
    then \<exists>s'. ar_interface_ioctl um pick cmd arg s = Inr (0, s') \<and> snmp_wf s' \<and> oid_view s' = oid_view s \<and>
      block (kmem s') (comm_ptr cmd s') = take 16 (um_bytes um arg)
    else ar_interface_ioctl um pick cmd arg s = Inl OutOfBounds"
proof -
  obtain p where p: "kzalloc pick (kmem s) 16 = (p, (kmem s)(p \<mapsto> replicate 16 0))" "p \<noteq> 0" "kmem s p = None"
    using assms(2,3) by (auto simp: kzalloc_def alloc_fresh_def)
  let ?b = "take 16 (um_bytes um arg)"
  have "ar_interface_ioctl um pick cmd arg s = ioctl_comm um pick cmd arg s"
    using assms(4) by (auto simp: ar_interface_ioctl_def comm_cmd_def)
  also have "\<dots> = rbind (ar_snmp_config_comm_str cmd p (s\<lparr>kmem := (kmem s)(p \<mapsto> ?b)\<rparr>)) (\<lambda>s. Inr (0, s))"
    using fill_block_eq [OF p(2), of um arg 16 "kmem s"] p assms(5) by (simp add: ioctl_comm_def)
  finally show ?thesis
    using config_comm_swap [OF assms(1) p(3,2), of ?b cmd] config_comm_unterminated [OF assms(1) p(3,2), of ?b cmd]
      assms(4) by auto
qed

theorem snmp_community_request_witness:
  "\<exists>s'. ar_interface_ioctl demo_snmp_um demo_pick 2 300 demo_snmp = Inr (0, s') \<and>
     block (kmem s') (community_read_only_string (ar_snmp_db s')) = cstr ''secret'' @ replicate 9 0"
proof -
  have a: "demo_pick (kmem demo_snmp) 16 \<noteq> None"
    using demo_free by (rule demo_pick_some)
  have b: "um_bytes demo_snmp_um 300 = cstr ''secret'' @ replicate 9 0" "um_access demo_snmp_um 300"
    by (simp_all add: demo_snmp_um_def)
  then have "readable demo_snmp_um 300 16" by (simp add: readable_def cstr_def bytes_of_def)
  moreover have "take 16 (um_bytes demo_snmp_um 300) = cstr ''secret'' @ replicate 9 0"
    by (simp add: b cstr_def bytes_of_def)
  moreover have "has_nul (cstr ''secret'' @ replicate 9 0)" by (simp add: cstr_def)
  moreover have "comm_cmd 2" by (simp add: comm_cmd_def)
  ultimately show ?thesis
    using snmp_community_request [OF demo_snmp_wf demo_pick_fresh a, of 2 demo_snmp_um 300]
    by (auto simp: comm_ptr_def)
qed

end
