(* ===== verification/AR_Sysfs.thy ===== *)
theory AR_Sysfs
  imports AR_Core AR_Wakeup AR_SnmpIoctl
begin

unbundle bit_operations_syntax

text \<open>
  The sysfs files of \<open>armodule/source/arctrl_sysfs.c\<close>: each write sets one field of one of the
  databases from the text written.  \<open>buf\<close> is the page the kernel hands over, a C string; the
  functions return the \<open>count\<close> they were given.
\<close>

section \<open>State\<close>

text \<open>The globals of the three parts of the module.\<close>

record ar_module =
  core :: core_state
  snmp :: snmp_state
  wakeup :: wakeup_state

section \<open>The text written\<close>

text \<open>The characters for which the kernel's \<open>isspace\<close> is true, and what \<open>%s\<close> picks out.\<close>

definition is_space :: "u8 \<Rightarrow> bool" where
  "is_space c \<longleftrightarrow> c \<in> {9, 10, 11, 12, 13, 32, 160}"

definition sscanf_s :: "u8 list \<Rightarrow> u8 list" where
  "sscanf_s buf = takeWhile (\<lambda>c. \<not> is_space c) (dropWhile is_space (cstr_val buf))"

text \<open>
  \<open>pArg = kzalloc (strlen (buf) + 1); sscanf (buf, "%s", pArg)\<close>: the result of the allocation is
  not checked.
\<close>

definition sysfs_arg :: "alloc_ok \<Rightarrow> u8 list \<Rightarrow> u8 list res" where
  "sysfs_arg kz buf =
     rbind (c_strlen buf) (\<lambda>n.
     if \<not> kz 0 then Inl NullDeref
     else Inr (sscanf_s buf @ replicate (Suc n - length (sscanf_s buf)) 0))"

text \<open>
  \<open>*pArg - '0'\<close>, a plain \<open>char\<close> being unsigned on the processors this module is for.  The value is
  that of the C expression, an \<open>int\<close>; the fields it is assigned to are declared in the FMAN
  driver's headers, and what a narrower field keeps of it is left open (the digits 0 to 9 fit).
\<close>

definition flag_value :: "alloc_ok \<Rightarrow> u8 list \<Rightarrow> int res" where
  "flag_value kz buf = rbind (sysfs_arg kz buf) (\<lambda>pArg. rbind (buf_get pArg 0) (\<lambda>c. Inr (uint c - 48)))"

section \<open>The stores\<close>

definition ar_snmp_flag_store :: "alloc_ok \<Rightarrow> u8 list \<Rightarrow> nat \<Rightarrow> snmp_state \<Rightarrow> (nat \<times> snmp_state) res" where
  "ar_snmp_flag_store kz buf count s =
     rbind (flag_value kz buf) (\<lambda>v. Inr (count, s\<lparr>ar_snmp_db := (ar_snmp_db s)\<lparr>control := v\<rparr>\<rparr>))"

text \<open>The length is an 8-bit number, one less than that of the text for its newline.\<close>

definition ar_snmp_pvt_string_store :: "u8 list \<Rightarrow> nat \<Rightarrow> snmp_state \<Rightarrow> (nat \<times> snmp_state) res" where
  "ar_snmp_pvt_string_store buf count s =
     rbind (c_strlen buf) (\<lambda>n.
     let len = (of_nat n - 1 :: u8) in
     if AR_SNMP_MAX_COMM_LENGTH - 3 \<le> unat len then Inr (count, s)
     else rbind (comm_store (community_read_write_string (ar_snmp_db s)) len buf (kmem s)) (\<lambda>h.
          Inr (count, s\<lparr>kmem := h\<rparr>)))"

definition ar_snmp_pub_string_store :: "u8 list \<Rightarrow> nat \<Rightarrow> snmp_state \<Rightarrow> (nat \<times> snmp_state) res" where
  "ar_snmp_pub_string_store buf count s =
     rbind (c_strlen buf) (\<lambda>n.
     let len = (of_nat n - 1 :: u8) in
     if AR_SNMP_MAX_COMM_LENGTH - 3 \<le> unat len then Inr (count, s)
     else rbind (comm_store (community_read_only_string (ar_snmp_db s)) len buf (kmem s)) (\<lambda>h.
          Inr (count, s\<lparr>kmem := h\<rparr>)))"

definition ar_arp_conflict_flag_store ::
    "alloc_ok \<Rightarrow> u8 list \<Rightarrow> nat \<Rightarrow> core_state \<Rightarrow> (nat \<times> core_state) res" where
  "ar_arp_conflict_flag_store kz buf count s =
     rbind (flag_value kz buf) (\<lambda>v.
     Inr (count, s\<lparr>ar_arp_db := (ar_arp_db s)\<lparr>enable_conflict_detection := v\<rparr>\<rparr>))"

definition ar_ip_pass_flag_store ::
    "alloc_ok \<Rightarrow> u8 list \<Rightarrow> nat \<Rightarrow> wakeup_state \<Rightarrow> (nat \<times> wakeup_state) res" where
  "ar_ip_pass_flag_store kz buf count s =
     rbind (flag_value kz buf) (\<lambda>v. Inr (count, s\<lparr>ar_wakeup_db := (ar_wakeup_db s)\<lparr>ip_prot_pass_on_hit := v\<rparr>\<rparr>))"

definition ar_udp_pass_flag_store ::
    "alloc_ok \<Rightarrow> u8 list \<Rightarrow> nat \<Rightarrow> wakeup_state \<Rightarrow> (nat \<times> wakeup_state) res" where
  "ar_udp_pass_flag_store kz buf count s =
     rbind (flag_value kz buf) (\<lambda>v. Inr (count, s\<lparr>ar_wakeup_db := (ar_wakeup_db s)\<lparr>udp_port_pass_on_hit := v\<rparr>\<rparr>))"

definition ar_tcp_pass_flag_store ::
    "alloc_ok \<Rightarrow> u8 list \<Rightarrow> nat \<Rightarrow> wakeup_state \<Rightarrow> (nat \<times> wakeup_state) res" where
  "ar_tcp_pass_flag_store kz buf count s =
     rbind (flag_value kz buf) (\<lambda>v. Inr (count, s\<lparr>ar_wakeup_db := (ar_wakeup_db s)\<lparr>tcp_port_pass_on_hit := v\<rparr>\<rparr>))"

text \<open>One turn of the loop of \<open>ar_wakeup_atoi\<close>; a character that is no digit stays as it is.\<close>

definition hex_digit :: "u8 \<Rightarrow> u8" where
  "hex_digit c =
     (if 48 \<le> c \<and> c \<le> 57 then c - 48
      else if 65 \<le> c \<and> c \<le> 70 then c - 65 + 10
      else if 97 \<le> c \<and> c \<le> 102 then c - 97 + 10
      else c)"

fun hex_loop :: "u8 list \<Rightarrow> u8 list res" where
  "hex_loop [] = Inl OutOfBounds"
| "hex_loop (c # cs) = (if c = 0 then Inr (c # cs) else rbind (hex_loop cs) (\<lambda>ds. Inr (hex_digit c # ds)))"

definition ar_wakeup_atoi :: "u8 list \<Rightarrow> u16 res" where
  "ar_wakeup_atoi pArg =
     rbind (hex_loop pArg) (\<lambda>p.
     rbind (buf_get p 0) (\<lambda>p0. rbind (buf_get p 1) (\<lambda>p1.
     let result = (push_bit 4 (ucast p0) OR ucast p1 :: u16); result = push_bit 8 result in
     rbind (buf_get p 2) (\<lambda>p2. rbind (buf_get p 3) (\<lambda>p3.
     Inr (result OR (push_bit 4 (ucast p2) OR ucast p3)))))))"

definition ar_tcp_flag_mask_store ::
    "alloc_ok \<Rightarrow> u8 list \<Rightarrow> nat \<Rightarrow> wakeup_state \<Rightarrow> (nat \<times> wakeup_state) res" where
  "ar_tcp_flag_mask_store kz buf count s =
     rbind (sysfs_arg kz buf) (\<lambda>pArg.
     rbind (c_strlen buf) (\<lambda>n.
     rbind (buf_set pArg n 0) (\<lambda>pArg.
     rbind (ar_wakeup_atoi pArg) (\<lambda>m.
     Inr (count, s\<lparr>ar_wakeup_db := (ar_wakeup_db s)\<lparr>tcp_flags_mask := m\<rparr>\<rparr>)))))"

section \<open>The attribute table\<close>

datatype sysfs_attr =
    get_all_flag | com_pvt_string | com_pub_string | arp_conflict_detect
  | ip_prot_pass_on_hit_attr | udp_port_pass_on_hit_attr | tcp_port_pass_on_hit_attr | tcp_flag_mask

definition lift_snmp :: "(nat \<times> snmp_state) res \<Rightarrow> ar_module \<Rightarrow> (nat \<times> ar_module) res" where
  "lift_snmp r m = rbind r (\<lambda>(c, s). Inr (c, m\<lparr>snmp := s\<rparr>))"

definition lift_wakeup :: "(nat \<times> wakeup_state) res \<Rightarrow> ar_module \<Rightarrow> (nat \<times> ar_module) res" where
  "lift_wakeup r m = rbind r (\<lambda>(c, s). Inr (c, m\<lparr>wakeup := s\<rparr>))"

definition lift_core :: "(nat \<times> core_state) res \<Rightarrow> ar_module \<Rightarrow> (nat \<times> ar_module) res" where
  "lift_core r m = rbind r (\<lambda>(c, s). Inr (c, m\<lparr>core := s\<rparr>))"

text \<open>A write to the file of an attribute calls the store function its table entry names.\<close>

primrec sysfs_store ::
    "sysfs_attr \<Rightarrow> alloc_ok \<Rightarrow> u8 list \<Rightarrow> nat \<Rightarrow> ar_module \<Rightarrow> (nat \<times> ar_module) res" where
  "sysfs_store get_all_flag kz buf n m = lift_snmp (ar_snmp_flag_store kz buf n (snmp m)) m"
| "sysfs_store com_pvt_string kz buf n m = lift_snmp (ar_snmp_pvt_string_store buf n (snmp m)) m"
| "sysfs_store com_pub_string kz buf n m = lift_snmp (ar_snmp_pub_string_store buf n (snmp m)) m"
| "sysfs_store arp_conflict_detect kz buf n m = lift_core (ar_arp_conflict_flag_store kz buf n (core m)) m"
| "sysfs_store ip_prot_pass_on_hit_attr kz buf n m = lift_wakeup (ar_ip_pass_flag_store kz buf n (wakeup m)) m"
| "sysfs_store udp_port_pass_on_hit_attr kz buf n m = lift_wakeup (ar_udp_pass_flag_store kz buf n (wakeup m)) m"
| "sysfs_store tcp_port_pass_on_hit_attr kz buf n m = lift_wakeup (ar_tcp_pass_flag_store kz buf n (wakeup m)) m"
| "sysfs_store tcp_flag_mask kz buf n m = lift_wakeup (ar_tcp_flag_mask_store kz buf n (wakeup m)) m"

section \<open>Creation and removal of the directory\<close>

text \<open>
  The global \<open>ar_kobj\<close>: never created, created (the flag: its attribute group exists), or
  released by the last \<open>kobject_put\<close>, which leaves the pointer as it is.
\<close>

datatype kobj = KNull | KLive bool | KFreed

text \<open>
  \<open>created\<close>: \<open>kobject_create_and_add\<close> returned an object; \<open>error\<close>: the code
  \<open>sysfs_create_group\<close> returned.
\<close>

definition ar_sysfs_init :: "bool \<Rightarrow> int \<Rightarrow> int \<times> kobj" where
  "ar_sysfs_init created error =
     (if \<not> created then (- errno_code ENOMEM, KNull)
      else if error \<noteq> 0 then (error, KFreed)
      else (0, KLive True))"

fun ar_sysfs_exit :: "kobj \<Rightarrow> (int \<times> kobj) res" where
  "ar_sysfs_exit KNull = Inr (0, KNull)"
| "ar_sysfs_exit (KLive g) = Inr (0, KFreed)"
| "ar_sysfs_exit KFreed = Inl UseAfterFree"

definition ar_create_sysfs :: "bool \<Rightarrow> int \<Rightarrow> u32 \<times> kobj" where
  "ar_create_sysfs created error = (let (r, k) = ar_sysfs_init created error in (word_of_int r, k))"

section \<open>Lemmas\<close>

lemma sscanf_s_length: "length (sscanf_s buf) \<le> length (cstr_val buf)"
  unfolding sscanf_s_def using length_takeWhile_le length_dropWhile_le le_trans by blast

lemma sscanf_s_nul: "0 \<notin> set (sscanf_s buf)"
proof -
  have "set (sscanf_s buf) \<subseteq> set (cstr_val buf)"
    unfolding sscanf_s_def using set_takeWhileD set_dropWhileD by fast
  then show ?thesis using nul_notin_cstr_val by blast
qed

text \<open>The block holds the word and at least one NUL after it.\<close>

lemma sysfs_arg_eq:
  assumes "kz 0" and "has_nul buf"
  obtains z where "sysfs_arg kz buf = Inr (sscanf_s buf @ replicate (Suc z) 0)"
    and "length (sscanf_s buf) + z = length (cstr_val buf)"
proof -
  let ?w = "sscanf_s buf" and ?n = "length (cstr_val buf)"
  have "length ?w + (?n - length ?w) = ?n" using sscanf_s_length [of buf] by simp
  moreover from this have "Suc ?n - length ?w = Suc (?n - length ?w)" by linarith
  ultimately show ?thesis
    using that [of "?n - length ?w"] assms c_strlen_eq [OF assms(2)] by (simp add: sysfs_arg_def)
qed

lemma sysfs_arg_none: "\<not> kz 0 \<Longrightarrow> has_nul buf \<Longrightarrow> sysfs_arg kz buf = Inl NullDeref"
  by (simp add: sysfs_arg_def c_strlen_eq)

lemma flag_value_eq:
  assumes "kz 0" and "has_nul buf"
  shows "flag_value kz buf = Inr ((if sscanf_s buf = [] then 0 else uint (hd (sscanf_s buf))) - 48)"
proof -
  obtain z where "sysfs_arg kz buf = Inr (sscanf_s buf @ replicate (Suc z) 0)"
    using sysfs_arg_eq [of kz, OF assms] by blast
  then show ?thesis by (cases "sscanf_s buf") (simp_all add: flag_value_def buf_get_def)
qed

subsection \<open>The hexadecimal mask\<close>

definition is_hex :: "u8 \<Rightarrow> bool" where
  "is_hex c \<longleftrightarrow> 48 \<le> c \<and> c \<le> 57 \<or> 65 \<le> c \<and> c \<le> 70 \<or> 97 \<le> c \<and> c \<le> 102"

text \<open>The number four digits stand for.\<close>

definition hex_value :: "u8 list \<Rightarrow> u16" where
  "hex_value ds = foldl (\<lambda>n d. 16 * n + ucast d) 0 ds"

lemma or_disjoint:
  fixes a b :: "'a::len word"
  assumes "take_bit n b = b"
  shows "push_bit n a OR b = push_bit n a + b"
proof (rule disjunctive_add [symmetric])
  fix m
  have "\<not> bit b m" if "n \<le> m" using assms that by (metis bit_take_bit_iff not_le)
  then show "\<not> bit (push_bit n a) m \<or> \<not> bit b m" by (auto simp: bit_push_bit_iff)
qed

lemma hex_digit_small:
  assumes "is_hex c"
  shows "hex_digit c < 16"
proof -
  have "c - 48 < 16" if "48 \<le> c" "c \<le> 57" using that by unat_arith
  moreover have "c - 65 + 10 < 16" if "65 \<le> c" "c \<le> 70" using that by unat_arith
  moreover have "c - 97 + 10 < 16" if "97 \<le> c" "c \<le> 102" using that by unat_arith
  ultimately show ?thesis using assms by (auto simp: hex_digit_def is_hex_def)
qed

lemma unat_ucast_u16: "unat (ucast (d :: u8) :: u16) = unat d"
  using unsigned_less [of d, where ?'a = nat] by (simp add: unsigned_ucast_eq take_bit_nat_eq_self)

lemma take_bit_small: "unat (w :: 'a::len word) < 2 ^ n \<Longrightarrow> take_bit n w = w"
  by (rule unsigned_word_eqI [where ?'a = nat]) (simp add: unsigned_take_bit_eq take_bit_nat_eq_self)

lemma small_take_bit: "(d :: u8) < 16 \<Longrightarrow> take_bit 4 (ucast d :: u16) = ucast d"
  by (rule take_bit_small) (simp add: unat_ucast_u16 word_less_nat_alt)

lemma nibbles:
  fixes a b :: u8
  assumes "b < 16"
  shows "(push_bit 4 (ucast a) OR ucast b :: u16) = 16 * ucast a + ucast b"
  using or_disjoint [OF small_take_bit [OF assms], of "ucast a"] by (simp add: push_bit_eq_mult mult.commute)

lemma byte_take_bit:
  fixes a b :: u8
  assumes "a < 16" and "b < 16"
  shows "take_bit 8 (16 * ucast a + ucast b :: u16) = 16 * ucast a + ucast b"
  by (rule take_bit_small) (use assms in \<open>simp add: unat_word_ariths unat_ucast_u16 word_less_nat_alt\<close>)

lemma bytes_or:
  fixes a b c d :: u8
  assumes "b < 16" and "c < 16" and "d < 16"
  shows "push_bit 8 (push_bit 4 (ucast a) OR ucast b :: u16) OR (push_bit 4 (ucast c) OR ucast d) =
    hex_value [a, b, c, d]"
  unfolding nibbles [OF assms(1)] nibbles [OF assms(3)]
  using or_disjoint [OF byte_take_bit [OF assms(2,3)], of "16 * ucast a + ucast b"]
  by (simp add: hex_value_def push_bit_eq_mult algebra_simps)

lemma hex_loop_eq: "0 \<notin> set w \<Longrightarrow> hex_loop (w @ 0 # r) = Inr (map hex_digit w @ 0 # r)"
  by (induction w) auto

text \<open>\<open>ar_wakeup_atoi\<close> on a word of hexadecimal digits in a block that ends with zeros.\<close>

lemma atoi_short:
  assumes "0 \<notin> set w" and "length w + z < 3"
  shows "ar_wakeup_atoi (w @ replicate (Suc z) 0) = Inl OutOfBounds"
proof -
  let ?q = "map hex_digit w @ replicate (Suc z) 0"
  have loop: "hex_loop (w @ replicate (Suc z) 0) = Inr ?q"
    using hex_loop_eq [OF assms(1), of "replicate z 0"] by simp
  have "\<not> 3 < length ?q" using assms(2) by simp
  then show ?thesis
    unfolding ar_wakeup_atoi_def loop Let_def by (simp add: buf_get_def del: length_append replicate_Suc)
qed

lemma take_pad: "k \<le> length ds + n \<Longrightarrow> take k (ds @ replicate n x) = take k ds @ replicate (k - length ds) x"
  by simp

lemma four_or_more: "4 \<le> length q \<Longrightarrow> \<exists>a b c d r. q = a # b # c # d # r"
  by (auto simp: Suc_le_length_iff numeral_eq_Suc)

lemma atoi_long:
  assumes "list_all is_hex w" and "0 \<notin> set w" and "3 \<le> length w + z"
  shows "ar_wakeup_atoi (w @ replicate (Suc z) 0) =
    Inr (hex_value (take 4 (map hex_digit w @ replicate 4 0)))"
proof -
  let ?q = "map hex_digit w @ replicate (Suc z) 0"
  have loop: "hex_loop (w @ replicate (Suc z) 0) = Inr ?q"
    using hex_loop_eq [OF assms(2), of "replicate z 0"] by simp
  have "4 \<le> length ?q" using assms(3) by simp
  then obtain a b c d r where q: "?q = a # b # c # d # r"
    using four_or_more by blast
  have small: "x < 16" if "x \<in> set ?q" for x
    using that assms(1) hex_digit_small by (auto simp: list_all_iff)
  have "take 4 ?q = take 4 (map hex_digit w @ replicate 4 0)"
    using assms(3) by (simp add: take_pad del: replicate_Suc)
  then have digits: "take 4 (map hex_digit w @ replicate 4 0) = [a, b, c, d]" unfolding q by simp
  have get: "buf_get (a # b # c # d # r) 0 = Inr a" "buf_get (a # b # c # d # r) 1 = Inr b"
    "buf_get (a # b # c # d # r) 2 = Inr c" "buf_get (a # b # c # d # r) 3 = Inr d"
    by (simp_all add: buf_get_def)
  have lt: "b < 16" "c < 16" "d < 16" using small unfolding q by simp_all
  show ?thesis
    unfolding ar_wakeup_atoi_def loop q Let_def rbind_Inr get bytes_or [OF lt] digits ..
qed

subsection \<open>The community strings\<close>

lemma comm_store_overflow:
  assumes "live h p" and "unat len \<le> length src" and "length (block h p) < unat len + 3"
  shows "comm_store p len src h = Inl OutOfBounds"
  using assms by (auto simp: comm_store_def kread_live buf_set_def buf_copy_def rbind_def)

text \<open>Overwriting the contents of a community block leaves the rest of the database alone.\<close>

lemma comm_write:
  assumes wf: "snmp_wf s"
    and p: "p \<in> {community_read_write_string (ar_snmp_db s), community_read_only_string (ar_snmp_db s)}"
  shows "snmp_wf (s\<lparr>kmem := (kmem s)(p \<mapsto> b)\<rparr>)" and "oid_view (s\<lparr>kmem := (kmem s)(p \<mapsto> b)\<rparr>) = oid_view s"
proof -
  let ?h = "(kmem s)(p \<mapsto> b)"
  have "p \<notin> oidVal ` set (entries s) \<union> resVal ` set (entries s)"
    using snmp_wfD(5) [OF wf] p by (auto simp: owned_def simp del: image_iff)
  then have un: "\<And>e. e \<in> set (entries s) \<Longrightarrow> oidVal e \<noteq> p \<and> resVal e \<noteq> p" by blast
  have ent: "entries (s\<lparr>kmem := ?h\<rparr>) = entries s" by (simp add: entries_def)
  have same: "entry_item ?h e = entry_item (kmem s) e \<and> entry_live ?h e = entry_live (kmem s) e \<and>
      oid_key ?h e = oid_key (kmem s) e" if "e \<in> set (entries s)" for e
    using un [OF that] by (simp add: entry_item_def entry_live_def oid_key_def str_live_def)
  obtain es where es: "ar_snmp_entity s = TArr es" "length es = unat (ar_snmp_tblsize s)"
    "oid_table_size (ar_snmp_db s) \<le> length es"
    "list_all no_oid (drop (oid_table_size (ar_snmp_db s)) es)"
    using snmp_wfE [OF wf] by metis
  have keys: "map (oid_key ?h) (entries s) = map (oid_key (kmem s)) (entries s)" using same by simp
  show "oid_view (s\<lparr>kmem := ?h\<rparr>) = oid_view s" using same by (simp add: oid_view_def ent)
  have "p \<noteq> 0" using p snmp_wfD(3,4) [OF wf] by (auto simp: live_def)
  then show "snmp_wf (s\<lparr>kmem := ?h\<rparr>)"
    using es snmp_wfD [OF wf] same
    by (intro snmp_wfI [where es = es]) (auto simp: ent keys list_all_iff owned_def)
qed

text \<open>Both files run the same code on their own string.\<close>

definition comm_attr :: "sysfs_attr \<Rightarrow> snmp_state \<Rightarrow> addr" where
  "comm_attr a s = (if a = com_pvt_string then community_read_write_string (ar_snmp_db s)
                    else community_read_only_string (ar_snmp_db s))"

lemma comm_file:
  assumes "a \<in> {com_pvt_string, com_pub_string}" and "has_nul buf"
  shows "sysfs_store a kz buf n m =
    (let len = (of_nat (length (cstr_val buf)) - 1 :: u8) in
     if 61 \<le> unat len then Inr (n, m)
     else rbind (comm_store (comm_attr a (snmp m)) len buf (kmem (snmp m))) (\<lambda>h.
          Inr (n, m\<lparr>snmp := (snmp m)\<lparr>kmem := h\<rparr>\<rparr>)))"
  using assms
  by (auto simp: lift_snmp_def comm_attr_def ar_snmp_pvt_string_store_def ar_snmp_pub_string_store_def
      c_strlen_eq AR_SNMP_MAX_COMM_LENGTH_def Let_def rbind_assoc)

lemma len_byte: "unat (of_nat n - 1 :: u8) = (n + 255) mod 256"
proof -
  have "(of_nat n - 1 :: u8) = of_nat (n + 255)" by simp
  then show ?thesis by (simp only: unat_of_nat) simp
qed

text \<open>The outcome of writing a community file, for a block of any length that holds the text.\<close>

lemma comm_file_result:
  assumes wf: "snmp_wf (snmp m)" and nul: "has_nul buf" and a: "a \<in> {com_pvt_string, com_pub_string}"
    and len: "len = (length (cstr_val buf) + 255) mod 256"
    and room: "61 \<le> len \<or> len + 3 \<le> length (block (kmem (snmp m)) (comm_attr a (snmp m)))"
  shows "\<exists>b. sysfs_store a kz buf n m = Inr (n, if 61 \<le> len then m
      else m\<lparr>snmp := (snmp m)\<lparr>kmem := (kmem (snmp m))(comm_attr a (snmp m) \<mapsto> b)\<rparr>\<rparr>) \<and>
    length b = length (block (kmem (snmp m)) (comm_attr a (snmp m))) \<and>
    (len < 61 \<longrightarrow> comm_text b = Some (take len (cstr_val buf)))"
proof -
  let ?s = "snmp m" and ?n = "length (cstr_val buf)"
  let ?len = "of_nat ?n - 1 :: u8" and ?p = "comm_attr a (snmp m)"
  have un: "unat ?len = len" unfolding len by (rule len_byte)
  have lv: "live (kmem ?s) ?p" using snmp_wfD(3,4) [OF wf] by (simp add: comm_attr_def)
  show ?thesis
  proof (cases "61 \<le> len")
    case True
    then show ?thesis
      using un by (intro exI [of _ "block (kmem ?s) ?p"]) (simp add: comm_file [OF a nul])
  next
    case False
    have le: "len \<le> ?n"
    proof (cases ?n)
      case 0
      with False len show ?thesis by simp
    next
      case (Suc k)
      with len show ?thesis by (simp add: mod_less_eq_dividend le_SucI)
    qed
    have "?n \<le> length buf" using cstr_val_length [OF nul] by simp
    with le room False un have "unat ?len + 3 \<le> length (block (kmem ?s) ?p)" and "unat ?len \<le> length buf"
      by linarith+
    from comm_store_text [OF lv this] obtain b where
      b: "comm_store ?p ?len buf (kmem ?s) = Inr ((kmem ?s)(?p \<mapsto> b))" "length b = length (block (kmem ?s) ?p)"
        "comm_text b = Some (take len buf)" unfolding un by blast
    have "take len buf = take len (cstr_val buf)"
      unfolding cstr_val_def using le by (metis cstr_val_def min.absorb1 take_take takeWhile_eq_take)
    with False un b show ?thesis by (intro exI [of _ b]) (simp add: comm_file [OF a nul] Let_def)
  qed
qed

text \<open>The TCP flag mask.\<close>

lemma mask_file_eq:
  assumes "has_nul buf" and "list_all is_hex (sscanf_s buf)"
  shows "sysfs_store tcp_flag_mask kz buf n m =
    (if \<not> kz 0 then Inl NullDeref
     else if length (cstr_val buf) < 3 then Inl OutOfBounds
     else Inr (n, m\<lparr>wakeup := (wakeup m)\<lparr>ar_wakeup_db := (ar_wakeup_db (wakeup m))
       \<lparr>tcp_flags_mask := hex_value (take 4 (map hex_digit (sscanf_s buf) @ replicate 4 0))\<rparr>\<rparr>\<rparr>))"
proof (cases "kz 0")
  case False
  then show ?thesis by (simp add: lift_wakeup_def ar_tcp_flag_mask_store_def sysfs_arg_none [of kz, OF False assms(1)])
next
  case True
  let ?w = "sscanf_s buf" and ?n = "length (cstr_val buf)"
  obtain z where z: "sysfs_arg kz buf = Inr (?w @ replicate (Suc z) 0)" "length ?w + z = ?n"
    using sysfs_arg_eq [of kz, OF True assms(1)] by blast
  have "(?w @ replicate (Suc z) 0)[?n := 0] = ?w @ replicate (Suc z) 0"
    by (rule list_update_same_conv [THEN iffD2])
      (use z(2) in \<open>simp_all add: nth_append del: replicate_Suc\<close>)
  then have st: "buf_set (?w @ replicate (Suc z) 0) ?n 0 = Inr (?w @ replicate (Suc z) 0)"
    using z(2) by simp
  show ?thesis
  proof (cases "?n < 3")
    case short: True
    have "ar_wakeup_atoi (?w @ replicate (Suc z) 0) = Inl OutOfBounds"
      by (rule atoi_short [OF sscanf_s_nul]) (use short z(2) in simp)
    with True short show ?thesis
      by (simp add: lift_wakeup_def ar_tcp_flag_mask_store_def z(1) c_strlen_eq [OF assms(1)] st del: replicate_Suc)
  next
    case False
    have "ar_wakeup_atoi (?w @ replicate (Suc z) 0) = Inr (hex_value (take 4 (map hex_digit ?w @ replicate 4 0)))"
      by (rule atoi_long [OF assms(2) sscanf_s_nul]) (use False z(2) in simp)
    with True False show ?thesis
      by (simp add: lift_wakeup_def ar_tcp_flag_mask_store_def z(1) c_strlen_eq [OF assms(1)] st
          del: replicate_Suc take_append)
  qed
qed

section \<open>Properties\<close>

text \<open>
  Claim C31.  Writing a community file: with \<open>len\<close> the length of the text without its last
  character, \<^emph>\<open>modulo 256\<close>, the write is refused for \<open>len\<close> of 61 and more, and otherwise the
  block of that string reads as the first \<open>len\<close> characters, the rest of the module being
  unchanged.  (So a text of 257 characters empties the string instead of being refused.)
\<close>

theorem community_file:
  assumes "snmp_wf (snmp m)" and "has_nul buf" and "a \<in> {com_pvt_string, com_pub_string}"
    and "64 \<le> length (block (kmem (snmp m)) (comm_attr a (snmp m)))"
  shows "\<exists>m'. sysfs_store a kz buf n m = Inr (n, m') \<and> snmp_wf (snmp m') \<and>
    oid_view (snmp m') = oid_view (snmp m) \<and> core m' = core m \<and> wakeup m' = wakeup m \<and>
    (let len = (length (cstr_val buf) + 255) mod 256 in
     if 61 \<le> len then m' = m
     else comm_text (block (kmem (snmp m')) (comm_attr a (snmp m'))) = Some (take len (cstr_val buf)))"
proof -
  let ?len = "(length (cstr_val buf) + 255) mod 256" and ?p = "comm_attr a (snmp m)"
  have p: "?p \<in> {community_read_write_string (ar_snmp_db (snmp m)), community_read_only_string (ar_snmp_db (snmp m))}"
    by (simp add: comm_attr_def)
  have "61 \<le> ?len \<or> ?len + 3 \<le> length (block (kmem (snmp m)) ?p)" using assms(4) by linarith
  from comm_file_result [OF assms(1-3) refl this, of kz n] obtain b where
    b: "sysfs_store a kz buf n m = Inr (n, if 61 \<le> ?len then m
      else m\<lparr>snmp := (snmp m)\<lparr>kmem := (kmem (snmp m))(?p \<mapsto> b)\<rparr>\<rparr>)"
      "?len < 61 \<longrightarrow> comm_text b = Some (take ?len (cstr_val buf))" by blast
  have "comm_attr a ((snmp m)\<lparr>kmem := h\<rparr>) = ?p" for h by (simp add: comm_attr_def)
  with b comm_write [OF assms(1) p, of b] assms(1) show ?thesis by (simp add: Let_def)
qed

definition demo_module :: ar_module where
  "demo_module = \<lparr>core = demo_core 4,
     snmp = demo_snmp\<lparr>kmem := demo_heap(1 \<mapsto> replicate 64 0, 2 \<mapsto> replicate 64 0)\<rparr>, wakeup = demo_wakeup\<rparr>"

lemma demo_module_wf: "snmp_wf (snmp demo_module)"
  using comm_write(1) [OF comm_write(1) [OF demo_snmp_wf, of 1 "replicate 64 0"], of 2 "replicate 64 0"]
  by (simp add: demo_module_def demo_snmp_def)

lemma demo_module_blocks: "a \<in> {com_pvt_string, com_pub_string} \<Longrightarrow>
    length (block (kmem (snmp demo_module)) (comm_attr a (snmp demo_module))) = 64"
  by (auto simp: demo_module_def demo_snmp_def comm_attr_def)

theorem community_file_witness:
  "\<exists>m'. sysfs_store com_pub_string (\<lambda>_. True) (cstr ''guest!'') 7 demo_module = Inr (7, m') \<and>
     comm_text (block (kmem (snmp m')) (comm_attr com_pub_string (snmp m'))) = Some (bytes_of ''guest'')"
proof -
  have "has_nul (cstr ''guest!'')" and v: "cstr_val (cstr ''guest!'') = bytes_of ''guest!''"
    by (simp_all add: cstr_def bytes_of_def)
  then show ?thesis
    using community_file [OF demo_module_wf, of "cstr ''guest!''" com_pub_string "\<lambda>_. True" 7] demo_module_blocks
    by (auto simp: v bytes_of_def)
qed

text \<open>The request that sets the string of a file.\<close>

definition comm_attr_cmd :: "sysfs_attr \<Rightarrow> u32" where
  "comm_attr_cmd a = (if a = com_pvt_string then snmp_cmd CONFIG_SNMP_PRIV_COMM else snmp_cmd CONFIG_SNMP_PUB_COMM)"

text \<open>
  Claim C33.  The two ways of setting a community string do not fit together: the device leaves a
  block of 16 bytes, so after a request through it a write of 15 to 61 characters to the file of
  the same string, which the length check lets pass, runs out of the block.
\<close>

theorem community_device_then_file:
  assumes "snmp_wf (snmp m)" and "alloc_fresh pick" and "pick (kmem (snmp m)) 16 \<noteq> None"
    and "readable um arg 16" and "has_nul (take 16 (um_bytes um arg))"
    and "a \<in> {com_pvt_string, com_pub_string}" and "has_nul buf"
    and "15 \<le> length (cstr_val buf)" and "length (cstr_val buf) \<le> 61"
  shows "\<exists>s'. ar_interface_ioctl um pick (comm_attr_cmd a) arg (snmp m) = Inr (0, s') \<and> snmp_wf s' \<and>
    sysfs_store a kz buf n (m\<lparr>snmp := s'\<rparr>) = Inl OutOfBounds"
proof -
  obtain p where p: "kzalloc pick (kmem (snmp m)) 16 = (p, (kmem (snmp m))(p \<mapsto> replicate 16 0))"
    "p \<noteq> 0" "kmem (snmp m) p = None"
    using assms(2,3) by (auto simp: kzalloc_def alloc_fresh_def)
  let ?b = "take 16 (um_bytes um arg)" and ?c = "comm_attr_cmd a"
  have c: "comm_cmd ?c" by (simp add: comm_cmd_def comm_attr_cmd_def)
  from config_comm_swap [OF assms(1) p(3,2) assms(5) c] obtain s' where
    s': "ar_snmp_config_comm_str ?c p (snmp m\<lparr>kmem := (kmem (snmp m))(p \<mapsto> ?b)\<rparr>) = Inr s'" "snmp_wf s'"
      "comm_ptr ?c s' = p" "block (kmem s') p = ?b" by blast
  have run: "ar_interface_ioctl um pick ?c arg (snmp m) = Inr (0, s')"
    using fill_block_eq [OF p(2), of um arg 16 "kmem (snmp m)"] p assms(4) s'(1) c
    by (auto simp: ar_interface_ioctl_def ioctl_comm_def comm_cmd_def)
  let ?n = "length (cstr_val buf)"
  have un: "unat (of_nat ?n - 1 :: u8) = ?n - 1"
    unfolding len_byte using assms(8,9) by (cases ?n) simp_all
  have at: "comm_attr a s' = p" using s'(3) assms(6) by (auto simp: comm_attr_def comm_ptr_def comm_attr_cmd_def)
  have lb: "?n \<le> length buf" using cstr_val_length [OF assms(7)] by simp
  have "live (kmem s') p"
    using snmp_wfD(3,4) [OF s'(2)] at by (auto simp: comm_attr_def split: if_splits)
  then have "comm_store p (of_nat ?n - 1) buf (kmem s') = Inl OutOfBounds"
    by (rule comm_store_overflow) (use un s'(4) assms(8) lb in \<open>simp_all\<close>)
  moreover have "\<not> 61 \<le> unat (of_nat ?n - 1 :: u8)" unfolding un using assms(8,9) by simp
  ultimately have "sysfs_store a kz buf n (m\<lparr>snmp := s'\<rparr>) = Inl OutOfBounds"
    by (simp add: comm_file [OF assms(6,7)] at Let_def)
  with run s'(2) show ?thesis by blast
qed

theorem community_device_then_file_witness:
  "\<exists>s'. ar_interface_ioctl demo_snmp_um demo_pick 2 300 (snmp demo_module) = Inr (0, s') \<and>
     sysfs_store com_pub_string (\<lambda>_. True) (cstr ''a-longer-string'') 7 (demo_module\<lparr>snmp := s'\<rparr>) = Inl OutOfBounds"
proof -
  have free: "kmem (snmp demo_module) 9 = None" by (simp add: demo_module_def demo_snmp_def demo_heap_def)
  have pick: "demo_pick (kmem (snmp demo_module)) 16 \<noteq> None"
    using free demo_free(2) by (rule demo_pick_some)
  have um: "um_bytes demo_snmp_um 300 = cstr ''secret'' @ replicate 9 0" "um_access demo_snmp_um 300"
    by (simp_all add: demo_snmp_um_def)
  then have rd: "readable demo_snmp_um 300 16" by (simp add: readable_def cstr_def bytes_of_def)
  have nul: "has_nul (take 16 (um_bytes demo_snmp_um 300))" by (simp add: um cstr_def bytes_of_def)
  have tx: "has_nul (cstr ''a-longer-string'')" "length (cstr_val (cstr ''a-longer-string'')) = 15"
    by (simp_all add: cstr_def bytes_of_def)
  have "com_pub_string \<in> {com_pvt_string, com_pub_string}" and "comm_attr_cmd com_pub_string = 2"
    by (simp_all add: comm_attr_cmd_def)
  with community_device_then_file [OF demo_module_wf demo_pick_fresh pick rd nul, of com_pub_string
      "cstr ''a-longer-string''" "\<lambda>_. True" 7] tx
  show ?thesis by (auto simp del: sysfs_store.simps)
qed

text \<open>
  Claim C35.  The TCP flag mask: for a word of hexadecimal digits the mask is the number its first
  four digits stand for, a shorter word counting as if zeros followed it (so \<open>1f\<close> means
  \<open>0x1f00\<close>); when the whole text has fewer than three characters, the conversion reads behind
  the block.  A failed allocation is a NULL access.
\<close>

theorem tcp_mask_file:
  assumes "has_nul buf" and "list_all is_hex (sscanf_s buf)"
  shows "sysfs_store tcp_flag_mask kz buf n m =
    (if \<not> kz 0 then Inl NullDeref
     else if length (cstr_val buf) < 3 then Inl OutOfBounds
     else Inr (n, m\<lparr>wakeup := (wakeup m)\<lparr>ar_wakeup_db := (ar_wakeup_db (wakeup m))
       \<lparr>tcp_flags_mask := hex_value (take 4 (map hex_digit (sscanf_s buf) @ replicate 4 0))\<rparr>\<rparr>\<rparr>))"
  using assms by (rule mask_file_eq)

theorem tcp_mask_file_witness:
  "sysfs_store tcp_flag_mask (\<lambda>_. True) (cstr ''1fA0'') 7 demo_module =
     Inr (7, demo_module\<lparr>wakeup := (wakeup demo_module)\<lparr>ar_wakeup_db :=
       (ar_wakeup_db (wakeup demo_module))\<lparr>tcp_flags_mask := 0x1fa0\<rparr>\<rparr>\<rparr>)"
proof -
  have "has_nul (cstr ''1fA0'')" and w: "sscanf_s (cstr ''1fA0'') = bytes_of ''1fA0''"
    and l: "length (cstr_val (cstr ''1fA0'')) = 4"
    by (simp_all add: cstr_def bytes_of_def sscanf_s_def is_space_def)
  moreover have "list_all is_hex (bytes_of ''1fA0'')" by (simp add: bytes_of_def is_hex_def)
  moreover have "hex_value (take 4 (map hex_digit (bytes_of ''1fA0'') @ replicate 4 0)) = 0x1fa0"
    by (simp add: bytes_of_def hex_value_def hex_digit_def)
  ultimately show ?thesis
    using tcp_mask_file [of "cstr ''1fA0''" "\<lambda>_. True" 7 demo_module] unfolding w l by simp
qed

text \<open>
  Each flag file sets its own flag, and nothing else in the module, to the code of
  the first character written after leading spaces, less that of \<open>0\<close>.
\<close>

theorem flag_files:
  assumes "has_nul buf" and "sscanf_s buf = c # w"
  shows "sysfs_store get_all_flag kz buf n m = (if kz 0 then Inr (n, m\<lparr>snmp := (snmp m)\<lparr>ar_snmp_db :=
      (ar_snmp_db (snmp m))\<lparr>control := uint c - 48\<rparr>\<rparr>\<rparr>) else Inl NullDeref) \<and>
    sysfs_store arp_conflict_detect kz buf n m = (if kz 0 then Inr (n, m\<lparr>core := (core m)\<lparr>ar_arp_db :=
      (ar_arp_db (core m))\<lparr>enable_conflict_detection := uint c - 48\<rparr>\<rparr>\<rparr>) else Inl NullDeref) \<and>
    sysfs_store ip_prot_pass_on_hit_attr kz buf n m = (if kz 0 then Inr (n, m\<lparr>wakeup := (wakeup m)\<lparr>ar_wakeup_db :=
      (ar_wakeup_db (wakeup m))\<lparr>ip_prot_pass_on_hit := uint c - 48\<rparr>\<rparr>\<rparr>) else Inl NullDeref) \<and>
    sysfs_store udp_port_pass_on_hit_attr kz buf n m = (if kz 0 then Inr (n, m\<lparr>wakeup := (wakeup m)\<lparr>ar_wakeup_db :=
      (ar_wakeup_db (wakeup m))\<lparr>udp_port_pass_on_hit := uint c - 48\<rparr>\<rparr>\<rparr>) else Inl NullDeref) \<and>
    sysfs_store tcp_port_pass_on_hit_attr kz buf n m = (if kz 0 then Inr (n, m\<lparr>wakeup := (wakeup m)\<lparr>ar_wakeup_db :=
      (ar_wakeup_db (wakeup m))\<lparr>tcp_port_pass_on_hit := uint c - 48\<rparr>\<rparr>\<rparr>) else Inl NullDeref)"
proof -
  have "flag_value kz buf = (if kz 0 then Inr (uint c - 48) else Inl NullDeref)"
    using flag_value_eq [of kz, OF _ assms(1)] sysfs_arg_none [of kz, OF _ assms(1)] assms(2)
    by (simp add: flag_value_def)
  then show ?thesis
    by (simp add: lift_snmp_def lift_core_def lift_wakeup_def ar_snmp_flag_store_def
        ar_arp_conflict_flag_store_def ar_ip_pass_flag_store_def ar_udp_pass_flag_store_def
        ar_tcp_pass_flag_store_def)
qed

theorem flag_files_witness:
  "sysfs_store arp_conflict_detect (\<lambda>_. True) (cstr '' 1'') 7 demo_module =
     Inr (7, demo_module\<lparr>core := (core demo_module)\<lparr>ar_arp_db := (ar_arp_db (core demo_module))
       \<lparr>enable_conflict_detection := 1\<rparr>\<rparr>\<rparr>)"
proof -
  have "has_nul (cstr '' 1'')" and "sscanf_s (cstr '' 1'') = [49]"
    by (simp_all add: cstr_def bytes_of_def sscanf_s_def is_space_def)
  from flag_files [OF this, of "\<lambda>_. True" 7 demo_module] show ?thesis by simp
qed

end
