(* ===== verification/AR_Power.thy ===== *)
theory AR_Power
  imports AR_Sysfs
begin

text \<open>
  Entering and leaving deep sleep: \<open>armodule/source/arctrl_fmd.c\<close>, the notifier of
  \<open>arctrl_pm.c\<close> and the \<open>/proc\<close> file of \<open>arctrl_proc.c\<close> that simulates the event.
\<close>

section \<open>Calls into the drivers\<close>

text \<open>
  The calls the module makes, with what they receive.  \<open>ar_port_param\<close> holds pointers to the
  databases, so what the FMAN driver reads through it is the module's state at the call.
\<close>

datatype fmd_call =
    Set_Wakeup nat int                      \<comment> \<open>\<open>device_set_wakeup_enable\<close> for a device\<close>
  | Enter_Autores fm_port nat ar_module     \<comment> \<open>\<open>fm_port_enter_autores_for_deepsleep\<close>: port, TX handle\<close>
  | Exit_Autores fm_port fm_port            \<comment> \<open>\<open>fm_port_exit_auto_res_for_deep_sleep\<close>\<close>
  | Get_Stats "fm_port option"              \<comment> \<open>\<open>fm_port_get_autores_stats\<close>\<close>

definition ar_wakeup_src :: int where
  "ar_wakeup_src = 1"

section \<open>The events\<close>

text \<open>
  \<open>handle\<close> is the driver's \<open>fm_port_get_handle\<close>.  The code it returns for entering auto
  response is stored and not looked at.
\<close>

definition ar_process_deep_sleep_event ::
    "net_device list \<Rightarrow> string \<Rightarrow> (fm_port \<Rightarrow> nat) \<Rightarrow> ar_module \<Rightarrow>
     (u32 \<times> ar_module \<times> fmd_call list) res" where
  "ar_process_deep_sleep_event net ar_resport handle m =
     rbind (ar_get_fm_port net ar_resport) (\<lambda>(fm_rxport, fm_txport).
     case fm_rxport of
       None \<Rightarrow> Inr (word_of_int (ar_code AR_GET_INFO_ERROR), m, [])
     | Some rx \<Rightarrow>
       case fm_txport of
         None \<Rightarrow> Inr (word_of_int (ar_code AR_GET_INFO_ERROR), m, [])
       | Some tx \<Rightarrow>
         let netdev = ar_get_device net ar_resport in
         rbind (ar_get_interface_info net netdev (core m)) (\<lambda>(retcode, c).
         if retcode \<noteq> ar_code AR_SUCCESS then
           Inr (word_of_int (ar_code AR_GET_INFO_ERROR), m\<lparr>core := c\<rparr>, [])
         else
           let c = c\<lparr>ar_ipv4_echo_db := (ar_ipv4_echo_db c)\<lparr>echo_table_size := arp_table_size (ar_arp_db c)\<rparr>,
                     ar_ipv6_echo_db := (ar_ipv6_echo_db c)\<lparr>echo_table_size := table_size_assigned (ar_nd_db c)\<rparr>\<rparr>;
               m = m\<lparr>core := c\<rparr> in
           case netdev of
             None \<Rightarrow> Inl NullDeref
           | Some d \<Rightarrow>
             Inr (word_of_int (ar_code AR_SUCCESS), m,
                  [Set_Wakeup (ifindex d) ar_wakeup_src, Enter_Autores rx (handle tx) m])))"

definition ar_process_resume_event ::
    "net_device list \<Rightarrow> string \<Rightarrow> (int \<times> fmd_call list) res" where
  "ar_process_resume_event net ar_resport =
     rbind (ar_get_fm_port net ar_resport) (\<lambda>(fm_rxport, fm_txport).
     case (fm_rxport, fm_txport) of
       (Some rx, Some tx) \<Rightarrow> Inr (ar_code AR_SUCCESS, [Exit_Autores rx tx])
     | _ \<Rightarrow> Inr (- ar_code AR_GET_INFO_ERROR, []))"

section \<open>The power-management notifier\<close>

text \<open>The value of \<open>-out_status\<close>, an unsigned number returned as an \<open>int\<close>.\<close>

definition ar_suspend_noirq ::
    "net_device list \<Rightarrow> string \<Rightarrow> (fm_port \<Rightarrow> nat) \<Rightarrow> ar_module \<Rightarrow> (int \<times> ar_module \<times> fmd_call list) res" where
  "ar_suspend_noirq net ar_resport handle m =
     rbind (ar_process_deep_sleep_event net ar_resport handle m) (\<lambda>(out_status, m, calls).
     if out_status \<noteq> word_of_int (ar_code AR_SUCCESS) then Inr (sint (- out_status), m, calls)
     else Inr (0, m, calls))"

definition ar_resume_noirq :: "net_device list \<Rightarrow> string \<Rightarrow> (int \<times> fmd_call list) res" where
  "ar_resume_noirq net ar_resport =
     rbind (ar_process_resume_event net ar_resport) (\<lambda>(out_status, calls).
     if out_status < 0 then Inr (out_status, calls) else Inr (0, calls))"

definition PM_SUSPEND_PREPARE :: nat where
  "PM_SUSPEND_PREPARE = 3"

definition PM_POST_SUSPEND :: nat where
  "PM_POST_SUSPEND = 4"

text \<open>The results of the two functions are dropped; the notifier returns 0.\<close>

definition ar_handle_pm_event ::
    "net_device list \<Rightarrow> string \<Rightarrow> (fm_port \<Rightarrow> nat) \<Rightarrow> nat \<Rightarrow> ar_module \<Rightarrow>
     (int \<times> ar_module \<times> fmd_call list) res" where
  "ar_handle_pm_event net ar_resport handle event m =
     (if event = PM_SUSPEND_PREPARE then
        rbind (ar_suspend_noirq net ar_resport handle m) (\<lambda>(_, m, calls). Inr (0, m, calls))
      else if event = PM_POST_SUSPEND then
        rbind (ar_resume_noirq net ar_resport) (\<lambda>(_, calls). Inr (0, m, calls))
      else Inr (0, m, []))"

text \<open>The \<open>/proc\<close> file: a write of any text runs the event and reports two bytes as written.\<close>

definition ar_handle_deep_sleep_event ::
    "net_device list \<Rightarrow> string \<Rightarrow> (fm_port \<Rightarrow> nat) \<Rightarrow> ar_module \<Rightarrow> (int \<times> ar_module \<times> fmd_call list) res" where
  "ar_handle_deep_sleep_event net ar_resport handle m =
     rbind (ar_process_deep_sleep_event net ar_resport handle m) (\<lambda>(out_status, m, calls).
     Inr (2, m, calls))"

text \<open>
  The statistics file calls the driver with the receive port found, which is NULL when the port
  is down; the numbers it gets are only printed.
\<close>

definition ar_get_fman_stats :: "net_device list \<Rightarrow> string \<Rightarrow> fmd_call list res" where
  "ar_get_fman_stats net ar_resport =
     rbind (ar_get_fm_port net ar_resport) (\<lambda>(fm_rxport, fm_txport). Inr [Get_Stats fm_rxport])"

definition ar_fman_stats_show :: "net_device list \<Rightarrow> string \<Rightarrow> nat \<Rightarrow> (nat \<times> fmd_call list) res" where
  "ar_fman_stats_show net ar_resport count =
     rbind (ar_get_fman_stats net ar_resport) (\<lambda>calls. Inr (count, calls))"

section \<open>Lemmas\<close>

text \<open>The port is there and up; \<open>d\<close> is the device named by the module parameter.\<close>

definition port_up :: "net_device list \<Rightarrow> string \<Rightarrow> fm_port \<Rightarrow> fm_port \<Rightarrow> net_device \<Rightarrow> bool" where
  "port_up net port rx tx d \<longleftrightarrow>
     ar_get_fm_port net port = Inr (Some rx, Some tx) \<and> ar_get_device net port = Some d"

text \<open>The echo tables share the ARP and the permanent neighbour table.\<close>

definition set_echo :: "core_state \<Rightarrow> core_state" where
  "set_echo c = c\<lparr>ar_ipv4_echo_db := (ar_ipv4_echo_db c)\<lparr>echo_table_size := arp_table_size (ar_arp_db c)\<rparr>,
     ar_ipv6_echo_db := (ar_ipv6_echo_db c)\<lparr>echo_table_size := table_size_assigned (ar_nd_db c)\<rparr>\<rparr>"

lemma set_echo_sel [simp]:
  "core_ready (set_echo c) = core_ready c" "arp_rows (set_echo c) = arp_rows c"
  "tem_rows (set_echo c) = tem_rows c" "tgt_rows (set_echo c) = tgt_rows c"
  "ar_arptblsize (set_echo c) = ar_arptblsize c" "ar_ndptblsize (set_echo c) = ar_ndptblsize c"
  "ar_arp_db (set_echo c) = ar_arp_db c" "ar_nd_db (set_echo c) = ar_nd_db c"
  by (simp_all add: set_echo_def core_ready_def arp_rows_def tem_rows_def tgt_rows_def split: tblptr.split)

lemma deep_sleep_up:
  assumes "port_up net port rx tx d" and "ar_get_interface_info net (Some d) (core m) = Inr (0, c)"
  shows "ar_process_deep_sleep_event net port handle m =
    Inr (0, m\<lparr>core := set_echo c\<rparr>, [Set_Wakeup (ifindex d) 1, Enter_Autores rx (handle tx) (m\<lparr>core := set_echo c\<rparr>)])"
  using assms
  by (simp add: ar_process_deep_sleep_event_def port_up_def ar_wakeup_src_def set_echo_def Let_def)

lemma deep_sleep_down:
  assumes "ar_get_fm_port net port = Inr (rx, tx)" and "rx = None \<or> tx = None"
  shows "ar_process_deep_sleep_event net port handle m = Inr (6, m, [])"
  using assms by (auto simp: ar_process_deep_sleep_event_def split: option.split)

text \<open>The environment of an event: the port is down, or up with addresses configured.\<close>

definition env_ok :: "net_device list \<Rightarrow> string \<Rightarrow> bool" where
  "env_ok net port \<longleftrightarrow>
     (\<exists>rx tx. ar_get_fm_port net port = Inr (rx, tx) \<and> (rx = None \<or> tx = None)) \<or>
     (\<exists>rx tx d. port_up net port rx tx d \<and> net_ok net d \<and> net6_ok net d)"

definition module_ready :: "ar_module \<Rightarrow> bool" where
  "module_ready m \<longleftrightarrow> core_ready (core m) \<and> ar_ndptblsize (core m) \<noteq> 0"

lemma deep_sleep_safe:
  assumes "module_ready m" and "env_ok net port"
  shows "\<exists>st m' calls. ar_process_deep_sleep_event net port handle m = Inr (st, m', calls) \<and> module_ready m' \<and>
    snmp m' = snmp m \<and> wakeup m' = wakeup m"
  using assms(2) unfolding env_ok_def
proof
  assume "\<exists>rx tx. ar_get_fm_port net port = Inr (rx, tx) \<and> (rx = None \<or> tx = None)"
  then show ?thesis using deep_sleep_down assms(1) by blast
next
  assume "\<exists>rx tx d. port_up net port rx tx d \<and> net_ok net d \<and> net6_ok net d"
  then obtain rx tx d where up: "port_up net port rx tx d" and ok: "net_ok net d" "net6_ok net d" by blast
  from gather_safe [OF _ _ ok, of "core m"] assms(1) obtain c where
    "ar_get_interface_info net (Some d) (core m) = Inr (0, c)" "core_ready c" "ar_ndptblsize c = ar_ndptblsize (core m)"
    by (auto simp: module_ready_def)
  with deep_sleep_up [OF up, of m c handle] assms(1) show ?thesis by (simp add: module_ready_def)
qed

lemma resume_total:
  assumes "env_ok net port"
  shows "\<exists>r calls. ar_process_resume_event net port = Inr (r, calls)"
  using assms by (auto simp: env_ok_def port_up_def ar_process_resume_event_def split: option.split)

lemma pm_event_safe:
  assumes "module_ready m" and "env_ok net port"
  shows "\<exists>m' calls. ar_handle_pm_event net port handle event m = Inr (0, m', calls) \<and> module_ready m' \<and>
    snmp m' = snmp m \<and> wakeup m' = wakeup m"
proof -
  obtain st m' calls where s: "ar_process_deep_sleep_event net port handle m = Inr (st, m', calls)"
    "module_ready m'" "snmp m' = snmp m" "wakeup m' = wakeup m"
    using deep_sleep_safe [OF assms] by blast
  obtain r calls' where r: "ar_process_resume_event net port = Inr (r, calls')"
    using resume_total [OF assms(2)] by blast
  show ?thesis
    using s r assms(1) by (simp add: ar_handle_pm_event_def ar_suspend_noirq_def ar_resume_noirq_def)
qed

text \<open>With room in the tables, the event hands over what was gathered.\<close>

lemma deep_sleep_fit:
  assumes "port_up net port rx tx d" and "core_ready (core m)" and "net_ok net d" and "net6_ok net d"
    and "length (arp_config net d) \<le> unat (ar_arptblsize (core m))"
    and "length (ndp_config temps net d) < unat (ar_ndptblsize (core m))"
    and "length (ndp_config perms net d) < unat (ar_ndptblsize (core m))"
  shows "\<exists>m'. ar_process_deep_sleep_event net port handle m =
      Inr (0, m', [Set_Wakeup (ifindex d) 1, Enter_Autores rx (handle tx) m']) \<and>
    arp_rows (core m') = arp_config net d \<and> tem_rows (core m') = ndp_config temps net d \<and>
    tgt_rows (core m') = ndp_config perms net d \<and>
    echo_table_size (ar_ipv4_echo_db (core m')) = length (arp_config net d) \<and>
    echo_table_size (ar_ipv6_echo_db (core m')) = length (ndp_config perms net d) \<and>
    snmp m' = snmp m \<and> wakeup m' = wakeup m \<and> core_ready (core m')"
proof -
  obtain c where c: "ar_get_interface_info net (Some d) (core m) = Inr (0, c)" "core_ready c"
    "arp_rows c = arp_config net d" "tem_rows c = ndp_config temps net d" "tgt_rows c = ndp_config perms net d"
    "arp_table_size (ar_arp_db c) = length (arp_config net d)"
    "table_size_assigned (ar_nd_db c) = length (ndp_config perms net d)"
    using gather_fit [OF assms(2-7)] by blast
  show ?thesis
    using deep_sleep_up [OF assms(1) c(1), of handle] c(2-)
    by (intro exI [of _ "m\<lparr>core := set_echo c\<rparr>"]) (simp, simp add: set_echo_def)
qed

section \<open>Properties\<close>

text \<open>
  Claim C8.  Entering deep sleep with the port up, an IPv4 and an IPv6 configuration on the port
  and on its VLAN devices, and room in the tables (the neighbour tables with a slot to spare): the
  status is 0, the wake-up source of the device is enabled, and the FMAN driver is then entered
  once for the receive port, reading through its parameters exactly the gathered addresses, echo
  tables of the same sizes, and the SNMP and wake-up databases as they are.
\<close>

theorem deep_sleep_hands_over:
  assumes "port_up net port rx tx d" and "core_ready (core m)" and "net_ok net d" and "net6_ok net d"
    and "length (arp_config net d) \<le> unat (ar_arptblsize (core m))"
    and "length (ndp_config temps net d) < unat (ar_ndptblsize (core m))"
    and "length (ndp_config perms net d) < unat (ar_ndptblsize (core m))"
  shows "\<exists>m'. ar_process_deep_sleep_event net port handle m =
      Inr (0, m', [Set_Wakeup (ifindex d) 1, Enter_Autores rx (handle tx) m']) \<and>
    arp_rows (core m') = arp_config net d \<and> tem_rows (core m') = ndp_config temps net d \<and>
    tgt_rows (core m') = ndp_config perms net d \<and>
    echo_table_size (ar_ipv4_echo_db (core m')) = length (arp_config net d) \<and>
    echo_table_size (ar_ipv6_echo_db (core m')) = length (ndp_config perms net d) \<and>
    snmp m' = snmp m \<and> wakeup m' = wakeup m \<and> core_ready (core m')"
  using assms by (rule deep_sleep_fit)

lemma demo_up: "port_up demo_net ''fm1-mac5'' 1 2 demo_port"
  by (simp add: port_up_def ar_get_fm_port_def ar_get_device_def dev_get_by_name_def demo_net_simps)

lemma demo_net_ok: "net_ok demo_net demo_port" "net6_ok demo_net demo_port"
  by (simp_all add: demo_net_simps)

lemma demo_module_core: "core_ready (core demo_module)" "ar_ndptblsize (core demo_module) = 4"
    "ar_arptblsize (core demo_module) = 4"
  using demo_core_ready [of 4] by (simp_all add: demo_module_def demo_core_def)

lemma demo_sizes_fit: "length (arp_config demo_net demo_port) = 3"
  "length (ndp_config temps demo_net demo_port) = 1" "length (ndp_config perms demo_net demo_port) = 2"
  by (simp_all add: demo_net_simps)

theorem deep_sleep_hands_over_witness:
  "\<exists>m'. ar_process_deep_sleep_event demo_net ''fm1-mac5'' (\<lambda>p. 100 + p) demo_module =
      Inr (0, m', [Set_Wakeup 1 1, Enter_Autores 1 102 m']) \<and>
     length (arp_rows (core m')) = 3 \<and> wakeup m' = demo_wakeup"
proof -
  have "ifindex demo_port = 1" by (simp add: demo_port_def demo_netdev_def)
  then show ?thesis
    using deep_sleep_hands_over [OF demo_up demo_module_core(1) demo_net_ok, of "\<lambda>p. 100 + p"]
    by (auto simp: demo_sizes_fit demo_module_core demo_module_def [THEN arg_cong [of _ _ wakeup]])
qed

text \<open>
  Suspend and resume events in any order, the interfaces changing in between: as long
  as each finds the port down or addresses configured on the port and its VLAN devices, every
  call of the notifier returns 0, no table is left, and the SNMP and wake-up databases are as
  before.
\<close>

fun run_pm ::
    "string \<Rightarrow> (fm_port \<Rightarrow> nat) \<Rightarrow> (net_device list \<times> nat) list \<Rightarrow> ar_module \<Rightarrow>
     (int list \<times> ar_module) res" where
  "run_pm port handle [] m = Inr ([], m)"
| "run_pm port handle ((net, event) # es) m =
     rbind (ar_handle_pm_event net port handle event m) (\<lambda>(r, m, _).
     rbind (run_pm port handle es m) (\<lambda>(rs, m). Inr (r # rs, m)))"

theorem pm_events_safe:
  assumes "module_ready m" and "list_all (\<lambda>(net, event). env_ok net port) es"
  shows "\<exists>m'. run_pm port handle es m = Inr (replicate (length es) 0, m') \<and> module_ready m' \<and>
    snmp m' = snmp m \<and> wakeup m' = wakeup m"
  using assms
proof (induction es arbitrary: m)
  case Nil
  then show ?case by simp
next
  case (Cons e es)
  obtain net event where e: "e = (net, event)" by (cases e)
  with Cons.prems have "env_ok net port" and es: "list_all (\<lambda>(net, event). env_ok net port) es" by auto
  from pm_event_safe [OF Cons.prems(1) this(1), of handle event] obtain m1 calls where
    m1: "ar_handle_pm_event net port handle event m = Inr (0, m1, calls)" "module_ready m1"
      "snmp m1 = snmp m" "wakeup m1 = wakeup m" by blast
  from Cons.IH [OF m1(2) es] m1 e show ?case by auto
qed

theorem pm_events_safe_witness:
  "\<exists>m'. run_pm ''fm1-mac5'' (\<lambda>p. p) [(demo_net, 3), (demo_net, 4), ([], 3)] demo_module = Inr ([0, 0, 0], m') \<and>
     wakeup m' = demo_wakeup"
proof -
  have "module_ready demo_module" by (simp add: module_ready_def demo_module_core)
  moreover have "env_ok demo_net ''fm1-mac5''"
    unfolding env_ok_def using demo_up demo_net_ok by blast
  moreover have "env_ok [] ''fm1-mac5''"
    by (simp add: env_ok_def ar_get_fm_port_def dev_get_by_name_def)
  ultimately show ?thesis
    using pm_events_safe [of demo_module "''fm1-mac5''" "[(demo_net, 3), (demo_net, 4), ([], 3)]" "\<lambda>p. p"]
    by (auto simp: demo_module_def [THEN arg_cong [of _ _ wakeup]] simp del: run_pm.simps)
qed

text \<open>
  Claim C40.  A failing suspend is invisible outside: with the port down, \<open>ar_suspend_noirq\<close> and
  \<open>ar_resume_noirq\<close> report the error, but the notifier still returns 0 and a write to the
  \<open>/proc\<close> file still reports two bytes; no driver is called and nothing changes.
\<close>

theorem port_down_hidden:
  assumes "ar_get_fm_port net port = Inr (rx, tx)" and "rx = None \<or> tx = None"
  shows "ar_suspend_noirq net port handle m = Inr (- 6, m, []) \<and>
    ar_resume_noirq net port = Inr (- 6, []) \<and>
    ar_handle_pm_event net port handle event m = Inr (0, m, []) \<and>
    ar_handle_deep_sleep_event net port handle m = Inr (2, m, [])"
proof -
  have d: "ar_process_deep_sleep_event net port handle m = Inr (6, m, [])"
    using deep_sleep_down [OF assms] .
  have r: "ar_process_resume_event net port = Inr (- 6, [])"
    using assms by (auto simp: ar_process_resume_event_def split: option.split)
  show ?thesis
    by (simp add: ar_suspend_noirq_def ar_resume_noirq_def ar_handle_pm_event_def
        ar_handle_deep_sleep_event_def d r)
qed

theorem port_down_hidden_witness:
  "ar_suspend_noirq [] ''fm1-mac5'' (\<lambda>p. p) demo_module = Inr (- 6, demo_module, []) \<and>
   ar_handle_pm_event [] ''fm1-mac5'' (\<lambda>p. p) PM_SUSPEND_PREPARE demo_module = Inr (0, demo_module, [])"
proof -
  have "ar_get_fm_port [] ''fm1-mac5'' = Inr (None, None)"
    by (simp add: ar_get_fm_port_def dev_get_by_name_def)
  from port_down_hidden [OF this] show ?thesis by simp
qed

end
