(* ===== verification/AR_WakeupIoctl.thy ===== *)
theory AR_WakeupIoctl
  imports AR_Wakeup AR_Kmem
begin

text \<open>
  The command interface of the wake-up device, \<open>ar_wakeup_interface_ioctl\<close> of
  \<open>armodule/source/arctrl_wakeuptool.c\<close>: it copies the argument from user space into a
  kernel buffer and hands it to the rule database.
\<close>

section \<open>User memory\<close>

text \<open>The port rules a process has in its memory, beside the bytes of \<open>AR_Kmem\<close>.\<close>

record wakeup_user_mem = user_mem +
  um_port :: "nat \<Rightarrow> auto_res_port_filtering_e option"

definition copy_port ::
    "'z wakeup_user_mem_scheme \<Rightarrow> nat \<Rightarrow> auto_res_port_filtering_e option" where
  "copy_port um p = (if um_access um p then um_port um p else None)"

section \<open>The ioctl\<close>

definition ioctl_ip_proto ::
    "'z user_mem_scheme \<Rightarrow> alloc_ok \<Rightarrow> u32 \<Rightarrow> nat \<Rightarrow> wakeup_state \<Rightarrow> (int \<times> wakeup_state) res" where
  "ioctl_ip_proto um kz cmd arg s =
     (if \<not> kz 0 then Inr (- ar_code AR_MEMORY_UNAVALABLE_ERROR, s)
      else
        let p_ip_prot = replicate 10 0 in
        rbind (c_strlen (um_bytes um arg)) (\<lambda>n.
        rbind (copy_from_user um p_ip_prot arg n) (\<lambda>r.
        case r of
          None \<Rightarrow> Inr (- errno_code EFAULT, s)
        | Some p_ip_prot \<Rightarrow>
            rbind (c_strlen (um_bytes um arg)) (\<lambda>n.
            rbind (buf_set p_ip_prot n 0) (\<lambda>p_ip_prot.
            ar_wakeup_recv_config cmd (ArgName p_ip_prot) s)))))"

definition ioctl_port_rule ::
    "'z wakeup_user_mem_scheme \<Rightarrow> u32 \<Rightarrow> nat \<Rightarrow> wakeup_state \<Rightarrow> (int \<times> wakeup_state) res" where
  "ioctl_port_rule um cmd arg s =
     (case copy_port um arg of
        None \<Rightarrow> Inr (- errno_code EFAULT, s)
      | Some pInfo \<Rightarrow> ar_wakeup_recv_config cmd (ArgPort pInfo) s)"

definition ar_wakeup_interface_ioctl ::
    "'z wakeup_user_mem_scheme \<Rightarrow> alloc_ok \<Rightarrow> u32 \<Rightarrow> nat \<Rightarrow> wakeup_state \<Rightarrow> (int \<times> wakeup_state) res" where
  "ar_wakeup_interface_ioctl um kz cmd arg s =
     (if cmd = wakeup_cmd CONFIG_WAKEUP_IP_PROTO then ioctl_ip_proto um kz cmd arg s
      else if cmd = wakeup_cmd CONFIG_WAKEUP_UDP_RULE then ioctl_port_rule um cmd arg s
      else if cmd = wakeup_cmd CONFIG_WAKEUP_TCP_RULE then ioctl_port_rule um cmd arg s
      else Inr (- errno_code EBADRQC, s))"

section \<open>Lemmas\<close>

text \<open>The database reads a protocol name up to its NUL only.\<close>

lemma get_prot_code_cstr:
  assumes "has_nul a" and "has_nul b" and "cstr_val a = cstr_val b"
  shows "ar_wakeup_get_prot_code a = ar_wakeup_get_prot_code b"
  using assms by (simp add: ar_wakeup_get_prot_code_def prot_search_eq [OF _ prot_info_names])

lemma recv_config_cstr:
  assumes "has_nul a" and "has_nul b" and "cstr_val a = cstr_val b"
  shows "ar_wakeup_recv_config cmd (ArgName a) s = ar_wakeup_recv_config cmd (ArgName b) s"
  using get_prot_code_cstr [OF assms]
  by (simp add: ar_wakeup_recv_config_def recv_ip_prot_def recv_udp_rule_def recv_tcp_rule_def
      ar_wakeup_get_index_def)

lemma length_bytes_of [simp]: "length (bytes_of l) = length l"
  by (simp add: bytes_of_def)

lemma ip_proto_short:
  assumes "um_bytes um arg = bytes_of l @ 0 # r" and "CHR 0x00 \<notin> set l"
    and "kz 0" and "um_access um arg" and "length l < 10"
  shows "ioctl_ip_proto um kz cmd arg s = ar_wakeup_recv_config cmd (ArgName (cstr l)) s"
proof -
  let ?n = "length l"
  let ?b = "bytes_of l @ replicate (10 - ?n) 0"
  have len: "c_strlen (um_bytes um arg) = Inr ?n"
    using c_strlen_append_nul [of "bytes_of l" r] assms(1,2) by simp
  have cp: "copy_from_user um (replicate 10 0) arg ?n = Inr (Some ?b)"
    using assms by (simp add: copy_from_user_def)
  have "10 - ?n = Suc (9 - ?n)" using assms(5) by simp
  then have "?b[?n := 0] = ?b" by (simp add: list_update_append)
  then have st: "buf_set ?b ?n 0 = Inr ?b" using assms(5) by simp
  have "has_nul ?b" and "cstr_val ?b = bytes_of l"
    using \<open>10 - ?n = Suc (9 - ?n)\<close> assms(2) by simp_all
  then have "ar_wakeup_recv_config cmd (ArgName ?b) s = ar_wakeup_recv_config cmd (ArgName (cstr l)) s"
    using recv_config_cstr [of ?b "cstr l"] assms(2) by simp
  with len cp st assms(3) show ?thesis by (simp add: ioctl_ip_proto_def)
qed

lemma ip_proto_long:
  assumes "um_bytes um arg = bytes_of l @ 0 # r" and "CHR 0x00 \<notin> set l"
    and "kz 0" and "um_access um arg" and "10 \<le> length l"
  shows "ioctl_ip_proto um kz cmd arg s = Inl OutOfBounds"
proof -
  let ?n = "length l"
  have len: "c_strlen (um_bytes um arg) = Inr ?n"
    using c_strlen_append_nul [of "bytes_of l" r] assms(1,2) by simp
  show ?thesis
  proof (cases "?n = 10")
    case True
    then have "copy_from_user um (replicate 10 0) arg ?n = Inr (Some (bytes_of l))"
      using assms by (simp add: copy_from_user_def)
    with len assms(3) True show ?thesis by (simp add: ioctl_ip_proto_def)
  next
    case False
    then have "copy_from_user um (replicate 10 0) arg ?n = Inl OutOfBounds"
      using assms by (simp add: copy_from_user_def)
    with len assms(3) show ?thesis by (simp add: ioctl_ip_proto_def)
  qed
qed

section \<open>Properties\<close>

text \<open>
  The protocol command on a string of user memory: with memory available, it does
  what the database does on that string when the string has fewer than 10 characters, and
  writes beyond its 10-byte kernel buffer otherwise.
\<close>

theorem ioctl_protocol_name:
  assumes "um_bytes um arg = bytes_of l @ 0 # r" and "CHR 0x00 \<notin> set l"
    and "kz 0" and "um_access um arg"
  shows "ar_wakeup_interface_ioctl um kz (wakeup_cmd CONFIG_WAKEUP_IP_PROTO) arg s =
    (if length l < 10
     then ar_wakeup_recv_config (wakeup_cmd CONFIG_WAKEUP_IP_PROTO) (ArgName (cstr l)) s
     else Inl OutOfBounds)"
  using ip_proto_short [where kz = kz, OF assms] ip_proto_long [where kz = kz, OF assms]
  by (simp add: ar_wakeup_interface_ioctl_def)

definition demo_um :: "string \<Rightarrow> wakeup_user_mem" where
  "demo_um l = \<lparr>um_bytes = (\<lambda>p. if p = 0x1000 then cstr l else []),
                um_access = (\<lambda>p. p \<noteq> 0),
                um_port = (\<lambda>p. if p = 0x2000 then Some (demo_rule 5 6) else None)\<rparr>"

theorem ioctl_protocol_name_witness:
  "(\<exists>s'. ar_wakeup_interface_ioctl (demo_um ''TCP\<newline>'') (\<lambda>_. True) 4 0x1000 demo_wakeup = Inr (0, s') \<and>
      ip_protos s' = [6]) \<and>
   ar_wakeup_interface_ioctl (demo_um ''IPv6-ICMP\<newline>'') (\<lambda>_. True) 4 0x1000 demo_wakeup = Inl OutOfBounds"
proof
  have "prot_valid (cstr ''TCP\<newline>'')" by (simp add: prot_valid_def demo_key)
  then obtain s' where s': "add_prot (cstr ''TCP\<newline>'') demo_wakeup = Inr (0, s')" "ip_protos s' = [6]"
    using prot_table.fresh [of demo_wakeup "cstr ''TCP\<newline>''"] demo_wakeup_wf
    by (auto simp: wakeup_wf_def demo_wakeup_empty demo_key)
  with ioctl_protocol_name [where um = "demo_um ''TCP\<newline>''" and arg = "0x1000"
      and l = "''TCP\<newline>''" and r = "[]" and kz = "\<lambda>_. True"]
  show "\<exists>s'. ar_wakeup_interface_ioctl (demo_um ''TCP\<newline>'') (\<lambda>_. True) 4 0x1000 demo_wakeup = Inr (0, s') \<and>
      ip_protos s' = [6]"
    by (simp add: demo_um_def add_prot_def cstr_def)
  show "ar_wakeup_interface_ioctl (demo_um ''IPv6-ICMP\<newline>'') (\<lambda>_. True) 4 0x1000 demo_wakeup = Inl OutOfBounds"
    using ioctl_protocol_name [where um = "demo_um ''IPv6-ICMP\<newline>''" and arg = "0x1000"
        and l = "''IPv6-ICMP\<newline>''" and r = "[]" and kz = "\<lambda>_. True"]
    by (simp add: demo_um_def cstr_def)
qed

text \<open>The names of the table that are too long for the buffer.\<close>

definition long_protocols :: "string list" where
  "long_protocols = filter (\<lambda>l. 10 \<le> length l) (map fst prot_init)"

text \<open>
  Twenty of the 139 protocols the table knows cannot be configured: their names, with
  the newline of the configuration line, overrun the kernel buffer whatever the state of
  the database; every other name of the table reaches the database.
\<close>

theorem long_protocol_names_overrun:
  assumes "l \<in> set (map fst prot_init)" and "um_bytes um arg = bytes_of l @ 0 # r"
    and "kz 0" and "um_access um arg"
  shows "length long_protocols = 20 \<and> length prot_init = 139 \<and>
    (ar_wakeup_interface_ioctl um kz (wakeup_cmd CONFIG_WAKEUP_IP_PROTO) arg s = Inl OutOfBounds
       \<longleftrightarrow> l \<in> set long_protocols \<or>
          add_prot (cstr l) s = Inl OutOfBounds)"
proof -
  have "length long_protocols = 20" and "length prot_init = 139" by code_simp+
  moreover have "CHR 0x00 \<notin> set l"
    using assms(1) prot_init_lines by (auto simp: list_all_iff is_line_def)
  moreover have "l \<in> set long_protocols \<longleftrightarrow> 10 \<le> length l"
    using assms(1) by (simp add: long_protocols_def)
  ultimately show ?thesis
    using ip_proto_short [where kz = kz, OF assms(2)] ip_proto_long [where kz = kz, OF assms(2)]
      assms(3,4)
    by (cases "length l < 10") (simp_all add: ar_wakeup_interface_ioctl_def add_prot_def)
qed

theorem long_protocol_names_overrun_witness:
  "''RSVP-E2E-IGNORE\<newline>'' \<in> set long_protocols \<and>
   ar_wakeup_interface_ioctl (demo_um ''RSVP-E2E-IGNORE\<newline>'') (\<lambda>_. True) 4 0x1000 demo_wakeup
     = Inl OutOfBounds"
proof -
  have m: "''RSVP-E2E-IGNORE\<newline>'' \<in> set (map fst prot_init)" by (simp add: prot_init_def)
  then have l: "''RSVP-E2E-IGNORE\<newline>'' \<in> set long_protocols" by (simp add: long_protocols_def)
  with long_protocol_names_overrun [OF m, where um = "demo_um ''RSVP-E2E-IGNORE\<newline>''"
      and arg = "0x1000" and r = "[]" and kz = "\<lambda>_. True" and s = demo_wakeup]
  show ?thesis by (simp add: demo_um_def cstr_def)
qed

text \<open>
  The port commands: an unreadable argument is \<open>-EFAULT\<close> and an unknown command
  \<open>-EBADRQC\<close>, both without effect; a readable rule is handed to the table the command names,
  whose contract then gives the status and the new contents.
\<close>

theorem ioctl_port_rules:
  assumes "wakeup_wf s" and "copy_port um arg = Some r" and "\<not> free_port r"
  shows "(\<exists>st s'. ar_wakeup_interface_ioctl um kz (wakeup_cmd CONFIG_WAKEUP_UDP_RULE) arg s = Inr (st, s') \<and>
      wakeup_wf s' \<and> udp_rules s' = upsert (unat (udptblsize s)) (udp_rules s) r \<and>
      tcp_rules s' = tcp_rules s \<and> ip_protos s' = ip_protos s) \<and>
    (\<exists>st s'. ar_wakeup_interface_ioctl um kz (wakeup_cmd CONFIG_WAKEUP_TCP_RULE) arg s = Inr (st, s') \<and>
      wakeup_wf s' \<and> tcp_rules s' = upsert (unat (tcptblsize s)) (tcp_rules s) r \<and>
      udp_rules s' = udp_rules s \<and> ip_protos s' = ip_protos s) \<and>
    (um_access um bad = False \<longrightarrow>
      ar_wakeup_interface_ioctl um kz (wakeup_cmd CONFIG_WAKEUP_UDP_RULE) bad s = Inr (- 14, s)) \<and>
    (5 \<le> cmd \<longrightarrow> ar_wakeup_interface_ioctl um kz cmd bad s = Inr (- 56, s))"
proof -
  have "cmd \<noteq> 4 \<and> cmd \<noteq> 1 \<and> cmd \<noteq> 2" if "5 \<le> cmd" using that by (auto simp: word_le_nat_alt)
  then show ?thesis
    using recv_udp_cases [OF assms(1,3)] recv_tcp_cases [OF assms(1,3)] assms(2)
    by (auto simp: ar_wakeup_interface_ioctl_def ioctl_port_rule_def add_udp_def add_tcp_def
        copy_port_def [of um bad])
qed

theorem ioctl_port_rules_witness:
  "\<exists>st s'. ar_wakeup_interface_ioctl (demo_um []) (\<lambda>_. True) 1 0x2000 demo_full = Inr (st, s') \<and>
     wakeup_wf s' \<and> udp_rules s' = [demo_rule 1 2, demo_rule 3 4] \<and> ip_protos s' = [1, 17]"
proof -
  have "copy_port (demo_um []) 0x2000 = Some (demo_rule 5 6)"
    by (simp add: copy_port_def demo_um_def)
  from ioctl_port_rules [OF demo_full_facts(1) this, where kz = "\<lambda>_. True", THEN conjunct1]
  show ?thesis by (auto simp: demo_full_facts upsert_def)
qed

end
