(* ===== verification/AR_Init.thy ===== *)
theory AR_Init
  imports AR_Power AR_WakeupIoctl
begin

text \<open>
  Loading and unloading the module: \<open>ar_init\<close> and \<open>ar_exit\<close> of \<open>armodule/source/arctrl_core.c\<close>
  with the \<open>/proc\<close> interface of \<open>arctrl_proc.c\<close>, built as the \<open>Makefile\<close> does (with
  \<open>AR_DEBUG_API\<close>).
\<close>

section \<open>State\<close>

text \<open>A global pointer to one object: NULL, to a live one, or left pointing to a released one.\<close>

datatype gptr = GNull | GLive | GFreed

text \<open>
  The module with what it has registered in the kernel: the majors of its character devices,
  the sysfs object, the two \<open>/proc\<close> entries with the pointers \<open>ar_dir\<close> and \<open>ar_data\<close>, and the
  power-management notifier.
\<close>

record ar_system =
  md :: ar_module
  chrdevs :: "nat set"
  ar_kobj :: kobj
  proc_dir :: bool
  proc_file :: bool
  ar_dir :: gptr
  ar_data :: gptr
  pm_notifier :: bool

definition system_boot :: "kheap \<Rightarrow> ar_system" where
  "system_boot h = \<lparr>md = \<lparr>core = core_boot, snmp = snmp_boot h, wakeup = wakeup_boot\<rparr>, chrdevs = {},
     ar_kobj = KNull, proc_dir = False, proc_file = False, ar_dir = GNull, ar_data = GNull, pm_notifier = False\<rparr>"

text \<open>What the kernel answers to the calls made while loading.\<close>

record init_env =
  env_net :: "net_device list"
  env_port :: string
  env_maxsize :: "fm_port option \<Rightarrow> auto_res_tables_sizes option"
  env_chrdev :: "nat \<Rightarrow> bool"
  env_mkdir :: bool
  env_data :: bool
  env_create :: bool
  env_kobject :: bool
  env_group :: int
  env_core_kz :: alloc_ok
  env_snmp_kz :: alloc_ok
  env_pick :: allocator
  env_wakeup_kz :: alloc_ok
  env_notifier :: int

section \<open>The /proc interface\<close>

definition ar_proc_init :: "init_env \<Rightarrow> ar_system \<Rightarrow> int \<times> ar_system" where
  "ar_proc_init env s =
     (if \<not> env_mkdir env then (- errno_code ENOMEM, s\<lparr>ar_dir := GNull\<rparr>)
      else if \<not> env_data env then
        (- errno_code ENOMEM, s\<lparr>ar_dir := GFreed, ar_data := GNull, proc_dir := False\<rparr>)
      else if \<not> env_create env then
        (- errno_code EFAULT, s\<lparr>ar_dir := GFreed, ar_data := GFreed, proc_dir := False\<rparr>)
      else (0, s\<lparr>ar_dir := GLive, ar_data := GLive, proc_dir := True, proc_file := True\<rparr>))"

text \<open>
  \<open>remove_proc_entry\<close> looks at the directory it is given; removing an entry that is not there
  only prints a warning.
\<close>

definition ar_proc_exit :: "ar_system \<Rightarrow> ar_system res" where
  "ar_proc_exit s =
     (if ar_dir s = GFreed then Inl UseAfterFree
      else if ar_data s = GFreed then Inl DoubleFree
      else Inr (s\<lparr>proc_file := False, proc_dir := False, ar_data := GNull,
                  ar_dir := (if ar_dir s = GLive then GFreed else ar_dir s)\<rparr>))"

section \<open>Loading and unloading\<close>

definition AR_SNMP_DEV_MAJ_NUM :: nat where
  "AR_SNMP_DEV_MAJ_NUM = 103"

definition AR_WAKEUP_DEV_MAJ_NUM :: nat where
  "AR_WAKEUP_DEV_MAJ_NUM = 104"

definition unregister_chrdev :: "nat \<Rightarrow> ar_system \<Rightarrow> ar_system" where
  "unregister_chrdev n s = s\<lparr>chrdevs := chrdevs s - {n}\<rparr>"

definition sysfs_exit :: "ar_system \<Rightarrow> ar_system res" where
  "sysfs_exit s = rbind (ar_sysfs_exit (ar_kobj s)) (\<lambda>(_, k). Inr (s\<lparr>ar_kobj := k\<rparr>))"

text \<open>Registering with the power management, and the reverse.\<close>

definition ar_pm_register :: "init_env \<Rightarrow> ar_system \<Rightarrow> int \<times> ar_system" where
  "ar_pm_register env s =
     (let retval = env_notifier env in (retval, if retval < 0 then s else s\<lparr>pm_notifier := True\<rparr>))"

definition ar_pm_unregister :: "ar_system \<Rightarrow> ar_system" where
  "ar_pm_unregister s = s\<lparr>pm_notifier := False\<rparr>"

text \<open>The error path after the databases or the notifier could not be set up.\<close>

definition init_undo :: "ar_system \<Rightarrow> (int \<times> ar_system) res" where
  "init_undo s =
     rbind (ar_proc_exit (unregister_chrdev AR_WAKEUP_DEV_MAJ_NUM (unregister_chrdev AR_SNMP_DEV_MAJ_NUM s))) (\<lambda>s.
     rbind (sysfs_exit s) (\<lambda>s. Inr (- ar_code AR_INIT_ERROR, s)))"

text \<open>
  The results of \<open>ar_proc_init\<close>, \<open>ar_snmp_init_db\<close> and \<open>ar_wakeup_init_db\<close> are not looked at;
  that of \<open>ar_create_sysfs\<close>, an unsigned number, is compared with 0.
\<close>

definition init_databases :: "init_env \<Rightarrow> ar_system \<Rightarrow> (int \<times> ar_system) res" where
  "init_databases env s =
     rbind (ar_intf_init_db (env_net env) (env_port env) (env_maxsize env) (env_core_kz env) (core (md s))) (\<lambda>(r, c).
     if r < 0 then init_undo (s\<lparr>md := (md s)\<lparr>core := c\<rparr>\<rparr>)
     else
       rbind (ar_snmp_init_db (p_ar_maxsize c) (env_snmp_kz env) (env_pick env) (snmp (md s))) (\<lambda>(_, sn).
       rbind (ar_wakeup_init_db (p_ar_maxsize c) (env_wakeup_kz env) (wakeup (md s))) (\<lambda>(_, w).
       let (r, s) = ar_pm_register env (s\<lparr>md := (md s)\<lparr>core := c, snmp := sn, wakeup := w\<rparr>\<rparr>) in
       if r < 0 then init_undo s
       else Inr (ar_code AR_SUCCESS, s))))"

definition ar_init :: "init_env \<Rightarrow> ar_system \<Rightarrow> (int \<times> ar_system) res" where
  "ar_init env s =
     (if \<not> env_chrdev env AR_SNMP_DEV_MAJ_NUM then Inr (- 1, s)
      else let s = s\<lparr>chrdevs := insert AR_SNMP_DEV_MAJ_NUM (chrdevs s)\<rparr> in
      if \<not> env_chrdev env AR_WAKEUP_DEV_MAJ_NUM then Inr (- 1, s)
      else let s = s\<lparr>chrdevs := insert AR_WAKEUP_DEV_MAJ_NUM (chrdevs s)\<rparr>;
               s = snd (ar_proc_init env s);
               (r, k) = ar_create_sysfs (env_kobject env) (env_group env);
               s = s\<lparr>ar_kobj := k\<rparr> in
      if uint r < 0 then Inr (- ar_code AR_INIT_ERROR, s)
      else init_databases env s)"

definition ar_exit :: "ar_system \<Rightarrow> ar_system res" where
  "ar_exit s =
     rbind (sysfs_exit (unregister_chrdev AR_WAKEUP_DEV_MAJ_NUM (unregister_chrdev AR_SNMP_DEV_MAJ_NUM s))) (\<lambda>s.
     rbind (ar_proc_exit s) (\<lambda>s.
     Inr (ar_pm_unregister s)))"

section \<open>What is registered\<close>

definition all_registered :: "ar_system \<Rightarrow> bool" where
  "all_registered s \<longleftrightarrow> chrdevs s = {AR_SNMP_DEV_MAJ_NUM, AR_WAKEUP_DEV_MAJ_NUM} \<and> ar_kobj s = KLive True \<and>
     proc_dir s \<and> proc_file s \<and> ar_dir s = GLive \<and> ar_data s = GLive \<and> pm_notifier s"

definition none_registered :: "ar_system \<Rightarrow> bool" where
  "none_registered s \<longleftrightarrow> chrdevs s = {} \<and> ar_kobj s \<noteq> KLive True \<and> ar_kobj s \<noteq> KLive False \<and>
     \<not> proc_dir s \<and> \<not> proc_file s \<and> ar_data s = GNull \<and> \<not> pm_notifier s"

text \<open>The devices, the \<open>/proc\<close> entries and the sysfs group can be created.\<close>

definition env_entries :: "init_env \<Rightarrow> bool" where
  "env_entries env \<longleftrightarrow> env_chrdev env AR_SNMP_DEV_MAJ_NUM \<and> env_chrdev env AR_WAKEUP_DEV_MAJ_NUM \<and>
     env_mkdir env \<and> env_data env \<and> env_create env \<and> env_kobject env \<and> env_group env = 0"

section \<open>Lemmas\<close>

text \<open>The part of loading up to the databases succeeds.\<close>

definition intf_ok :: "init_env \<Rightarrow> fm_port option \<Rightarrow> fm_port option \<Rightarrow> bool" where
  "intf_ok env rx tx \<longleftrightarrow> (rx \<noteq> None \<or> tx \<noteq> None) \<and> env_maxsize env rx \<noteq> None \<and>
     env_core_kz env 0 \<and> env_core_kz env 1 \<and> env_core_kz env 2"

definition devices_ok :: "init_env \<Rightarrow> bool" where
  "devices_ok env \<longleftrightarrow> env_chrdev env AR_SNMP_DEV_MAJ_NUM \<and> env_chrdev env AR_WAKEUP_DEV_MAJ_NUM"

text \<open>The state in which the databases are set up.\<close>

definition entries_made :: "init_env \<Rightarrow> kheap \<Rightarrow> ar_system" where
  "entries_made env h =
     (snd (ar_proc_init env ((system_boot h)\<lparr>chrdevs := {AR_SNMP_DEV_MAJ_NUM, AR_WAKEUP_DEV_MAJ_NUM}\<rparr>)))
       \<lparr>ar_kobj := snd (ar_create_sysfs (env_kobject env) (env_group env))\<rparr>"

lemma entries_made_md [simp]: "md (entries_made env h) = md (system_boot h)"
  by (simp add: entries_made_def ar_proc_init_def)

lemma init_unfold:
  assumes "devices_ok env"
  shows "ar_init env (system_boot h) = init_databases env (entries_made env h)"
proof -
  obtain r k where rk: "ar_create_sysfs (env_kobject env) (env_group env) = (r, k)" by fastforce
  have "(snd (ar_proc_init env ((system_boot h)\<lparr>chrdevs :=
      insert AR_WAKEUP_DEV_MAJ_NUM (insert AR_SNMP_DEV_MAJ_NUM (chrdevs (system_boot h)))\<rparr>)))\<lparr>ar_kobj := k\<rparr>
    = entries_made env h"
    using rk by (simp add: entries_made_def system_boot_def insert_commute)
  then show ?thesis using assms rk by (simp add: ar_init_def devices_ok_def)
qed

text \<open>The databases are set up; what follows depends on the notifier only.\<close>

lemma init_databases_run:
  assumes "ar_intf_init_db (env_net env) (env_port env) (env_maxsize env) (env_core_kz env) core_boot = Inr (0, c)"
    and "p_ar_maxsize c = Some m"
    and "ar_snmp_init_db (Some m) (env_snmp_kz env) (env_pick env) (snmp_boot h) = Inr (r1, sn)"
    and "ar_wakeup_init_db (Some m) (env_wakeup_kz env) wakeup_boot = Inr (r2, w)"
  shows "init_databases env (entries_made env h) =
    (if env_notifier env < 0
     then init_undo ((entries_made env h)\<lparr>md := \<lparr>core = c, snmp = sn, wakeup = w\<rparr>\<rparr>)
     else Inr (0, (entries_made env h)\<lparr>md := \<lparr>core = c, snmp = sn, wakeup = w\<rparr>, pm_notifier := True\<rparr>))"
proof -
  have "md (entries_made env h) = \<lparr>core = core_boot, snmp = snmp_boot h, wakeup = wakeup_boot\<rparr>"
    by (simp add: system_boot_def)
  with assms show ?thesis by (simp add: init_databases_def ar_pm_register_def)
qed

lemma undo_clean:
  assumes "chrdevs s = {AR_SNMP_DEV_MAJ_NUM, AR_WAKEUP_DEV_MAJ_NUM}" and "ar_kobj s = KLive True"
    and "ar_dir s = GLive" and "ar_data s = GLive" and "\<not> pm_notifier s"
  shows "\<exists>s'. init_undo s = Inr (- 4, s') \<and> none_registered s' \<and> md s' = md s"
  using assms
  by (simp add: init_undo_def unregister_chrdev_def ar_proc_exit_def sysfs_exit_def none_registered_def)

lemma exit_clean:
  assumes "all_registered s"
  shows "\<exists>s'. ar_exit s = Inr s' \<and> none_registered s' \<and> md s' = md s"
  using assms
  by (simp add: all_registered_def ar_exit_def ar_pm_unregister_def unregister_chrdev_def ar_proc_exit_def sysfs_exit_def
      none_registered_def)

lemma entries_made_ok:
  assumes "env_entries env"
  shows "chrdevs (entries_made env h) = {AR_SNMP_DEV_MAJ_NUM, AR_WAKEUP_DEV_MAJ_NUM}"
    and "ar_kobj (entries_made env h) = KLive True" and "proc_dir (entries_made env h)"
    and "proc_file (entries_made env h)" and "ar_dir (entries_made env h) = GLive"
    and "ar_data (entries_made env h) = GLive" and "\<not> pm_notifier (entries_made env h)"
  using assms
  by (simp_all add: entries_made_def env_entries_def ar_proc_init_def ar_create_sysfs_def ar_sysfs_init_def
      system_boot_def)

text \<open>With a port, sizes and memory the databases are set up, whatever became of their status.\<close>

lemma databases_made:
  assumes "ar_get_fm_port (env_net env) (env_port env) = Inr (rx, tx)" and "intf_ok env rx tx"
    and "alloc_fresh (env_pick env)" and "env_snmp_kz env 0" and "env_maxsize env rx = Some m"
  obtains c sn w r where
    "ar_intf_init_db (env_net env) (env_port env) (env_maxsize env) (env_core_kz env) core_boot = Inr (0, c)"
    and "p_ar_maxsize c = Some m" and "core_ready c \<or> ar_arptblsize c = 0"
    and "ar_snmp_init_db (Some m) (env_snmp_kz env) (env_pick env) (snmp_boot h) = Inr (0, sn)"
    and "oid_table (ar_snmp_db sn) = None \<or> snmp_wf sn \<and> oid_view sn = []"
    and "ar_wakeup_init_db (Some m) (env_wakeup_kz env) wakeup_boot = Inr (r, w)"
    and "wakeup_wf w \<longleftrightarrow> env_wakeup_kz env 0 \<and> env_wakeup_kz env 1 \<and> env_wakeup_kz env 2"
    and "\<not> env_wakeup_kz env 0 \<Longrightarrow> ar_wakeup_udp_entity w = TNull \<and>
       udptblsize w = max_num_of_udp_port_filtering m \<and> udp_ports_table_size (ar_wakeup_db w) = 0"
proof -
  obtain r0 c where c: "ar_intf_init_db (env_net env) (env_port env) (env_maxsize env) (env_core_kz env) core_boot
      = Inr (r0, c)"
    using intf_init_total [OF assms(1)] by blast
  from intf_init_result [OF assms(1) c] assms(2,5) have
    c': "r0 = 0" "p_ar_maxsize c = Some m" "core_ready c \<or> ar_arptblsize c = 0"
    by (auto simp: intf_ok_def split: if_splits)
  obtain sn where sn: "ar_snmp_init_db (Some m) (env_snmp_kz env) (env_pick env) (snmp_boot h) = Inr (0, sn)"
    "oid_table (ar_snmp_db sn) = None \<or> snmp_wf sn \<and> oid_view sn = []"
    using snmp_init_result [where kz = "env_snmp_kz env", OF assms(3,4), of m h] by (auto split: if_splits)
  obtain r w where w: "ar_wakeup_init_db (Some m) (env_wakeup_kz env) wakeup_boot = Inr (r, w)"
    "wakeup_wf w \<longleftrightarrow> env_wakeup_kz env 0 \<and> env_wakeup_kz env 1 \<and> env_wakeup_kz env 2"
    using wakeup_init_result [of m "env_wakeup_kz env"] by (auto split: if_splits)
  have nomem: "ar_wakeup_udp_entity w = TNull \<and> udptblsize w = max_num_of_udp_port_filtering m \<and>
      udp_ports_table_size (ar_wakeup_db w) = 0" if "\<not> env_wakeup_kz env 0"
    using w(1) that by (auto simp: ar_wakeup_init_db_def Let_def wakeup_boot_def)
  from that [OF c [unfolded c'(1)] c'(2,3) sn w nomem] show ?thesis .
qed

text \<open>The allocator serves both community strings, and then the SNMP database is whole.\<close>

definition strings_fit :: "allocator \<Rightarrow> kheap \<Rightarrow> bool" where
  "strings_fit pick h \<longleftrightarrow>
     (case pick h 64 of None \<Rightarrow> False | Some p \<Rightarrow> pick (h(p \<mapsto> replicate 64 0)) 64 \<noteq> None)"

lemma strings_fitE:
  assumes "alloc_fresh pick" and "strings_fit pick h"
  obtains p q where "kzalloc pick h 64 = (p, h(p \<mapsto> replicate 64 0))" and "p \<noteq> 0"
    and "kzalloc pick (h(p \<mapsto> replicate 64 0)) 64 = (q, h(p \<mapsto> replicate 64 0, q \<mapsto> replicate 64 0))"
    and "q \<noteq> 0" and "q \<noteq> p" and "h p = None" and "h q = None"
proof -
  obtain p where p: "pick h 64 = Some p" using assms(2) by (auto simp: strings_fit_def split: option.splits)
  then obtain q where q: "pick (h(p \<mapsto> replicate 64 0)) 64 = Some q" using assms(2) by (auto simp: strings_fit_def)
  have "p \<noteq> 0" and "h p = None" using p assms(1) by (auto simp: alloc_fresh_def)
  moreover have "q \<noteq> 0" and "(h(p \<mapsto> replicate 64 0)) q = None" using q assms(1) unfolding alloc_fresh_def by blast+
  then have "q \<noteq> 0" and "q \<noteq> p" and "h q = None" by (auto split: if_splits)
  ultimately show ?thesis using that p q by (simp add: kzalloc_def)
qed

lemma snmp_init_strings:
  assumes pick: "alloc_fresh pick" and kz: "kz 0"
  shows "\<exists>s'. ar_snmp_init_db (Some m) kz pick (snmp_boot h) = Inr (0, s') \<and>
    (if strings_fit pick h
     then snmp_wf s' \<and> oid_view s' = [] \<and> ar_snmp_tblsize s' = max_num_of_snmp_oid_entries m \<and>
       comm_text (block (kmem s') (community_read_write_string (ar_snmp_db s'))) = Some (bytes_of ''private'') \<and>
       comm_text (block (kmem s') (community_read_only_string (ar_snmp_db s'))) = Some (bytes_of ''public'')
     else oid_table (ar_snmp_db s') = None)"
proof (cases "strings_fit pick h")
  case True
  then obtain p q where "kzalloc pick h 64 = (p, h(p \<mapsto> replicate 64 0))" "p \<noteq> 0"
    "kzalloc pick (h(p \<mapsto> replicate 64 0)) 64 = (q, h(p \<mapsto> replicate 64 0, q \<mapsto> replicate 64 0))"
    "q \<noteq> 0" "q \<noteq> p" "h p = None" "h q = None" by (rule strings_fitE [OF pick])
  from snmp_init_made [where kz = kz, OF kz this, of m] True show ?thesis by auto
next
  case False
  show ?thesis
  proof (cases "pick h 64")
    case None
    with False kz show ?thesis
      by (simp add: ar_snmp_init_db_def snmp_boot_def kzalloc_def AR_SNMP_MAX_COMM_LENGTH_def zero_snmp_db_def Let_def)
  next
    case (Some p)
    then have "p \<noteq> 0" using pick by (auto simp: alloc_fresh_def)
    moreover have "pick (h(p \<mapsto> replicate 64 0)) 64 = None" using False Some by (simp add: strings_fit_def)
    ultimately show ?thesis
      using False kz Some
      by (simp add: ar_snmp_init_db_def snmp_boot_def kzalloc_def AR_SNMP_MAX_COMM_LENGTH_def zero_snmp_db_def
          kfree_def Let_def)
  qed
qed

lemma load_result:
  assumes "env_entries env" and "ar_get_fm_port (env_net env) (env_port env) = Inr (rx, tx)"
    and "alloc_fresh (env_pick env)" and "env_snmp_kz env 0"
  shows "\<exists>s'. if intf_ok env rx tx \<and> 0 \<le> env_notifier env
    then ar_init env (system_boot h) = Inr (0, s') \<and> all_registered s' \<and>
      p_ar_maxsize (core (md s')) = env_maxsize env rx \<and>
      (core_ready (core (md s')) \<or> ar_arptblsize (core (md s')) = 0) \<and>
      (if strings_fit (env_pick env) h
       then snmp_wf (snmp (md s')) \<and> oid_view (snmp (md s')) = [] \<and>
         comm_text (block (kmem (snmp (md s'))) (community_read_write_string (ar_snmp_db (snmp (md s'))))) = Some (bytes_of ''private'') \<and>
         comm_text (block (kmem (snmp (md s'))) (community_read_only_string (ar_snmp_db (snmp (md s'))))) = Some (bytes_of ''public'')
       else oid_table (ar_snmp_db (snmp (md s'))) = None) \<and>
      (wakeup_wf (wakeup (md s')) \<longleftrightarrow> env_wakeup_kz env 0 \<and> env_wakeup_kz env 1 \<and> env_wakeup_kz env 2)
    else ar_init env (system_boot h) = Inr (- 4, s') \<and> none_registered s'"
proof -
  note made = entries_made_ok [OF assms(1), of h]
  have init: "ar_init env (system_boot h) = init_databases env (entries_made env h)"
    using assms(1) by (intro init_unfold) (simp add: env_entries_def devices_ok_def)
  show ?thesis
  proof (cases "intf_ok env rx tx")
    case True
    then obtain m where m: "env_maxsize env rx = Some m" by (auto simp: intf_ok_def)
    obtain c sn w r where c: "ar_intf_init_db (env_net env) (env_port env) (env_maxsize env) (env_core_kz env) core_boot = Inr (0, c)"
      "p_ar_maxsize c = Some m" "core_ready c \<or> ar_arptblsize c = 0"
      and sn: "ar_snmp_init_db (Some m) (env_snmp_kz env) (env_pick env) (snmp_boot h) = Inr (0, sn)"
      and w: "ar_wakeup_init_db (Some m) (env_wakeup_kz env) wakeup_boot = Inr (r, w)"
        "wakeup_wf w \<longleftrightarrow> env_wakeup_kz env 0 \<and> env_wakeup_kz env 1 \<and> env_wakeup_kz env 2"
      using databases_made [OF assms(2) True assms(3,4) m] by metis
    note run = init_databases_run [OF c(1,2) sn w(1)]
    have strings: "if strings_fit (env_pick env) h
      then snmp_wf sn \<and> oid_view sn = [] \<and>
        comm_text (block (kmem sn) (community_read_write_string (ar_snmp_db sn))) = Some (bytes_of ''private'') \<and>
        comm_text (block (kmem sn) (community_read_only_string (ar_snmp_db sn))) = Some (bytes_of ''public'')
      else oid_table (ar_snmp_db sn) = None"
      using snmp_init_strings [where kz = "env_snmp_kz env", OF assms(3,4), of m h] sn by auto
    let ?s = "(entries_made env h)\<lparr>md := \<lparr>core = c, snmp = sn, wakeup = w\<rparr>\<rparr>"
    show ?thesis
    proof (cases "0 \<le> env_notifier env")
      case ok: True
      then show ?thesis
        using True made c w m strings
        by (intro exI [of _ "?s\<lparr>pm_notifier := True\<rparr>"]) (simp add: init run all_registered_def)
    next
      case False
      obtain s' where "init_undo ?s = Inr (- 4, s')" "none_registered s'"
        using undo_clean [of ?s] made by auto
      with False show ?thesis by (auto simp: init run)
    qed
  next
    case False
    obtain r c where c: "ar_intf_init_db (env_net env) (env_port env) (env_maxsize env) (env_core_kz env) core_boot = Inr (r, c)"
      using intf_init_total [OF assms(2)] by blast
    from intf_init_result [OF assms(2) c] False have neg: "r < 0"
      by (auto simp: intf_ok_def split: if_splits)
    let ?s = "(entries_made env h)\<lparr>md := (md (entries_made env h))\<lparr>core := c\<rparr>\<rparr>"
    obtain s' where "init_undo ?s = Inr (- 4, s')" "none_registered s'"
      using undo_clean [of ?s] made by auto
    moreover have "ar_init env (system_boot h) = init_undo ?s"
      unfolding init init_databases_def entries_made_md using c neg by (simp add: system_boot_def)
    ultimately show ?thesis using False by auto
  qed
qed

section \<open>Properties\<close>

text \<open>
  Claim C15.  Loading, when the two devices, the \<open>/proc\<close> entries and the sysfs group can be created
  and the SNMP table allocated.  With a port, its sizes, memory for the address tables and the
  notifier registered, the status is 0, everything is registered, and the databases are set up
  as far as memory allows: the address tables at their sizes, the SNMP database empty with the
  strings \<open>private\<close> and \<open>public\<close> when both strings could be allocated (without its table
  otherwise), the rule tables well-formed exactly when all three could be allocated.  Otherwise
  the status is \<open>-AR_INIT_ERROR\<close> and nothing is left registered.
\<close>

theorem load_outcome:
  assumes "env_entries env" and "ar_get_fm_port (env_net env) (env_port env) = Inr (rx, tx)"
    and "alloc_fresh (env_pick env)" and "env_snmp_kz env 0"
  shows "\<exists>s'. if intf_ok env rx tx \<and> 0 \<le> env_notifier env
    then ar_init env (system_boot h) = Inr (0, s') \<and> all_registered s' \<and>
      p_ar_maxsize (core (md s')) = env_maxsize env rx \<and>
      (core_ready (core (md s')) \<or> ar_arptblsize (core (md s')) = 0) \<and>
      (if strings_fit (env_pick env) h
       then snmp_wf (snmp (md s')) \<and> oid_view (snmp (md s')) = [] \<and>
         comm_text (block (kmem (snmp (md s'))) (community_read_write_string (ar_snmp_db (snmp (md s'))))) = Some (bytes_of ''private'') \<and>
         comm_text (block (kmem (snmp (md s'))) (community_read_only_string (ar_snmp_db (snmp (md s'))))) = Some (bytes_of ''public'')
       else oid_table (ar_snmp_db (snmp (md s'))) = None) \<and>
      (wakeup_wf (wakeup (md s')) \<longleftrightarrow> env_wakeup_kz env 0 \<and> env_wakeup_kz env 1 \<and> env_wakeup_kz env 2)
    else ar_init env (system_boot h) = Inr (- 4, s') \<and> none_registered s'"
  using assms by (rule load_result)

definition demo_env :: init_env where
  "demo_env = \<lparr>env_net = demo_net, env_port = ''fm1-mac5'', env_maxsize = (\<lambda>_. Some demo_sizes),
     env_chrdev = (\<lambda>_. True), env_mkdir = True, env_data = True, env_create = True, env_kobject = True,
     env_group = 0, env_core_kz = (\<lambda>_. True), env_snmp_kz = (\<lambda>_. True), env_pick = demo_pick,
     env_wakeup_kz = (\<lambda>_. True), env_notifier = 0\<rparr>"

lemma demo_fm_port: "ar_get_fm_port demo_net ''fm1-mac5'' = Inr (Some 1, Some 2)"
  using demo_up by (simp add: port_up_def)

lemma demo_env_sel [simp]:
  "env_net demo_env = demo_net" "env_port demo_env = ''fm1-mac5''" "env_pick demo_env = demo_pick"
  "env_snmp_kz demo_env 0" "env_notifier demo_env = 0" "env_entries demo_env" "devices_ok demo_env"
  "intf_ok demo_env (Some p) tx"
  by (simp_all add: demo_env_def env_entries_def devices_ok_def intf_ok_def)

theorem load_outcome_witness:
  "\<exists>s'. ar_init demo_env (system_boot Map.empty) = Inr (0, s') \<and> all_registered s' \<and> wakeup_wf (wakeup (md s'))"
proof -
  have "env_wakeup_kz demo_env n" for n by (simp add: demo_env_def)
  then show ?thesis
    using load_outcome [of demo_env "Some 1" "Some 2" Map.empty] demo_fm_port demo_pick_fresh by auto
qed

text \<open>
  Unloading after a successful load: everything that was registered is removed again.
\<close>

theorem load_unload:
  assumes "env_entries env" and "ar_get_fm_port (env_net env) (env_port env) = Inr (rx, tx)"
    and "alloc_fresh (env_pick env)" and "env_snmp_kz env 0" and "intf_ok env rx tx" and "0 \<le> env_notifier env"
  shows "\<exists>s1 s2. ar_init env (system_boot h) = Inr (0, s1) \<and> all_registered s1 \<and>
    ar_exit s1 = Inr s2 \<and> none_registered s2"
proof -
  obtain s1 where s1: "ar_init env (system_boot h) = Inr (0, s1)" "all_registered s1"
    using load_result [OF assms(1-3), of h] assms(4-6) by (auto split: if_splits)
  with exit_clean [OF s1(2)] show ?thesis by blast
qed

theorem load_unload_witness:
  "\<exists>s1 s2. ar_init demo_env (system_boot Map.empty) = Inr (0, s1) \<and> ar_exit s1 = Inr s2 \<and> chrdevs s2 = {}"
  using load_unload [of demo_env "Some 1" "Some 2" Map.empty] demo_fm_port demo_pick_fresh
  by (auto simp: none_registered_def)

text \<open>
  Claim C39.  Failures that loading does not notice: when the sysfs group, or the second or third
  step of the \<open>/proc\<close> interface, cannot be created, the module still loads with status 0, and
  unloading it uses a released object.
\<close>

theorem load_ignores_failures:
  assumes "devices_ok env" and "ar_get_fm_port (env_net env) (env_port env) = Inr (rx, tx)"
    and "alloc_fresh (env_pick env)" and "env_snmp_kz env 0" and "intf_ok env rx tx" and "0 \<le> env_notifier env"
    and "(env_kobject env \<and> env_group env \<noteq> 0) \<or> (env_mkdir env \<and> (env_data env, env_create env) \<noteq> (True, True))"
  shows "\<exists>s'. ar_init env (system_boot h) = Inr (0, s') \<and> ar_exit s' = Inl UseAfterFree"
proof -
  obtain m where m: "env_maxsize env rx = Some m" using assms(5) by (auto simp: intf_ok_def)
  obtain c sn w r where c: "ar_intf_init_db (env_net env) (env_port env) (env_maxsize env) (env_core_kz env) core_boot = Inr (0, c)"
    "p_ar_maxsize c = Some m"
    and sn: "ar_snmp_init_db (Some m) (env_snmp_kz env) (env_pick env) (snmp_boot h) = Inr (0, sn)"
    and w: "ar_wakeup_init_db (Some m) (env_wakeup_kz env) wakeup_boot = Inr (r, w)"
    using databases_made [OF assms(2,5,3,4) m] by metis
  let ?s = "(entries_made env h)\<lparr>md := \<lparr>core = c, snmp = sn, wakeup = w\<rparr>, pm_notifier := True\<rparr>"
  have "ar_init env (system_boot h) = Inr (0, ?s)"
    using init_databases_run [OF c sn w] assms(6) by (simp add: init_unfold [OF assms(1)])
  moreover have "ar_kobj ?s = KFreed \<or> ar_kobj ?s \<noteq> KFreed \<and> ar_dir ?s = GFreed"
    using assms(7)
    by (auto simp: entries_made_def ar_proc_init_def ar_create_sysfs_def ar_sysfs_init_def split: if_splits)
  then have "ar_exit ?s = Inl UseAfterFree"
    by (cases "ar_kobj ?s") (auto simp: ar_exit_def sysfs_exit_def unregister_chrdev_def ar_proc_exit_def)
  ultimately show ?thesis by blast
qed

theorem load_ignores_failures_witness:
  "\<exists>s'. ar_init (demo_env\<lparr>env_group := - 12\<rparr>) (system_boot Map.empty) = Inr (0, s') \<and> ar_exit s' = Inl UseAfterFree"
proof -
  let ?e = "demo_env\<lparr>env_group := - 12\<rparr>"
  have "devices_ok ?e" "intf_ok ?e (Some 1) (Some 2)" "env_kobject ?e \<and> env_group ?e \<noteq> 0"
    by (simp_all add: demo_env_def devices_ok_def intf_ok_def)
  then show ?thesis
    using load_ignores_failures [of ?e "Some 1" "Some 2" Map.empty] demo_fm_port demo_pick_fresh by simp
qed

text \<open>
  The same for the wake-up database: when its first table cannot be allocated, the
  module still loads with status 0, and the first UDP rule given to the wake-up device is
  searched for through a NULL table.
\<close>

theorem load_without_wakeup_tables:
  assumes "devices_ok env" and "ar_get_fm_port (env_net env) (env_port env) = Inr (rx, tx)"
    and "alloc_fresh (env_pick env)" and "env_snmp_kz env 0" and "intf_ok env rx tx" and "0 \<le> env_notifier env"
    and "\<not> env_wakeup_kz env 0" and "env_maxsize env rx = Some m" and "max_num_of_udp_port_filtering m \<noteq> 0"
    and "copy_port um arg = Some rule"
  shows "\<exists>s'. ar_init env (system_boot h) = Inr (0, s') \<and>
    ar_wakeup_interface_ioctl um kz (wakeup_cmd CONFIG_WAKEUP_UDP_RULE) arg (wakeup (md s')) = Inl NullDeref"
proof -
  obtain c sn w r where c: "ar_intf_init_db (env_net env) (env_port env) (env_maxsize env) (env_core_kz env) core_boot = Inr (0, c)"
    "p_ar_maxsize c = Some m"
    and sn: "ar_snmp_init_db (Some m) (env_snmp_kz env) (env_pick env) (snmp_boot h) = Inr (0, sn)"
    and w: "ar_wakeup_init_db (Some m) (env_wakeup_kz env) wakeup_boot = Inr (r, w)"
    and null: "ar_wakeup_udp_entity w = TNull" "udptblsize w = max_num_of_udp_port_filtering m"
      "udp_ports_table_size (ar_wakeup_db w) = 0"
    using databases_made [OF assms(2,5,3,4,8)] assms(7) by metis
  obtain n where n: "unat (udptblsize w) = Suc n"
    using null(2) assms(9) by (cases "unat (udptblsize w)") (auto simp: unat_eq_0)
  have "recv_udp_rule (ArgPort rule) w = Inl NullDeref"
    using null n by (simp add: recv_udp_rule_def ar_wakeup_get_index_def ar_wakeup_get_free_index_def)
  then have "ar_wakeup_interface_ioctl um kz (wakeup_cmd CONFIG_WAKEUP_UDP_RULE) arg w = Inl NullDeref"
    using assms(10) by (simp add: ar_wakeup_interface_ioctl_def ioctl_port_rule_def ar_wakeup_recv_config_def)
  with init_databases_run [OF c sn w] assms(6) show ?thesis by (simp add: init_unfold [OF assms(1)])
qed

theorem load_without_wakeup_tables_witness:
  "\<exists>s'. ar_init (demo_env\<lparr>env_wakeup_kz := (\<lambda>i. i \<noteq> 0)\<rparr>) (system_boot Map.empty) = Inr (0, s') \<and>
     ar_wakeup_interface_ioctl (demo_um []) (\<lambda>_. True) 1 0x2000 (wakeup (md s')) = Inl NullDeref"
proof -
  let ?e = "demo_env\<lparr>env_wakeup_kz := (\<lambda>i. i \<noteq> 0)\<rparr>"
  have "devices_ok ?e" "intf_ok ?e (Some 1) (Some 2)" "env_maxsize ?e (Some 1) = Some demo_sizes"
    by (simp_all add: demo_env_def devices_ok_def intf_ok_def)
  moreover have "copy_port (demo_um []) 0x2000 = Some (demo_rule 5 6)"
    by (simp add: copy_port_def demo_um_def)
  moreover have "max_num_of_udp_port_filtering demo_sizes \<noteq> 0" by (simp add: demo_sizes_def)
  ultimately show ?thesis
    using load_without_wakeup_tables [of ?e "Some 1" "Some 2" demo_sizes "demo_um []" "0x2000" "demo_rule 5 6"
        Map.empty "\<lambda>_. True"] demo_fm_port demo_pick_fresh
    by simp
qed

end
