(* ===== verification/AR_Frame.thy ===== *)
theory AR_Frame
  imports AR_Power AR_WakeupIoctl
begin

text \<open>
  What the operations of one database leave alone: the settings and pointers beside the tables.
  Used where the databases are seen together.
\<close>

section \<open>Network databases\<close>

text \<open>The fields that only loading and the sysfs file set.\<close>

definition core_settings :: "core_state \<Rightarrow> core_tbl option \<times> core_tbl option \<times> core_tbl option \<times> int" where
  "core_settings s = (auto_res_table (ar_arp_db s), auto_res_table_assigned (ar_nd_db s),
     auto_res_table_tmp (ar_nd_db s), enable_conflict_detection (ar_arp_db s))"

lemma core_settings_upd [simp]:
  "core_settings (s\<lparr>ar_arp_tbl := t\<rparr>) = core_settings s"
  "core_settings (s\<lparr>ar_arp_tbl := t, ar_arp_db := (ar_arp_db s)\<lparr>arp_table_size := n\<rparr>\<rparr>) = core_settings s"
  by (simp_all add: core_settings_def)

lemma arp_addrs_settings:
  "arp_addrs d vlan as index s = Inr (b, i, s') \<Longrightarrow> core_settings s' = core_settings s"
proof (induction "as" arbitrary: index s)
  case Nil
  then show ?case by simp
next
  case (Cons a as)
  then show ?case
    unfolding arp_addrs.simps Let_def rbind_eq_Inr by (force simp: core_settings_def split: if_splits)
qed

lemma arp_vlans_settings:
  "arp_vlans netdev ds index s = Inr s' \<Longrightarrow> core_settings s' = core_settings s"
  by (induction netdev ds index s rule: arp_vlans.induct)
    (auto simp: rbind_eq_Inr split: if_splits option.splits dest: arp_addrs_settings)

lemma put_tem_settings: "put_tem i e s = Inr s' \<Longrightarrow> core_settings s' = core_settings s"
  by (auto simp: put_tem_def rbind_eq_Inr core_settings_def)

lemma put_tgt_settings: "put_tgt i e s = Inr s' \<Longrightarrow> core_settings s' = core_settings s"
  by (auto simp: put_tgt_def rbind_eq_Inr core_settings_def)

lemma ndp_phys_settings:
  "ndp_phys d as p s = Inr (p', s') \<Longrightarrow> core_settings s' = core_settings s"
  by (induction d as p s rule: ndp_phys.induct)
    (auto simp: rbind_eq_Inr split: if_splits dest: put_tem_settings put_tgt_settings)

lemma ndp_vlan_settings:
  "ndp_vlan d as p s = Inr (p', s') \<Longrightarrow> core_settings s' = core_settings s"
  by (induction d as p s rule: ndp_vlan.induct)
    (auto simp: rbind_eq_Inr split: if_splits dest: put_tem_settings put_tgt_settings)

lemma ndp_vlans_settings:
  "ndp_vlans netdev ds p s = Inr s' \<Longrightarrow> core_settings s' = core_settings s"
  by (induction netdev ds p s rule: ndp_vlans.induct)
    (auto simp: rbind_eq_Inr split: if_splits option.splits dest: ndp_vlan_settings)

lemma gather_settings:
  "ar_get_interface_info net d s = Inr (r, s') \<Longrightarrow> core_settings s' = core_settings s"
proof -
  let ?s0 = "s\<lparr>ar_arp_db := (ar_arp_db s)\<lparr>arp_table_size := 0\<rparr>,
      ar_nd_db := (ar_nd_db s)\<lparr>table_size_assigned := 0, table_size_tmp := 0\<rparr>\<rparr>"
  have s0: "core_settings ?s0 = core_settings s" by (simp add: core_settings_def)
  have v4: "core_settings t = core_settings u" if "ar_get_ipv4_info net e u = Inr t" for e t u
    using that by (auto simp: ar_get_ipv4_info_def rbind_eq_Inr split: option.splits if_splits
        dest!: arp_addrs_settings arp_vlans_settings)
  have v6: "core_settings t = core_settings u" if "ar_get_ipv6_info net e u = Inr t" for e t u
    using that by (auto simp: ar_get_ipv6_info_def rbind_eq_Inr split: option.splits
        dest!: ndp_phys_settings ndp_vlans_settings)
  assume "ar_get_interface_info net d s = Inr (r, s')"
  then show ?thesis
    using s0 by (auto simp: ar_get_interface_info_def Let_def rbind_eq_Inr split: option.splits dest!: v4 v6)
qed

lemma set_echo_settings [simp]: "core_settings (set_echo c) = core_settings c"
  by (simp add: core_settings_def)

lemma deep_sleep_settings:
  assumes "ar_process_deep_sleep_event net port handle m = Inr (r, m', calls)"
  shows "core_settings (core m') = core_settings (core m)"
proof -
  obtain rx tx where p: "ar_get_fm_port net port = Inr (rx, tx)"
    using assms by (auto simp: ar_process_deep_sleep_event_def rbind_eq_Inr)
  show ?thesis
  proof (cases "rx = None \<or> tx = None")
    case True
    with deep_sleep_down [OF p, of handle m] assms show ?thesis by simp
  next
    case False
    then obtain q t where qt: "rx = Some q" "tx = Some t" by (cases rx; cases tx) auto
    obtain ret c where g: "ar_get_interface_info net (ar_get_device net port) (core m) = Inr (ret, c)"
      using assms p qt by (auto simp: ar_process_deep_sleep_event_def Let_def rbind_eq_Inr)
    have "core m' = c \<or> core m' = set_echo c"
      using assms p qt g
      by (auto simp: ar_process_deep_sleep_event_def set_echo_def Let_def split: if_splits option.splits)
    with gather_settings [OF g] show ?thesis by auto
  qed
qed

section \<open>Wake-up database\<close>

definition wakeup_settings ::
    "wakeup_state \<Rightarrow> (wakeup_tbl option \<times> wakeup_tbl option \<times> wakeup_tbl option) \<times> (int \<times> int \<times> int) \<times> u16" where
  "wakeup_settings s =
     ((ip_prot_table_ptr (ar_wakeup_db s), udp_ports_table_ptr (ar_wakeup_db s), tcp_ports_table_ptr (ar_wakeup_db s)),
      (ip_prot_pass_on_hit (ar_wakeup_db s), udp_port_pass_on_hit (ar_wakeup_db s), tcp_port_pass_on_hit (ar_wakeup_db s)),
      tcp_flags_mask (ar_wakeup_db s))"

lemma wakeup_settings_upd [simp]:
  "wakeup_settings (s\<lparr>ar_wakeup_udp_entity := t\<rparr>) = wakeup_settings s"
  "wakeup_settings (s\<lparr>ar_wakeup_tcp_entity := t\<rparr>) = wakeup_settings s"
  "wakeup_settings (s\<lparr>ar_wakeup_ip_prot_tbl := u\<rparr>) = wakeup_settings s"
  "wakeup_settings (s\<lparr>ar_wakeup_udp_entity := t,
     ar_wakeup_db := (ar_wakeup_db s)\<lparr>udp_ports_table_size := n\<rparr>\<rparr>) = wakeup_settings s"
  "wakeup_settings (s\<lparr>ar_wakeup_tcp_entity := t,
     ar_wakeup_db := (ar_wakeup_db s)\<lparr>tcp_ports_table_size := n\<rparr>\<rparr>) = wakeup_settings s"
  "wakeup_settings (s\<lparr>ar_wakeup_ip_prot_tbl := u,
     ar_wakeup_db := (ar_wakeup_db s)\<lparr>ip_prot_table_size := n\<rparr>\<rparr>) = wakeup_settings s"
  by (simp_all add: wakeup_settings_def)

lemma recv_udp_settings: "recv_udp_rule a s = Inr (r, s') \<Longrightarrow> wakeup_settings s' = wakeup_settings s"
  unfolding recv_udp_rule_def rbind_eq_Inr by (cases a) (auto simp: rbind_eq_Inr split: if_split_asm)

lemma recv_tcp_settings: "recv_tcp_rule a s = Inr (r, s') \<Longrightarrow> wakeup_settings s' = wakeup_settings s"
  unfolding recv_tcp_rule_def rbind_eq_Inr by (cases a) (auto simp: rbind_eq_Inr split: if_split_asm)

lemma recv_ip_settings: "recv_ip_prot a s = Inr (r, s') \<Longrightarrow> wakeup_settings s' = wakeup_settings s"
  unfolding recv_ip_prot_def rbind_eq_Inr by (cases a) (auto simp: rbind_eq_Inr split: if_split_asm)

lemma recv_config_settings:
  "ar_wakeup_recv_config cmd a s = Inr (r, s') \<Longrightarrow> wakeup_settings s' = wakeup_settings s"
  by (auto simp: ar_wakeup_recv_config_def split: if_splits
      dest: recv_udp_settings recv_tcp_settings recv_ip_settings)

lemma wakeup_ioctl_settings:
  "ar_wakeup_interface_ioctl um kz cmd arg s = Inr (r, s') \<Longrightarrow> wakeup_settings s' = wakeup_settings s"
  by (auto simp: ar_wakeup_interface_ioctl_def ioctl_ip_proto_def ioctl_port_rule_def rbind_eq_Inr Let_def
      split: if_splits option.splits dest!: recv_config_settings)

section \<open>SNMP database\<close>

text \<open>The settings of the database, with the contents of the two community blocks.\<close>

definition snmp_settings ::
    "snmp_state \<Rightarrow> u8 list \<times> u8 list \<times> int \<times> snmp_tbl option" where
  "snmp_settings s = (let db = ar_snmp_db s in
     (block (kmem s) (community_read_write_string db), block (kmem s) (community_read_only_string db),
      control db, oid_table db))"

lemma snmp_settings_ext:
  "snmp_wf s \<Longrightarrow> heap_ext (kmem s) h \<Longrightarrow> snmp_settings (s\<lparr>kmem := h\<rparr>) = snmp_settings s"
  using snmp_wfD(3,4) [of s] heap_ext_live [of "kmem s" h] by (simp add: snmp_settings_def Let_def)

lemma snmp_create_settings:
  "snmp_create e s = Inr s' \<Longrightarrow> snmp_settings s' = snmp_settings s"
  by (auto simp: snmp_create_def rbind_eq_Inr snmp_settings_def Let_def split: if_splits)

lemma ioctl_create_settings:
  assumes wf: "snmp_wf s" and pick: "alloc_fresh pick"
    and run: "ioctl_create um pick (snmp_cmd CREATE_SNMP_ENTRY) arg s = Inr (r, s')"
  shows "snmp_settings s' = snmp_settings s"
proof (rule ioctl_create_cases [OF pick, of um "snmp_cmd CREATE_SNMP_ENTRY" arg s])
  fix r' h
  assume "ioctl_create um pick (snmp_cmd CREATE_SNMP_ENTRY) arg s = Inr (r', s\<lparr>kmem := h\<rparr>)"
    and "heap_grows (kmem s) (create_blocks um arg r') h"
  then show ?thesis using run snmp_settings_ext [OF wf heap_grows_ext, of "create_blocks um arg r'" h] by auto
next
  fix u :: auto_res_snmp_e and p q
  let ?h = "(kmem s)(p \<mapsto> take 128 (um_bytes um (oidVal u)), q \<mapsto> take 132 (um_bytes um (resVal u)))"
  assume fill: "ioctl_create um pick (snmp_cmd CREATE_SNMP_ENTRY) arg s =
      ar_snmp_recv_agent_config (snmp_cmd CREATE_SNMP_ENTRY) (Some (u\<lparr>oidVal := p, resVal := q\<rparr>)) (s\<lparr>kmem := ?h\<rparr>)"
    and new: "heap_grows (kmem s) 2 ?h"
  from trans [OF fill [symmetric] run] have "snmp_create (u\<lparr>oidVal := p, resVal := q\<rparr>) (s\<lparr>kmem := ?h\<rparr>) = Inr s'"
    by (auto simp: ar_snmp_recv_agent_config_def rbind_eq_Inr)
  from snmp_create_settings [OF this] snmp_settings_ext [OF wf heap_grows_ext [OF new]] show ?thesis by simp
qed

lemma snmp_settings_swapped:
  assumes wf: "snmp_wf s" and p: "kmem s p = None" and cmd: "comm_cmd cmd"
  shows "snmp_settings (comm_swapped cmd p b s) = (case snmp_settings s of (rw, ro, c, t) \<Rightarrow>
    (if cmd = snmp_cmd CONFIG_SNMP_PRIV_COMM then b else rw, if cmd = snmp_cmd CONFIG_SNMP_PUB_COMM then b else ro, c, t))"
proof -
  have "community_read_write_string (ar_snmp_db s) \<noteq> community_read_only_string (ar_snmp_db s)"
    using snmp_wfD(5) [OF wf] by (simp add: owned_def)
  moreover have "community_read_write_string (ar_snmp_db s) \<noteq> p" "community_read_only_string (ar_snmp_db s) \<noteq> p"
    using snmp_wfD(3,4) [OF wf] p by (auto simp: live_def)
  ultimately show ?thesis
    using cmd by (auto simp: comm_swapped_def snmp_settings_def comm_ptr_def comm_cmd_def block_def Let_def)
qed

text \<open>What a request leaves of the settings: a successful community request replaces one block.\<close>

definition requested_settings ::
    "'z user_mem_scheme \<Rightarrow> u32 \<Rightarrow> nat \<Rightarrow> int \<Rightarrow> snmp_state \<Rightarrow> u8 list \<times> u8 list \<times> int \<times> snmp_tbl option" where
  "requested_settings um cmd arg r s = (case snmp_settings s of (rw, ro, c, t) \<Rightarrow>
     (if r = 0 \<and> cmd = snmp_cmd CONFIG_SNMP_PRIV_COMM then take 16 (um_bytes um arg) else rw,
      if r = 0 \<and> cmd = snmp_cmd CONFIG_SNMP_PUB_COMM then take 16 (um_bytes um arg) else ro, c, t))"

lemma ioctl_comm_settings:
  assumes wf: "snmp_wf s" and pick: "alloc_fresh pick" and cmd: "comm_cmd cmd"
    and ends: "has_nul (take 16 (um_bytes um arg)) \<or> \<not> readable um arg 16"
    and run: "ioctl_comm um pick cmd arg s = Inr (r, s')"
  shows "snmp_settings s' = requested_settings um cmd arg r s" and "r = 0 \<Longrightarrow> 16 \<le> length (um_bytes um arg)"
proof -
  have "snmp_settings s' = requested_settings um cmd arg r s \<and> (r = 0 \<longrightarrow> 16 \<le> length (um_bytes um arg))"
  proof (rule ioctl_comm_cases [OF wf pick cmd ends])
    fix r' h
    assume "ioctl_comm um pick cmd arg s = Inr (r', s\<lparr>kmem := h\<rparr>)" and "r' \<noteq> 0"
      and "heap_grows (kmem s) (comm_blocks r') h"
    with run snmp_settings_ext [OF wf heap_grows_ext, of "comm_blocks r'" h] show ?thesis
      by (auto simp: requested_settings_def split: prod.split)
  next
    fix p
    assume "ioctl_comm um pick cmd arg s = Inr (0, comm_swapped cmd p (take 16 (um_bytes um arg)) s)"
      and p: "kmem s p = None" and "readable um arg 16"
    with run snmp_settings_swapped [OF wf p cmd] show ?thesis
      by (auto simp: requested_settings_def readable_def split: prod.split)
  qed
  then show "snmp_settings s' = requested_settings um cmd arg r s" and "r = 0 \<Longrightarrow> 16 \<le> length (um_bytes um arg)"
    by simp_all
qed

lemma ioctl_settings:
  assumes "snmp_wf s" and "alloc_fresh pick" and "request_ends um cmd arg"
    and run: "ar_interface_ioctl um pick cmd arg s = Inr (r, s')"
  shows "snmp_settings s' = requested_settings um cmd arg r s"
    and "r = 0 \<Longrightarrow> comm_cmd cmd \<Longrightarrow> 16 \<le> length (um_bytes um arg)"
proof -
  consider (create) "cmd = snmp_cmd CREATE_SNMP_ENTRY" | (comm) "comm_cmd cmd" "cmd \<noteq> snmp_cmd CREATE_SNMP_ENTRY"
    | (other) "cmd \<noteq> snmp_cmd CREATE_SNMP_ENTRY" "\<not> comm_cmd cmd" by blast
  then have "snmp_settings s' = requested_settings um cmd arg r s \<and>
      (r = 0 \<longrightarrow> comm_cmd cmd \<longrightarrow> 16 \<le> length (um_bytes um arg))"
  proof cases
    case create
    with run have "ioctl_create um pick (snmp_cmd CREATE_SNMP_ENTRY) arg s = Inr (r, s')"
      by (simp add: ar_interface_ioctl_def)
    from ioctl_create_settings [OF assms(1,2) this] create show ?thesis
      by (simp add: requested_settings_def comm_cmd_def split: prod.split)
  next
    case comm
    with assms(3) run have "ioctl_comm um pick cmd arg s = Inr (r, s')"
      "has_nul (take 16 (um_bytes um arg)) \<or> \<not> readable um arg 16"
      by (auto simp: ar_interface_ioctl_def request_ends_def comm_cmd_def)
    from ioctl_comm_settings [OF assms(1,2) comm(1) this(2,1)] show ?thesis by simp
  next
    case other
    with assms(3) run have "s' = s" "r \<noteq> 0"
      by (auto simp: ar_interface_ioctl_def request_ends_def comm_cmd_def)
    with other show ?thesis by (simp add: requested_settings_def split: prod.split)
  qed
  then show "snmp_settings s' = requested_settings um cmd arg r s"
    and "r = 0 \<Longrightarrow> comm_cmd cmd \<Longrightarrow> 16 \<le> length (um_bytes um arg)" by simp_all
qed

end
