(* ===== verification/AR_System.thy ===== *)
theory AR_System
  imports AR_Init AR_Frame
begin

text \<open>
  The module as a whole, from the outside: the entry points the kernel calls through the tables
  the module registers (\<open>ar_snmp_interface_fops\<close>, \<open>ar_wakeup_interface_fops\<close>, \<open>ar_sysfs_attrs\<close>,
  \<open>proc_fops\<close>, \<open>ar_notifier_block\<close>), an abstract machine whose state is the configuration a user
  sees, and the refinement between them for any sequence of calls.
\<close>

section \<open>The entry points\<close>

text \<open>
  A call with what it meets: the process's memory and the allocator for the devices, the page
  written for the sysfs files, the network devices present for the files and events that look at
  them.
\<close>

datatype entry =
    Snmp_Ioctl snmp_user_mem allocator u32 nat
  | Wakeup_Ioctl wakeup_user_mem alloc_ok u32 nat
  | Sysfs_Write sysfs_attr alloc_ok "u8 list" nat
  | Stats_Write "net_device list" nat
  | Proc_Write "net_device list"
  | Pm_Event "net_device list" nat

fun entry_call ::
    "string \<Rightarrow> (fm_port \<Rightarrow> nat) \<Rightarrow> entry \<Rightarrow> ar_module \<Rightarrow> (int \<times> ar_module \<times> fmd_call list) res" where
  "entry_call port handle (Snmp_Ioctl um pick cmd arg) m =
     rbind (ar_interface_ioctl um pick cmd arg (snmp m)) (\<lambda>(r, s). Inr (r, m\<lparr>snmp := s\<rparr>, []))"
| "entry_call port handle (Wakeup_Ioctl um kz cmd arg) m =
     rbind (ar_wakeup_interface_ioctl um kz cmd arg (wakeup m)) (\<lambda>(r, s). Inr (r, m\<lparr>wakeup := s\<rparr>, []))"
| "entry_call port handle (Sysfs_Write attr kz buf n) m =
     rbind (sysfs_store attr kz buf n m) (\<lambda>(r, m). Inr (int r, m, []))"
| "entry_call port handle (Stats_Write net n) m =
     rbind (ar_fman_stats_show net port n) (\<lambda>(r, calls). Inr (int r, m, calls))"
| "entry_call port handle (Proc_Write net) m = ar_handle_deep_sleep_event net port handle m"
| "entry_call port handle (Pm_Event net event) m = ar_handle_pm_event net port handle event m"

section \<open>The abstract machine\<close>

text \<open>What the module is configured to answer and to wake up for.\<close>

record ar_config =
  cf_oids :: "(u8 list \<times> u16 \<times> u16 \<times> u8 list) list"
  cf_rw :: "u8 list option"
  cf_ro :: "u8 list option"
  cf_getall :: int
  cf_udp :: "auto_res_port_filtering_e list"
  cf_tcp :: "auto_res_port_filtering_e list"
  cf_protos :: "u8 list"
  cf_pass :: "int \<times> int \<times> int"
  cf_mask :: u16
  cf_conflict :: int

record ar_rooms =
  rm_oid :: nat
  rm_udp :: nat
  rm_tcp :: nat
  rm_prot :: nat
  rm_arp :: nat
  rm_ndp :: nat

definition config_of :: "ar_module \<Rightarrow> ar_config" where
  "config_of m = (let s = snmp m; w = wakeup m in
     \<lparr>cf_oids = oid_view s,
      cf_rw = comm_text (block (kmem s) (community_read_write_string (ar_snmp_db s))),
      cf_ro = comm_text (block (kmem s) (community_read_only_string (ar_snmp_db s))),
      cf_getall = control (ar_snmp_db s),
      cf_udp = udp_rules w, cf_tcp = tcp_rules w, cf_protos = ip_protos w,
      cf_pass = (ip_prot_pass_on_hit (ar_wakeup_db w), udp_port_pass_on_hit (ar_wakeup_db w),
                 tcp_port_pass_on_hit (ar_wakeup_db w)),
      cf_mask = tcp_flags_mask (ar_wakeup_db w),
      cf_conflict = enable_conflict_detection (ar_arp_db (core m))\<rparr>)"

definition rooms_of :: "ar_module \<Rightarrow> ar_rooms" where
  "rooms_of m =
     \<lparr>rm_oid = unat (ar_snmp_tblsize (snmp m)), rm_udp = unat (udptblsize (wakeup m)),
      rm_tcp = unat (tcptblsize (wakeup m)), rm_prot = unat (iptblsize (wakeup m)),
      rm_arp = unat (ar_arptblsize (core m)), rm_ndp = unat (ar_ndptblsize (core m))\<rparr>"

text \<open>What the drivers see of a call: of the module, the configuration and the addresses.\<close>

datatype seen =
    Saw_Wakeup nat int
  | Saw_Enter fm_port nat ar_config "auto_res_arp_entry list" "auto_res_ndp_entry list" "auto_res_ndp_entry list"
  | Saw_Exit fm_port fm_port
  | Saw_Stats "fm_port option"

fun seen_of :: "fmd_call \<Rightarrow> seen" where
  "seen_of (Set_Wakeup i v) = Saw_Wakeup i v"
| "seen_of (Enter_Autores p h m) =
     Saw_Enter p h (config_of m) (arp_rows (core m)) (tem_rows (core m)) (tgt_rows (core m))"
| "seen_of (Exit_Autores rx tx) = Saw_Exit rx tx"
| "seen_of (Get_Stats p) = Saw_Stats p"

text \<open>The effect of each call; the status says whether a device request went through.\<close>

definition spec_snmp :: "nat \<Rightarrow> snmp_user_mem \<Rightarrow> u32 \<Rightarrow> nat \<Rightarrow> ar_config \<Rightarrow> ar_config" where
  "spec_snmp room um cmd arg c =
     (if cmd = snmp_cmd CREATE_SNMP_ENTRY then c\<lparr>cf_oids := put room (cf_oids c) (user_item um arg)\<rparr>
      else if cmd = snmp_cmd CONFIG_SNMP_PRIV_COMM then c\<lparr>cf_rw := comm_text (take 16 (um_bytes um arg))\<rparr>
      else if cmd = snmp_cmd CONFIG_SNMP_PUB_COMM then c\<lparr>cf_ro := comm_text (take 16 (um_bytes um arg))\<rparr>
      else c)"

definition spec_wakeup :: "ar_rooms \<Rightarrow> wakeup_user_mem \<Rightarrow> alloc_ok \<Rightarrow> u32 \<Rightarrow> nat \<Rightarrow> ar_config \<Rightarrow> ar_config" where
  "spec_wakeup R um kz cmd arg c =
     (if cmd = wakeup_cmd CONFIG_WAKEUP_IP_PROTO then
        (if kz 0 \<and> um_access um arg
         then c\<lparr>cf_protos := upsert (rm_prot R) (cf_protos c) (prot_key (um_bytes um arg))\<rparr> else c)
      else case copy_port um arg of
        None \<Rightarrow> c
      | Some r \<Rightarrow>
          if cmd = wakeup_cmd CONFIG_WAKEUP_UDP_RULE then c\<lparr>cf_udp := upsert (rm_udp R) (cf_udp c) r\<rparr>
          else if cmd = wakeup_cmd CONFIG_WAKEUP_TCP_RULE then c\<lparr>cf_tcp := upsert (rm_tcp R) (cf_tcp c) r\<rparr>
          else c)"

text \<open>The number a flag file takes from the text, and the string a community file takes.\<close>

definition flag_of :: "u8 list \<Rightarrow> int" where
  "flag_of buf = (if sscanf_s buf = [] then 0 else uint (hd (sscanf_s buf))) - 48"

definition text_len :: "u8 list \<Rightarrow> nat" where
  "text_len buf = (length (cstr_val buf) + 255) mod 256"

definition new_text :: "u8 list \<Rightarrow> u8 list option \<Rightarrow> u8 list option" where
  "new_text buf old = (if 61 \<le> text_len buf then old else Some (take (text_len buf) (cstr_val buf)))"

primrec spec_sysfs :: "sysfs_attr \<Rightarrow> u8 list \<Rightarrow> ar_config \<Rightarrow> ar_config" where
  "spec_sysfs get_all_flag buf c = c\<lparr>cf_getall := flag_of buf\<rparr>"
| "spec_sysfs com_pvt_string buf c = c\<lparr>cf_rw := new_text buf (cf_rw c)\<rparr>"
| "spec_sysfs com_pub_string buf c = c\<lparr>cf_ro := new_text buf (cf_ro c)\<rparr>"
| "spec_sysfs arp_conflict_detect buf c = c\<lparr>cf_conflict := flag_of buf\<rparr>"
| "spec_sysfs ip_prot_pass_on_hit_attr buf c = c\<lparr>cf_pass := (flag_of buf, snd (cf_pass c))\<rparr>"
| "spec_sysfs udp_port_pass_on_hit_attr buf c =
     c\<lparr>cf_pass := (fst (cf_pass c), flag_of buf, snd (snd (cf_pass c)))\<rparr>"
| "spec_sysfs tcp_port_pass_on_hit_attr buf c =
     c\<lparr>cf_pass := (fst (cf_pass c), fst (snd (cf_pass c)), flag_of buf)\<rparr>"
| "spec_sysfs tcp_flag_mask buf c =
     c\<lparr>cf_mask := hex_value (take 4 (map hex_digit (sscanf_s buf) @ replicate 4 0))\<rparr>"

text \<open>Entering deep sleep hands over the configuration with the addresses of the moment.\<close>

definition spec_sleep :: "string \<Rightarrow> (fm_port \<Rightarrow> nat) \<Rightarrow> net_device list \<Rightarrow> ar_config \<Rightarrow> seen list" where
  "spec_sleep port handle net c =
     (case (ar_get_fm_port net port, ar_get_device net port) of
        (Inr (Some rx, Some tx), Some d) \<Rightarrow>
          [Saw_Wakeup (ifindex d) 1,
           Saw_Enter rx (handle tx) c (arp_config net d) (ndp_config temps net d) (ndp_config perms net d)]
      | _ \<Rightarrow> [])"

definition spec_resume :: "string \<Rightarrow> net_device list \<Rightarrow> seen list" where
  "spec_resume port net =
     (case ar_get_fm_port net port of Inr (Some rx, Some tx) \<Rightarrow> [Saw_Exit rx tx] | _ \<Rightarrow> [])"

fun spec_call ::
    "ar_rooms \<Rightarrow> string \<Rightarrow> (fm_port \<Rightarrow> nat) \<Rightarrow> entry \<Rightarrow> int \<Rightarrow> ar_config \<Rightarrow> ar_config \<times> seen list" where
  "spec_call R port handle (Snmp_Ioctl um pick cmd arg) r c =
     (if r = 0 then spec_snmp (rm_oid R) um cmd arg c else c, [])"
| "spec_call R port handle (Wakeup_Ioctl um kz cmd arg) r c = (spec_wakeup R um kz cmd arg c, [])"
| "spec_call R port handle (Sysfs_Write attr kz buf n) r c = (spec_sysfs attr buf c, [])"
| "spec_call R port handle (Stats_Write net n) r c =
     (c, [Saw_Stats (case ar_get_fm_port net port of Inr (rx, tx) \<Rightarrow> rx | Inl _ \<Rightarrow> None)])"
| "spec_call R port handle (Proc_Write net) r c = (c, spec_sleep port handle net c)"
| "spec_call R port handle (Pm_Event net event) r c =
     (c, if event = PM_SUSPEND_PREPARE then spec_sleep port handle net c
         else if event = PM_POST_SUSPEND then spec_resume port net
         else [])"

section \<open>The calls the module is made for\<close>

text \<open>
  Excluded are the calls its other theories show to fault: memory that runs out where it is not
  checked, names and texts that are too long or not terminated, empty rules, and interfaces that
  are incomplete or have more addresses than the tables.
\<close>

definition sleep_ok :: "ar_rooms \<Rightarrow> string \<Rightarrow> net_device list \<Rightarrow> bool" where
  "sleep_ok R port net \<longleftrightarrow>
     (case ar_get_fm_port net port of
        Inl _ \<Rightarrow> False
      | Inr (rx, tx) \<Rightarrow> rx = None \<or> tx = None \<or>
          (case ar_get_device net port of
             None \<Rightarrow> False
           | Some d \<Rightarrow> net_ok net d \<and> net6_ok net d \<and> length (arp_config net d) \<le> rm_arp R \<and>
               length (ndp_config temps net d) < rm_ndp R \<and> length (ndp_config perms net d) < rm_ndp R))"

definition port_found :: "string \<Rightarrow> net_device list \<Rightarrow> bool" where
  "port_found port net \<longleftrightarrow> (case ar_get_fm_port net port of Inl _ \<Rightarrow> False | Inr _ \<Rightarrow> True)"

fun entry_ok :: "ar_rooms \<Rightarrow> string \<Rightarrow> entry \<Rightarrow> bool" where
  "entry_ok R port (Snmp_Ioctl um pick cmd arg) \<longleftrightarrow> alloc_fresh pick \<and> request_ends um cmd arg"
| "entry_ok R port (Wakeup_Ioctl um kz cmd arg) \<longleftrightarrow>
     (if cmd = wakeup_cmd CONFIG_WAKEUP_IP_PROTO then
        prot_valid (um_bytes um arg) \<and> length (cstr_val (um_bytes um arg)) < 10
      else case copy_port um arg of None \<Rightarrow> True | Some r \<Rightarrow> \<not> free_port r)"
| "entry_ok R port (Sysfs_Write attr kz buf n) \<longleftrightarrow> kz 0 \<and> has_nul buf \<and>
     (attr \<in> {com_pvt_string, com_pub_string} \<longrightarrow> text_len buf \<le> 13 \<or> 61 \<le> text_len buf) \<and>
     (attr = tcp_flag_mask \<longrightarrow> list_all is_hex (sscanf_s buf) \<and> 3 \<le> length (cstr_val buf))"
| "entry_ok R port (Stats_Write net n) \<longleftrightarrow> port_found port net"
| "entry_ok R port (Proc_Write net) \<longleftrightarrow> sleep_ok R port net"
| "entry_ok R port (Pm_Event net event) \<longleftrightarrow>
     (if event = PM_SUSPEND_PREPARE then sleep_ok R port net else port_found port net)"

text \<open>The state between calls.\<close>

definition running_ok :: "ar_module \<Rightarrow> bool" where
  "running_ok m \<longleftrightarrow> core_ready (core m) \<and> snmp_wf (snmp m) \<and> wakeup_wf (wakeup m) \<and>
     16 \<le> length (block (kmem (snmp m)) (community_read_write_string (ar_snmp_db (snmp m)))) \<and>
     16 \<le> length (block (kmem (snmp m)) (community_read_only_string (ar_snmp_db (snmp m))))"

section \<open>One call\<close>

definition call_refines :: "string \<Rightarrow> (fm_port \<Rightarrow> nat) \<Rightarrow> entry \<Rightarrow> ar_module \<Rightarrow> bool" where
  "call_refines port handle e m \<longleftrightarrow>
     (\<exists>r m' calls. entry_call port handle e m = Inr (r, m', calls) \<and> running_ok m' \<and> rooms_of m' = rooms_of m \<and>
        spec_call (rooms_of m) port handle e r (config_of m) = (config_of m', map seen_of calls))"

lemma call_refinesI:
  "entry_call port handle e m = Inr (r, m', calls) \<Longrightarrow> running_ok m' \<Longrightarrow> rooms_of m' = rooms_of m \<Longrightarrow>
     spec_call (rooms_of m) port handle e r (config_of m) = (config_of m', map seen_of calls) \<Longrightarrow>
     call_refines port handle e m"
  unfolding call_refines_def by blast

text \<open>What a request does to the stored identifiers.\<close>

lemma ioctl_view:
  assumes "snmp_wf s" and "alloc_fresh pick" and "request_ends um cmd arg"
    and "ar_interface_ioctl um pick cmd arg s = Inr (r, s')"
  shows "oid_view s' = (if r = 0 \<and> cmd = snmp_cmd CREATE_SNMP_ENTRY
    then put (unat (ar_snmp_tblsize s)) (oid_view s) (user_item um arg) else oid_view s)"
proof (cases "cmd = snmp_cmd CREATE_SNMP_ENTRY")
  case True
  with assms(3) have "oid_ends um arg" by (simp add: request_ends_def)
  from ioctl_create_put [OF assms(1,2) this] True assms(4) show ?thesis
    by (auto simp: ar_interface_ioctl_def)
next
  case nc: False
  show ?thesis
  proof (cases "comm_cmd cmd")
    case True
    with assms(3) nc have "has_nul (take 16 (um_bytes um arg)) \<or> \<not> readable um arg 16"
      by (simp add: request_ends_def)
    from ioctl_comm_result [OF assms(1,2) True this] True nc assms(4) show ?thesis
      by (auto simp: ar_interface_ioctl_def comm_cmd_def)
  next
    case False
    with nc assms(3,4) show ?thesis by (auto simp: ar_interface_ioctl_def request_ends_def comm_cmd_def)
  qed
qed

lemma snmp_call:
  assumes run: "running_ok m" and ok: "entry_ok R port (Snmp_Ioctl um pick cmd arg)"
  shows "call_refines port handle (Snmp_Ioctl um pick cmd arg) m"
proof -
  let ?s = "snmp m"
  have wf: "snmp_wf ?s" using run by (simp add: running_ok_def)
  have pick: "alloc_fresh pick" and ends: "request_ends um cmd arg" using ok by simp_all
  obtain r s' where st: "ar_interface_ioctl um pick cmd arg ?s = Inr (r, s')" "snmp_wf s'"
    "ar_snmp_tblsize s' = ar_snmp_tblsize ?s"
    using ioctl_step [OF wf pick ends] by blast
  note set = ioctl_settings [OF wf pick ends st(1)]
  have view: "oid_view s' = (if r = 0 \<and> cmd = snmp_cmd CREATE_SNMP_ENTRY
      then put (unat (ar_snmp_tblsize ?s)) (oid_view ?s) (user_item um arg) else oid_view ?s)"
    by (rule ioctl_view [OF wf pick ends st(1)])
  show ?thesis
  proof (rule call_refinesI)
    show "entry_call port handle (Snmp_Ioctl um pick cmd arg) m = Inr (r, m\<lparr>snmp := s'\<rparr>, [])"
      using st(1) by simp
    show "running_ok (m\<lparr>snmp := s'\<rparr>)"
      using run st(2) set
      by (auto simp: running_ok_def requested_settings_def snmp_settings_def comm_cmd_def Let_def split: if_splits)
    show "rooms_of (m\<lparr>snmp := s'\<rparr>) = rooms_of m" using st(3) by (simp add: rooms_of_def)
    show "spec_call (rooms_of m) port handle (Snmp_Ioctl um pick cmd arg) r (config_of m) =
        (config_of (m\<lparr>snmp := s'\<rparr>), map seen_of [])"
      using set(1) view
      by (auto simp: config_of_def rooms_of_def spec_snmp_def requested_settings_def snmp_settings_def Let_def)
  qed
qed

lemma ip_proto_read:
  assumes "has_nul (um_bytes um arg)" and "length (cstr_val (um_bytes um arg)) < 10"
  shows "ioctl_ip_proto um kz cmd arg s =
    (if kz 0 \<and> um_access um arg then ar_wakeup_recv_config cmd (ArgName (um_bytes um arg)) s
     else Inr (if kz 0 then - 14 else - 5, s))"
proof -
  let ?b = "um_bytes um arg"
  let ?v = "cstr_val ?b"
  let ?n = "length ?v"
  have n: "?n < length ?b" using cstr_val_length [OF assms(1)] by simp
  have v: "take ?n ?b = ?v" unfolding cstr_val_def by (simp add: takeWhile_eq_take [symmetric])
  have ten: "10 - ?n = Suc (9 - ?n)" using assms(2) by simp
  let ?z = "?v @ replicate (10 - ?n) 0"
  have cp: "copy_from_user um (replicate 10 0) arg ?n = Inr (if um_access um arg then Some ?z else None)"
    using n assms(2) by (simp add: copy_from_user_def v)
  have st: "buf_set ?z ?n 0 = Inr ?z" using ten by (simp add: list_update_append)
  have "0 \<notin> set ?v" by (rule nul_notin_cstr_val)
  then have "has_nul ?z" "cstr_val ?z = ?v" unfolding ten by simp_all
  from recv_config_cstr [OF this(1) assms(1) this(2)] show ?thesis
    using cp st by (simp add: ioctl_ip_proto_def c_strlen_eq [OF assms(1)])
qed

lemma wakeup_ioctl_step:
  assumes run: "running_ok m" and ok: "entry_ok R port (Wakeup_Ioctl um kz cmd arg)"
  shows "\<exists>r s'. ar_wakeup_interface_ioctl um kz cmd arg (wakeup m) = Inr (r, s') \<and> wakeup_wf s' \<and>
    udptblsize s' = udptblsize (wakeup m) \<and> tcptblsize s' = tcptblsize (wakeup m) \<and>
    iptblsize s' = iptblsize (wakeup m) \<and>
    spec_wakeup (rooms_of m) um kz cmd arg (config_of m) =
      (config_of m)\<lparr>cf_udp := udp_rules s', cf_tcp := tcp_rules s', cf_protos := ip_protos s'\<rparr>"
proof -
  have wf: "wakeup_wf (wakeup m)" using run by (simp add: running_ok_def)
  have sel: "rm_udp (rooms_of m) = unat (udptblsize (wakeup m))" "rm_tcp (rooms_of m) = unat (tcptblsize (wakeup m))"
    "rm_prot (rooms_of m) = unat (iptblsize (wakeup m))"
    "cf_udp (config_of m) = udp_rules (wakeup m)" "cf_tcp (config_of m) = tcp_rules (wakeup m)"
    "cf_protos (config_of m) = ip_protos (wakeup m)"
    by (simp_all add: rooms_of_def config_of_def Let_def)
  have idle: "(config_of m)\<lparr>cf_udp := a, cf_tcp := tcp_rules (wakeup m), cf_protos := ip_protos (wakeup m)\<rparr> =
      (config_of m)\<lparr>cf_udp := a\<rparr>"
    "(config_of m)\<lparr>cf_udp := udp_rules (wakeup m), cf_tcp := b, cf_protos := ip_protos (wakeup m)\<rparr> =
      (config_of m)\<lparr>cf_tcp := b\<rparr>"
    "(config_of m)\<lparr>cf_udp := udp_rules (wakeup m), cf_tcp := tcp_rules (wakeup m), cf_protos := c\<rparr> =
      (config_of m)\<lparr>cf_protos := c\<rparr>"
    "(config_of m)\<lparr>cf_protos := ip_protos (wakeup m)\<rparr> = config_of m" for a b c
    by (simp_all add: sel [symmetric])
  consider (ip) "cmd = wakeup_cmd CONFIG_WAKEUP_IP_PROTO" | (port) "cmd \<noteq> wakeup_cmd CONFIG_WAKEUP_IP_PROTO" by blast
  then show ?thesis
  proof cases
    case ip
    with ok have nm: "prot_valid (um_bytes um arg)" and short: "length (cstr_val (um_bytes um arg)) < 10" by simp_all
    then have "has_nul (um_bytes um arg)" by (simp add: prot_valid_def)
    note rd = ip_proto_read [OF this short, of kz]
    show ?thesis
      using recv_prot_cases [OF wf nm] ip wf
      by (auto simp: ar_wakeup_interface_ioctl_def rd spec_wakeup_def sel idle add_prot_def)
  next
    case port
    show ?thesis
    proof (cases "copy_port um arg")
      case None
      moreover have "(config_of m)\<lparr>cf_udp := udp_rules (wakeup m), cf_tcp := tcp_rules (wakeup m),
          cf_protos := ip_protos (wakeup m)\<rparr> = config_of m" by (simp add: sel [symmetric])
      ultimately show ?thesis
        using port wf by (auto simp: ar_wakeup_interface_ioctl_def ioctl_port_rule_def spec_wakeup_def)
    next
      case (Some r)
      with ok port have r: "\<not> free_port r" by simp
      have call: "ar_wakeup_interface_ioctl um kz cmd arg (wakeup m) =
          (if cmd = wakeup_cmd CONFIG_WAKEUP_UDP_RULE then add_udp r (wakeup m)
           else if cmd = wakeup_cmd CONFIG_WAKEUP_TCP_RULE then add_tcp r (wakeup m)
           else Inr (- errno_code EBADRQC, wakeup m))"
        using port Some
        by (simp add: ar_wakeup_interface_ioctl_def ioctl_port_rule_def add_udp_def add_tcp_def)
      have new: "spec_wakeup (rooms_of m) um kz cmd arg (config_of m) =
          (if cmd = wakeup_cmd CONFIG_WAKEUP_UDP_RULE
           then (config_of m)\<lparr>cf_udp := upsert (unat (udptblsize (wakeup m))) (udp_rules (wakeup m)) r\<rparr>
           else if cmd = wakeup_cmd CONFIG_WAKEUP_TCP_RULE
           then (config_of m)\<lparr>cf_tcp := upsert (unat (tcptblsize (wakeup m))) (tcp_rules (wakeup m)) r\<rparr>
           else config_of m)"
        using port Some by (simp add: spec_wakeup_def sel)
      obtain x u where u: "add_udp r (wakeup m) = Inr (x, u)" "wakeup_wf u" "udptblsize u = udptblsize (wakeup m)"
        "tcptblsize u = tcptblsize (wakeup m)" "iptblsize u = iptblsize (wakeup m)"
        "udp_rules u = upsert (unat (udptblsize (wakeup m))) (udp_rules (wakeup m)) r"
        "tcp_rules u = tcp_rules (wakeup m)" "ip_protos u = ip_protos (wakeup m)"
        using recv_udp_cases [OF wf r] by blast
      obtain y v where v: "add_tcp r (wakeup m) = Inr (y, v)" "wakeup_wf v" "udptblsize v = udptblsize (wakeup m)"
        "tcptblsize v = tcptblsize (wakeup m)" "iptblsize v = iptblsize (wakeup m)"
        "tcp_rules v = upsert (unat (tcptblsize (wakeup m))) (tcp_rules (wakeup m)) r"
        "udp_rules v = udp_rules (wakeup m)" "ip_protos v = ip_protos (wakeup m)"
        using recv_tcp_cases [OF wf r] by blast
      show ?thesis
      proof (cases "cmd = wakeup_cmd CONFIG_WAKEUP_UDP_RULE")
        case True
        with u show ?thesis unfolding call new by (intro exI [of _ x] exI [of _ u]) (simp add: idle)
      next
        case nudp: False
        show ?thesis
        proof (cases "cmd = wakeup_cmd CONFIG_WAKEUP_TCP_RULE")
          case True
          with nudp v show ?thesis unfolding call new by (intro exI [of _ y] exI [of _ v]) (simp add: idle)
        next
          case False
          with nudp wf show ?thesis
            unfolding call new by (intro exI [of _ "- errno_code EBADRQC"] exI [of _ "wakeup m"]) (simp add: sel [symmetric])
        qed
      qed
    qed
  qed
qed

lemma wakeup_call:
  assumes run: "running_ok m" and ok: "entry_ok R port (Wakeup_Ioctl um kz cmd arg)"
  shows "call_refines port handle (Wakeup_Ioctl um kz cmd arg) m"
proof -
  obtain r s' where st: "ar_wakeup_interface_ioctl um kz cmd arg (wakeup m) = Inr (r, s')" "wakeup_wf s'"
    "udptblsize s' = udptblsize (wakeup m)" "tcptblsize s' = tcptblsize (wakeup m)" "iptblsize s' = iptblsize (wakeup m)"
    and new: "spec_wakeup (rooms_of m) um kz cmd arg (config_of m) =
      (config_of m)\<lparr>cf_udp := udp_rules s', cf_tcp := tcp_rules s', cf_protos := ip_protos s'\<rparr>"
    using wakeup_ioctl_step [OF run ok] by blast
  from wakeup_ioctl_settings [OF st(1)] have same: "wakeup_settings s' = wakeup_settings (wakeup m)" .
  show ?thesis
  proof (rule call_refinesI)
    show "entry_call port handle (Wakeup_Ioctl um kz cmd arg) m = Inr (r, m\<lparr>wakeup := s'\<rparr>, [])"
      using st(1) by simp
    show "running_ok (m\<lparr>wakeup := s'\<rparr>)" using run st(2) by (simp add: running_ok_def)
    show "rooms_of (m\<lparr>wakeup := s'\<rparr>) = rooms_of m" using st by (simp add: rooms_of_def)
    show "spec_call (rooms_of m) port handle (Wakeup_Ioctl um kz cmd arg) r (config_of m) =
        (config_of (m\<lparr>wakeup := s'\<rparr>), map seen_of [])"
      using same by (simp add: new) (simp add: config_of_def wakeup_settings_def Let_def)
  qed
qed

text \<open>The settings are no part of the invariants and contents.\<close>

lemma snmp_wf_settings: "snmp_wf (s\<lparr>ar_snmp_db := (ar_snmp_db s)\<lparr>control := v\<rparr>\<rparr>) = snmp_wf s"
  by (simp add: snmp_wf_def entries_def owned_def split: tblptr.split)

lemma oid_view_settings: "oid_view (s\<lparr>ar_snmp_db := (ar_snmp_db s)\<lparr>control := v\<rparr>\<rparr>) = oid_view s"
  by (simp add: oid_view_def entries_def)

lemma core_ready_settings: "core_ready (c\<lparr>ar_arp_db := d\<rparr>) = core_ready c"
  by (simp add: core_ready_def split: tblptr.split)

lemma wakeup_wf_settings:
  "wakeup_wf (w\<lparr>ar_wakeup_db := (ar_wakeup_db w)\<lparr>ip_prot_pass_on_hit := v\<rparr>\<rparr>) = wakeup_wf w"
  "wakeup_wf (w\<lparr>ar_wakeup_db := (ar_wakeup_db w)\<lparr>udp_port_pass_on_hit := v\<rparr>\<rparr>) = wakeup_wf w"
  "wakeup_wf (w\<lparr>ar_wakeup_db := (ar_wakeup_db w)\<lparr>tcp_port_pass_on_hit := v\<rparr>\<rparr>) = wakeup_wf w"
  "wakeup_wf (w\<lparr>ar_wakeup_db := (ar_wakeup_db w)\<lparr>tcp_flags_mask := u\<rparr>\<rparr>) = wakeup_wf w"
  by (simp_all add: wakeup_wf_def udp_wf_def tcp_wf_def ip_wf_def)

lemma rule_settings:
  "udp_rules (w\<lparr>ar_wakeup_db := (ar_wakeup_db w)\<lparr>ip_prot_pass_on_hit := v\<rparr>\<rparr>) = udp_rules w"
  "udp_rules (w\<lparr>ar_wakeup_db := (ar_wakeup_db w)\<lparr>udp_port_pass_on_hit := v\<rparr>\<rparr>) = udp_rules w"
  "udp_rules (w\<lparr>ar_wakeup_db := (ar_wakeup_db w)\<lparr>tcp_port_pass_on_hit := v\<rparr>\<rparr>) = udp_rules w"
  "udp_rules (w\<lparr>ar_wakeup_db := (ar_wakeup_db w)\<lparr>tcp_flags_mask := u\<rparr>\<rparr>) = udp_rules w"
  "tcp_rules (w\<lparr>ar_wakeup_db := (ar_wakeup_db w)\<lparr>ip_prot_pass_on_hit := v\<rparr>\<rparr>) = tcp_rules w"
  "tcp_rules (w\<lparr>ar_wakeup_db := (ar_wakeup_db w)\<lparr>udp_port_pass_on_hit := v\<rparr>\<rparr>) = tcp_rules w"
  "tcp_rules (w\<lparr>ar_wakeup_db := (ar_wakeup_db w)\<lparr>tcp_port_pass_on_hit := v\<rparr>\<rparr>) = tcp_rules w"
  "tcp_rules (w\<lparr>ar_wakeup_db := (ar_wakeup_db w)\<lparr>tcp_flags_mask := u\<rparr>\<rparr>) = tcp_rules w"
  "ip_protos (w\<lparr>ar_wakeup_db := (ar_wakeup_db w)\<lparr>ip_prot_pass_on_hit := v\<rparr>\<rparr>) = ip_protos w"
  "ip_protos (w\<lparr>ar_wakeup_db := (ar_wakeup_db w)\<lparr>udp_port_pass_on_hit := v\<rparr>\<rparr>) = ip_protos w"
  "ip_protos (w\<lparr>ar_wakeup_db := (ar_wakeup_db w)\<lparr>tcp_port_pass_on_hit := v\<rparr>\<rparr>) = ip_protos w"
  "ip_protos (w\<lparr>ar_wakeup_db := (ar_wakeup_db w)\<lparr>tcp_flags_mask := u\<rparr>\<rparr>) = ip_protos w"
  by (simp_all add: udp_rules_def tcp_rules_def ip_protos_def)

lemma flag_value_of: "kz 0 \<Longrightarrow> has_nul buf \<Longrightarrow> flag_value kz buf = Inr (flag_of buf)"
  by (simp add: flag_value_eq flag_of_def)

lemma flag_call:
  assumes run: "running_ok m" and ok: "entry_ok R port (Sysfs_Write a kz buf n)"
    and a: "a \<in> {get_all_flag, arp_conflict_detect, ip_prot_pass_on_hit_attr, udp_port_pass_on_hit_attr,
      tcp_port_pass_on_hit_attr}"
  shows "call_refines port handle (Sysfs_Write a kz buf n) m"
proof -
  have v: "flag_value kz buf = Inr (flag_of buf)" using ok by (intro flag_value_of) simp_all
  let ?m = "case a of
      get_all_flag \<Rightarrow> m\<lparr>snmp := (snmp m)\<lparr>ar_snmp_db := (ar_snmp_db (snmp m))\<lparr>control := flag_of buf\<rparr>\<rparr>\<rparr>
    | arp_conflict_detect \<Rightarrow> m\<lparr>core := (core m)\<lparr>ar_arp_db := (ar_arp_db (core m))\<lparr>enable_conflict_detection := flag_of buf\<rparr>\<rparr>\<rparr>
    | ip_prot_pass_on_hit_attr \<Rightarrow> m\<lparr>wakeup := (wakeup m)\<lparr>ar_wakeup_db := (ar_wakeup_db (wakeup m))\<lparr>ip_prot_pass_on_hit := flag_of buf\<rparr>\<rparr>\<rparr>
    | udp_port_pass_on_hit_attr \<Rightarrow> m\<lparr>wakeup := (wakeup m)\<lparr>ar_wakeup_db := (ar_wakeup_db (wakeup m))\<lparr>udp_port_pass_on_hit := flag_of buf\<rparr>\<rparr>\<rparr>
    | tcp_port_pass_on_hit_attr \<Rightarrow> m\<lparr>wakeup := (wakeup m)\<lparr>ar_wakeup_db := (ar_wakeup_db (wakeup m))\<lparr>tcp_port_pass_on_hit := flag_of buf\<rparr>\<rparr>\<rparr>
    | _ \<Rightarrow> m"
  note store = lift_snmp_def lift_core_def lift_wakeup_def ar_snmp_flag_store_def ar_arp_conflict_flag_store_def
    ar_ip_pass_flag_store_def ar_udp_pass_flag_store_def ar_tcp_pass_flag_store_def v
  show ?thesis
  proof (rule call_refinesI)
    show "entry_call port handle (Sysfs_Write a kz buf n) m = Inr (int n, ?m, [])"
      using a by (elim insertE emptyE) (simp_all add: store)
    show "running_ok ?m"
      using a run by (elim insertE emptyE)
        (simp_all add: running_ok_def snmp_wf_settings core_ready_settings wakeup_wf_settings)
    show "rooms_of ?m = rooms_of m" using a by (elim insertE emptyE) (simp_all add: rooms_of_def)
    show "spec_call (rooms_of m) port handle (Sysfs_Write a kz buf n) (int n) (config_of m) = (config_of ?m, map seen_of [])"
      using a by (elim insertE emptyE) (simp_all add: config_of_def Let_def oid_view_settings rule_settings)
  qed
qed

lemma text_call:
  assumes run: "running_ok m" and ok: "entry_ok R port (Sysfs_Write a kz buf n)"
    and a: "a \<in> {com_pvt_string, com_pub_string}"
  shows "call_refines port handle (Sysfs_Write a kz buf n) m"
proof -
  let ?s = "snmp m" and ?p = "comm_attr a (snmp m)" and ?len = "text_len buf"
  have wf: "snmp_wf ?s" and nul: "has_nul buf" using run ok by (simp_all add: running_ok_def)
  have p: "?p \<in> {community_read_write_string (ar_snmp_db ?s), community_read_only_string (ar_snmp_db ?s)}"
    by (simp add: comm_attr_def)
  then have "16 \<le> length (block (kmem ?s) ?p)" using run by (auto simp: running_ok_def)
  then have "61 \<le> ?len \<or> ?len + 3 \<le> length (block (kmem ?s) ?p)" using ok a by auto
  from comm_file_result [OF wf nul a text_len_def this, of kz n] obtain b where
    b: "sysfs_store a kz buf n m = Inr (n, if 61 \<le> ?len then m
        else m\<lparr>snmp := ?s\<lparr>kmem := (kmem ?s)(?p \<mapsto> b)\<rparr>\<rparr>)"
      "length b = length (block (kmem ?s) ?p)" "?len < 61 \<longrightarrow> comm_text b = Some (take ?len (cstr_val buf))"
    by blast
  let ?m = "if 61 \<le> ?len then m else m\<lparr>snmp := ?s\<lparr>kmem := (kmem ?s)(?p \<mapsto> b)\<rparr>\<rparr>"
  have ne: "community_read_write_string (ar_snmp_db ?s) \<noteq> community_read_only_string (ar_snmp_db ?s)"
    using snmp_wfD(5) [OF wf] by (simp add: owned_def)
  note wr = comm_write [OF wf p, of b]
  show ?thesis
  proof (rule call_refinesI)
    show "entry_call port handle (Sysfs_Write a kz buf n) m = Inr (int n, ?m, [])"
      using b(1) by (simp del: sysfs_store.simps)
    show "running_ok ?m" using run wr(1) b(2) by (auto simp: running_ok_def block_def)
    show "rooms_of ?m = rooms_of m" by (simp add: rooms_of_def)
    show "spec_call (rooms_of m) port handle (Sysfs_Write a kz buf n) (int n) (config_of m) = (config_of ?m, map seen_of [])"
      using a b(3) wr(2) ne
      by (elim insertE emptyE) (auto simp: config_of_def Let_def new_text_def comm_attr_def block_def)
  qed
qed

lemma mask_call:
  assumes run: "running_ok m" and ok: "entry_ok R port (Sysfs_Write tcp_flag_mask kz buf n)"
  shows "call_refines port handle (Sysfs_Write tcp_flag_mask kz buf n) m"
proof -
  let ?v = "hex_value (take 4 (map hex_digit (sscanf_s buf) @ replicate 4 0))"
  let ?m = "m\<lparr>wakeup := (wakeup m)\<lparr>ar_wakeup_db := (ar_wakeup_db (wakeup m))\<lparr>tcp_flags_mask := ?v\<rparr>\<rparr>\<rparr>"
  have "has_nul buf" "list_all is_hex (sscanf_s buf)" using ok by simp_all
  from mask_file_eq [OF this, of kz n m] ok have
    st: "sysfs_store tcp_flag_mask kz buf n m = Inr (n, ?m)" by (simp del: sysfs_store.simps)
  show ?thesis
  proof (rule call_refinesI)
    show "entry_call port handle (Sysfs_Write tcp_flag_mask kz buf n) m = Inr (int n, ?m, [])"
      using st by (simp del: sysfs_store.simps)
    show "running_ok ?m" using run by (simp add: running_ok_def wakeup_wf_settings)
    show "rooms_of ?m = rooms_of m" by (simp add: rooms_of_def)
    show "spec_call (rooms_of m) port handle (Sysfs_Write tcp_flag_mask kz buf n) (int n) (config_of m) =
        (config_of ?m, map seen_of [])"
      by (simp add: config_of_def Let_def rule_settings)
  qed
qed

lemma sysfs_call:
  assumes "running_ok m" and "entry_ok R port (Sysfs_Write a kz buf n)"
  shows "call_refines port handle (Sysfs_Write a kz buf n) m"
  using flag_call [OF assms] text_call [OF assms] mask_call [of m R port kz buf n handle] assms by (cases a) simp_all

subsection \<open>Events\<close>

lemma sleep_refines:
  assumes run: "running_ok m" and ok: "sleep_ok (rooms_of m) port net"
  shows "\<exists>st m' calls. ar_process_deep_sleep_event net port handle m = Inr (st, m', calls) \<and> running_ok m' \<and>
    rooms_of m' = rooms_of m \<and> config_of m' = config_of m \<and>
    map seen_of calls = spec_sleep port handle net (config_of m)"
proof -
  obtain rx tx where p: "ar_get_fm_port net port = Inr (rx, tx)"
    using ok by (auto simp: sleep_ok_def split: sum.splits)
  show ?thesis
  proof (cases "rx = None \<or> tx = None")
    case True
    with deep_sleep_down [OF p, of handle m] run show ?thesis
      by (auto simp: spec_sleep_def p split: option.splits)
  next
    case False
    then obtain a b where ab: "rx = Some a" "tx = Some b" by (cases rx; cases tx) auto
    then obtain d where d: "ar_get_device net port = Some d" "net_ok net d" "net6_ok net d"
      "length (arp_config net d) \<le> unat (ar_arptblsize (core m))"
      "length (ndp_config temps net d) < unat (ar_ndptblsize (core m))"
      "length (ndp_config perms net d) < unat (ar_ndptblsize (core m))"
      using ok p by (auto simp: sleep_ok_def rooms_of_def split: option.splits)
    have up: "port_up net port a b d" using p ab d(1) by (simp add: port_up_def)
    have ready: "core_ready (core m)" using run by (simp add: running_ok_def)
    obtain c where c: "ar_get_interface_info net (Some d) (core m) = Inr (0, c)" "core_ready c"
      "arp_rows c = arp_config net d" "tem_rows c = ndp_config temps net d" "tgt_rows c = ndp_config perms net d"
      using gather_fit [OF ready d(2-6)] by blast
    have "ar_ndptblsize (core m) \<noteq> 0" using d(5) by auto
    from gather_safe [OF ready this d(2,3)] c(1) have sz: "ar_arptblsize c = ar_arptblsize (core m)"
      "ar_ndptblsize c = ar_ndptblsize (core m)" by auto
    have det: "enable_conflict_detection (ar_arp_db c) = enable_conflict_detection (ar_arp_db (core m))"
      using gather_settings [OF c(1)] by (simp add: core_settings_def)
    let ?m = "m\<lparr>core := set_echo c\<rparr>"
    have cfg: "config_of ?m = config_of m" using det by (simp add: config_of_def)
    show ?thesis
    proof (intro exI conjI)
      show "ar_process_deep_sleep_event net port handle m = Inr (0, ?m, [Set_Wakeup (ifindex d) 1, Enter_Autores a (handle b) ?m])"
        by (rule deep_sleep_up [OF up c(1)])
      show "running_ok ?m" using run c(2) by (simp add: running_ok_def)
      show "rooms_of ?m = rooms_of m" using sz by (simp add: rooms_of_def)
      show "map seen_of [Set_Wakeup (ifindex d) 1, Enter_Autores a (handle b) ?m] = spec_sleep port handle net (config_of m)"
        using cfg c(3-5) by (simp add: spec_sleep_def p ab d(1))
    qed (rule cfg)
  qed
qed

lemma resume_calls:
  assumes "port_found port net"
  shows "\<exists>r calls. ar_process_resume_event net port = Inr (r, calls) \<and> map seen_of calls = spec_resume port net"
  using assms
  by (auto simp: port_found_def ar_process_resume_event_def spec_resume_def split: sum.splits option.splits prod.splits)

lemma event_call:
  assumes run: "running_ok m" and e: "e \<in> {Stats_Write net n, Proc_Write net, Pm_Event net n}"
    and ok: "entry_ok (rooms_of m) port e"
  shows "call_refines port handle e m"
proof -
  consider "e = Stats_Write net n" | (sleep) "e = Proc_Write net \<or> e = Pm_Event net n \<and> n = PM_SUSPEND_PREPARE"
    | (other) "e = Pm_Event net n" "n \<noteq> PM_SUSPEND_PREPARE" using e by blast
  then show ?thesis
  proof cases
    case 1
    then show ?thesis
      using run ok by (auto simp: call_refines_def port_found_def ar_fman_stats_show_def ar_get_fman_stats_def
          split: sum.splits)
  next
    case sleep
    then have "sleep_ok (rooms_of m) port net" using ok by auto
    from sleep_refines [OF run this, of handle] sleep show ?thesis
      by (auto simp: call_refines_def ar_handle_deep_sleep_event_def ar_handle_pm_event_def ar_suspend_noirq_def)
  next
    case other
    then have "port_found port net" using ok by simp
    from resume_calls [OF this] other run show ?thesis
      by (auto simp: call_refines_def ar_handle_pm_event_def ar_resume_noirq_def)
  qed
qed

text \<open>Every call the module is made for follows the abstract machine.\<close>

lemma entry_refines:
  assumes "running_ok m" and "entry_ok (rooms_of m) port e"
  shows "call_refines port handle e m"
proof (cases e)
  case (Snmp_Ioctl um pick cmd arg)
  with assms show ?thesis using snmp_call by blast
next
  case (Wakeup_Ioctl um kz cmd arg)
  with assms show ?thesis using wakeup_call by blast
next
  case (Sysfs_Write a kz buf n)
  with assms show ?thesis using sysfs_call by blast
next
  case (Stats_Write net n)
  with assms show ?thesis by (intro event_call [of m e net n]) simp_all
next
  case (Proc_Write net)
  with assms show ?thesis by (intro event_call [of m e net 0]) simp_all
next
  case (Pm_Event net n)
  with assms show ?thesis by (intro event_call [of m e net n]) simp_all
qed

section \<open>Histories\<close>

text \<open>
  Runs of a machine whose calls return a status and what they asked of others, and runs of the
  machine that specifies it.
\<close>

fun run_calls ::
    "('e \<Rightarrow> 's \<Rightarrow> (int \<times> 's \<times> 'c list) res) \<Rightarrow> 'e list \<Rightarrow> 's \<Rightarrow> ((int \<times> 'c list) list \<times> 's) res" where
  "run_calls call [] s = Inr ([], s)"
| "run_calls call (e # es) s =
     rbind (call e s) (\<lambda>(r, s, cs). rbind (run_calls call es s) (\<lambda>(os, s). Inr ((r, cs) # os, s)))"

fun run_spec ::
    "('e \<Rightarrow> int \<Rightarrow> 'a \<Rightarrow> 'a \<times> 'o list) \<Rightarrow> ('e \<times> int) list \<Rightarrow> 'a \<Rightarrow> 'o list list \<times> 'a" where
  "run_spec spec [] a = ([], a)"
| "run_spec spec ((e, r) # es) a =
     (let (a, os) = spec e r a; (oss, a) = run_spec spec es a in (os # oss, a))"

locale refined_machine =
  fixes call :: "'e \<Rightarrow> 's \<Rightarrow> (int \<times> 's \<times> 'c list) res"
    and spec :: "'e \<Rightarrow> int \<Rightarrow> 'a \<Rightarrow> 'a \<times> 'o list"
    and see :: "'c \<Rightarrow> 'o"
    and abs :: "'s \<Rightarrow> 'a"
    and inv :: "'s \<Rightarrow> bool"
    and ok :: "'e \<Rightarrow> bool"
  assumes sim: "inv s \<Longrightarrow> ok e \<Longrightarrow>
    \<exists>r s' cs. call e s = Inr (r, s', cs) \<and> inv s' \<and> spec e r (abs s) = (abs s', map see cs)"
begin

lemma run_sim:
  assumes "inv s" and "list_all ok es"
  shows "\<exists>os s'. run_calls call es s = Inr (os, s') \<and> inv s' \<and> length os = length es \<and>
    run_spec spec (zip es (map fst os)) (abs s) = (map (map see \<circ> snd) os, abs s')"
  using assms
proof (induction es arbitrary: s)
  case Nil
  then show ?case by simp
next
  case (Cons e es)
  then have es: "list_all ok es" by simp
  obtain r s1 cs where 1: "call e s = Inr (r, s1, cs)" "inv s1" "spec e r (abs s) = (abs s1, map see cs)"
    using sim [of s e] Cons.prems by auto
  obtain os s2 where "run_calls call es s1 = Inr (os, s2)" "inv s2" "length os = length es"
    "run_spec spec (zip es (map fst os)) (abs s1) = (map (map see \<circ> snd) os, abs s2)"
    using Cons.IH [OF 1(2) es] by blast
  with 1 show ?case by (intro exI [of _ "(r, cs) # os"] exI [of _ s2]) simp
qed

end

interpretation module_machine: refined_machine "entry_call port handle" "spec_call R port handle" seen_of config_of
    "\<lambda>m. running_ok m \<and> rooms_of m = R" "entry_ok R port" for port handle R
proof
  fix m e
  assume "running_ok m \<and> rooms_of m = R" and "entry_ok R port e"
  then show "\<exists>r m' calls. entry_call port handle e m = Inr (r, m', calls) \<and> (running_ok m' \<and> rooms_of m' = R) \<and>
      spec_call R port handle e r (config_of m) = (config_of m', map seen_of calls)"
    using entry_refines [of m port e handle] by (auto simp: call_refines_def)
qed

definition run_entries ::
    "string \<Rightarrow> (fm_port \<Rightarrow> nat) \<Rightarrow> entry list \<Rightarrow> ar_module \<Rightarrow> ((int \<times> fmd_call list) list \<times> ar_module) res" where
  "run_entries port handle = run_calls (entry_call port handle)"

section \<open>From loading to unloading\<close>

text \<open>The configuration of a module just loaded.\<close>

definition boot_config :: ar_config where
  "boot_config = \<lparr>cf_oids = [], cf_rw = Some (bytes_of ''private''), cf_ro = Some (bytes_of ''public''),
     cf_getall = 0, cf_udp = [], cf_tcp = [], cf_protos = [], cf_pass = (0, 0, 0), cf_mask = 0, cf_conflict = 0\<rparr>"

definition rooms_for :: "auto_res_tables_sizes \<Rightarrow> ar_rooms" where
  "rooms_for m =
     \<lparr>rm_oid = unat (max_num_of_snmp_oid_entries m), rm_udp = unat (max_num_of_udp_port_filtering m),
      rm_tcp = unat (max_num_of_tcp_port_filtering m), rm_prot = unat (max_num_of_ip_prot_filtering m),
      rm_arp = unat (max_num_of_arp_entries m), rm_ndp = unat (max_num_of_ndp_entries m)\<rparr>"

text \<open>Everything loading asks the kernel for is granted.\<close>

definition env_grants :: "init_env \<Rightarrow> kheap \<Rightarrow> auto_res_tables_sizes \<Rightarrow> bool" where
  "env_grants env h m \<longleftrightarrow> env_entries env \<and>
     (case ar_get_fm_port (env_net env) (env_port env) of
        Inl _ \<Rightarrow> False | Inr (rx, tx) \<Rightarrow> (rx \<noteq> None \<or> tx \<noteq> None) \<and> env_maxsize env rx = Some m) \<and>
     (\<forall>i \<in> {0, 1, 2}. env_core_kz env i \<and> env_wakeup_kz env i) \<and> env_snmp_kz env 0 \<and>
     strings_fit (env_pick env) h \<and> 0 \<le> env_notifier env"

lemma load_running:
  assumes env: "env_grants env h m" and pick: "alloc_fresh (env_pick env)" and arp: "max_num_of_arp_entries m \<noteq> 0"
  shows "\<exists>s. ar_init env (system_boot h) = Inr (0, s) \<and> all_registered s \<and> running_ok (md s) \<and>
    rooms_of (md s) = rooms_for m \<and> config_of (md s) = boot_config \<and> heap_grows h 2 (kmem (snmp (md s)))"
proof -
  have kz: "env_core_kz env 0" "env_core_kz env 1" "env_core_kz env 2"
    "env_wakeup_kz env 0" "env_wakeup_kz env 1" "env_wakeup_kz env 2"
    using env by (simp_all add: env_grants_def)
  have entries: "env_entries env" and snmp: "env_snmp_kz env 0" and fit: "strings_fit (env_pick env) h"
    and nf: "0 \<le> env_notifier env" using env by (simp_all add: env_grants_def)
  obtain rx tx where port: "ar_get_fm_port (env_net env) (env_port env) = Inr (rx, tx)" "rx \<noteq> None \<or> tx \<noteq> None"
    "env_maxsize env rx = Some m" using env by (auto simp: env_grants_def split: sum.splits)
  have intf: "intf_ok env rx tx" using port(2,3) kz by (simp add: intf_ok_def)
  obtain r0 c where c: "ar_intf_init_db (env_net env) (env_port env) (env_maxsize env) (env_core_kz env) core_boot = Inr (r0, c)"
    using intf_init_total [OF port(1)] by blast
  from intf_init_result [OF port(1) c] intf port(3) arp have c':
    "r0 = 0" "p_ar_maxsize c = Some m" "core_ready c" "ar_arptblsize c = max_num_of_arp_entries m"
    "ar_ndptblsize c = max_num_of_ndp_entries m"
    by (auto simp: intf_ok_def split: if_splits)
  have conf: "enable_conflict_detection (ar_arp_db c) = 0"
    using c c'(1) port kz by (auto simp: ar_intf_init_db_def Let_def core_boot_def zero_arp_db_def)
  obtain p q where pq: "kzalloc (env_pick env) h 64 = (p, h(p \<mapsto> replicate 64 0))" "p \<noteq> 0"
    "kzalloc (env_pick env) (h(p \<mapsto> replicate 64 0)) 64 = (q, h(p \<mapsto> replicate 64 0, q \<mapsto> replicate 64 0))"
    "q \<noteq> 0" "q \<noteq> p" "h p = None" "h q = None" by (rule strings_fitE [OF pick fit])
  obtain sn where sn: "ar_snmp_init_db (Some m) (env_snmp_kz env) (env_pick env) (snmp_boot h) = Inr (0, sn)"
    and sn': "snmp_wf sn" "oid_view sn = []" "ar_snmp_tblsize sn = max_num_of_snmp_oid_entries m" "control (ar_snmp_db sn) = 0"
    "comm_text (block (kmem sn) (community_read_write_string (ar_snmp_db sn))) = Some (bytes_of ''private'')"
    "comm_text (block (kmem sn) (community_read_only_string (ar_snmp_db sn))) = Some (bytes_of ''public'')"
    "length (block (kmem sn) (community_read_write_string (ar_snmp_db sn))) = 64"
    "length (block (kmem sn) (community_read_only_string (ar_snmp_db sn))) = 64" "heap_grows h 2 (kmem sn)"
    using snmp_init_made [where kz = "env_snmp_kz env", OF snmp pq, of m] by blast
  obtain w where w: "ar_wakeup_init_db (Some m) (env_wakeup_kz env) wakeup_boot = Inr (0, w)"
    and w': "wakeup_wf w" "udp_rules w = []" "tcp_rules w = []" "ip_protos w = []"
    "udptblsize w = max_num_of_udp_port_filtering m" "tcptblsize w = max_num_of_tcp_port_filtering m"
    "iptblsize w = max_num_of_ip_prot_filtering m"
    using wakeup_init_result [of m "env_wakeup_kz env"] kz by auto
  have flags: "ip_prot_pass_on_hit (ar_wakeup_db w) = 0" "udp_port_pass_on_hit (ar_wakeup_db w) = 0"
    "tcp_port_pass_on_hit (ar_wakeup_db w) = 0" "tcp_flags_mask (ar_wakeup_db w) = 0"
    using w kz by (auto simp: ar_wakeup_init_db_def Let_def wakeup_boot_def)
  let ?s = "(entries_made env h)\<lparr>md := \<lparr>core = c, snmp = sn, wakeup = w\<rparr>, pm_notifier := True\<rparr>"
  have "devices_ok env" using entries by (simp add: env_entries_def devices_ok_def)
  then have "ar_init env (system_boot h) = Inr (0, ?s)"
    using init_databases_run [OF c [unfolded c'(1)] c'(2) sn w] nf by (simp add: init_unfold)
  moreover have "all_registered ?s" using entries_made_ok [OF entries, of h] by (simp add: all_registered_def)
  moreover have "running_ok (md ?s)" using c' sn' w' by (simp add: running_ok_def)
  moreover have "rooms_of (md ?s) = rooms_for m" using c' sn' w' by (simp add: rooms_of_def rooms_for_def)
  moreover have "heap_grows h 2 (kmem (snmp (md ?s)))" using sn' by simp
  moreover have "config_of (md ?s) = boot_config" using conf sn' w' flags by (simp add: config_of_def boot_config_def)
  ultimately show ?thesis by blast
qed

section \<open>Properties\<close>

text \<open>
  Claim C1.  Refinement of the whole module, for the calls it is made for
  (\<open>entry_ok\<close>).  Any sequence of such device requests, sysfs writes,
  \<open>/proc\<close> writes and power-management events, in any order and with the interfaces
  changing in between, runs without undefined behaviour, keeps every database well-formed, and
  shows its user and the drivers exactly what the abstract machine shows: each request changes its
  own part of the configuration (an SNMP request only when it is answered with 0), and each time
  deep sleep is entered the FMAN driver gets the configuration of the calls before it with the
  addresses of that moment.  Not among these calls are those that other claims show to go wrong:
  the GETALL request, identifiers and strings without a NUL in their block, rules with both ports
  0, protocol names of ten or more characters or of code 0, sysfs writes without memory, community
  texts of 14 to 60 characters, masks that are short or not hexadecimal, and events on ports
  without an address configuration or with more addresses than the tables hold (the neighbour
  tables with a slot to spare).
\<close>

theorem history_refines:
  assumes "running_ok m" and "list_all (entry_ok (rooms_of m) port) es"
  shows "\<exists>os m'. run_entries port handle es m = Inr (os, m') \<and> running_ok m' \<and> rooms_of m' = rooms_of m \<and>
    length os = length es \<and>
    run_spec (spec_call (rooms_of m) port handle) (zip es (map fst os)) (config_of m) =
      (map (map seen_of \<circ> snd) os, config_of m')"
  using module_machine.run_sim [of m "rooms_of m" port es handle] assms by (auto simp: run_entries_def)

text \<open>
  A session: a UDP rule is added, the getall flag set through its file, the rule added again, and
  the system suspended with the port up and resumed with it down.
\<close>

definition demo_entries :: "entry list" where
  "demo_entries =
     [Wakeup_Ioctl (demo_um []) (\<lambda>_. True) (wakeup_cmd CONFIG_WAKEUP_UDP_RULE) 0x2000,
      Sysfs_Write get_all_flag (\<lambda>_. True) (cstr ''1'') 2,
      Wakeup_Ioctl (demo_um []) (\<lambda>_. True) (wakeup_cmd CONFIG_WAKEUP_UDP_RULE) 0x2000,
      Pm_Event demo_net PM_SUSPEND_PREPARE, Pm_Event [] PM_POST_SUSPEND]"

lemma demo_copy_port: "copy_port (demo_um []) 0x2000 = Some (demo_rule 5 6)"
  by (simp add: copy_port_def demo_um_def)

lemma demo_flag: "sscanf_s (cstr ''1'') = [49]" "has_nul (cstr ''1'')"
  by (simp_all add: cstr_def bytes_of_def sscanf_s_def is_space_def)

lemma demo_no_port: "ar_get_fm_port [] ''fm1-mac5'' = Inr (None, None)"
  by (simp add: ar_get_fm_port_def dev_get_by_name_def)

lemma demo_entries_ok:
  assumes "3 \<le> rm_arp R" and "2 < rm_ndp R"
  shows "list_all (entry_ok R ''fm1-mac5'') demo_entries"
  using assms demo_up demo_net_ok
  by (simp add: demo_entries_def demo_copy_port demo_flag sleep_ok_def port_found_def demo_no_port port_up_def
      demo_sizes_fit PM_SUSPEND_PREPARE_def PM_POST_SUSPEND_def)

text \<open>What the abstract machine says of it.\<close>

lemma demo_spec:
  assumes "length rs = 5" and "rm_udp R \<noteq> 0" and "cf_udp c = []"
  shows "run_spec (spec_call R ''fm1-mac5'' (\<lambda>p. 100 + p)) (zip demo_entries rs) c =
    ([[], [], [], [Saw_Wakeup 1 1, Saw_Enter 1 102 (c\<lparr>cf_udp := [demo_rule 5 6], cf_getall := 1\<rparr>)
       (arp_config demo_net demo_port) (ndp_config temps demo_net demo_port) (ndp_config perms demo_net demo_port)], []],
     c\<lparr>cf_udp := [demo_rule 5 6], cf_getall := 1\<rparr>)"
proof -
  obtain a b d e f where rs: "rs = [a, b, d, e, f]"
    using assms(1) by (auto simp: length_Suc_conv numeral_eq_Suc)
  have up: "ar_get_fm_port demo_net ''fm1-mac5'' = Inr (Some 1, Some 2)"
    "ar_get_device demo_net ''fm1-mac5'' = Some demo_port" "ifindex demo_port = 1"
    using demo_up by (simp_all add: port_up_def demo_port_def demo_netdev_def)
  have sleep: "spec_sleep ''fm1-mac5'' (\<lambda>p. 100 + p) demo_net x =
      [Saw_Wakeup 1 1, Saw_Enter 1 102 x (arp_config demo_net demo_port) (ndp_config temps demo_net demo_port)
        (ndp_config perms demo_net demo_port)]" for x
    by (simp add: spec_sleep_def up)
  have resume: "spec_resume ''fm1-mac5'' [] = []" by (simp add: spec_resume_def demo_no_port)
  have flag: "flag_of (cstr ''1'') = 1" by (simp add: flag_of_def demo_flag)
  show ?thesis
    using assms(2,3)
    by (simp add: rs demo_entries_def spec_wakeup_def demo_copy_port upsert_def flag sleep resume
        PM_SUSPEND_PREPARE_def PM_POST_SUSPEND_def)
qed

lemma demo_running: "running_ok demo_module"
proof -
  have "core_ready (core demo_module)" "wakeup_wf (wakeup demo_module)"
    using demo_module_core demo_wakeup_wf by (simp_all add: demo_module_def)
  then show ?thesis
    using demo_module_wf demo_module_blocks [of com_pvt_string] demo_module_blocks [of com_pub_string]
    by (simp add: running_ok_def comm_attr_def)
qed

lemma demo_rooms: "rm_arp (rooms_of demo_module) = 4" "rm_ndp (rooms_of demo_module) = 4"
    "rm_udp (rooms_of demo_module) = 2" "cf_udp (config_of demo_module) = []"
  using demo_module_core
  by (simp_all add: rooms_of_def config_of_def demo_module_def demo_wakeup_empty)

theorem history_refines_witness:
  "\<exists>os m'. run_entries ''fm1-mac5'' (\<lambda>p. 100 + p) demo_entries demo_module = Inr (os, m') \<and>
     udp_rules (wakeup m') = [demo_rule 5 6] \<and>
     map seen_of (snd (os ! 3)) = [Saw_Wakeup 1 1, Saw_Enter 1 102 (config_of m')
       (arp_config demo_net demo_port) (ndp_config temps demo_net demo_port) (ndp_config perms demo_net demo_port)]"
proof -
  have "list_all (entry_ok (rooms_of demo_module) ''fm1-mac5'') demo_entries"
    by (rule demo_entries_ok) (simp_all add: demo_rooms)
  from history_refines [OF demo_running this, of "\<lambda>p. 100 + p"] obtain os m' where
    run: "run_entries ''fm1-mac5'' (\<lambda>p. 100 + p) demo_entries demo_module = Inr (os, m')"
    and len: "length os = 5"
    and spec: "run_spec (spec_call (rooms_of demo_module) ''fm1-mac5'' (\<lambda>p. 100 + p)) (zip demo_entries (map fst os))
      (config_of demo_module) = (map (map seen_of \<circ> snd) os, config_of m')"
    by (auto simp: demo_entries_def simp del: entry_ok.simps)
  have l: "length (map fst os) = 5" using len by simp
  have "rm_udp (rooms_of demo_module) \<noteq> 0" by (simp add: demo_rooms)
  from demo_spec [OF l this demo_rooms(4)] spec have
    c: "config_of m' = (config_of demo_module)\<lparr>cf_udp := [demo_rule 5 6], cf_getall := 1\<rparr>"
    and o: "map (map seen_of \<circ> snd) os ! 3 = [Saw_Wakeup 1 1, Saw_Enter 1 102 (config_of m')
      (arp_config demo_net demo_port) (ndp_config temps demo_net demo_port) (ndp_config perms demo_net demo_port)]"
    by auto
  have "udp_rules (wakeup m') = cf_udp (config_of m')" by (simp add: config_of_def Let_def)
  then have "udp_rules (wakeup m') = [demo_rule 5 6]" by (simp add: c)
  with run o len show ?thesis by (intro exI [of _ os] exI [of _ m']) simp
qed

text \<open>
  Claim C10.  The life of the module: loaded with everything it asks for
  (\<open>env_grants\<close>, and a table size for ARP other than 0), it starts from the empty
  configuration with the community strings \<open>private\<close> and \<open>public\<close> and
  the sizes the FMAN driver announced; any sequence of the calls it is made for
  (\<open>entry_ok\<close>) then follows the abstract machine from there and keeps the invariants,
  and unloading it afterwards leaves nothing registered.
\<close>

theorem load_run_unload:
  assumes "env_grants env h m" and "alloc_fresh (env_pick env)" and "max_num_of_arp_entries m \<noteq> 0"
    and "list_all (entry_ok (rooms_for m) (env_port env)) es"
  shows "\<exists>s os m' t. ar_init env (system_boot h) = Inr (0, s) \<and> all_registered s \<and>
    run_entries (env_port env) handle es (md s) = Inr (os, m') \<and> running_ok m' \<and> length os = length es \<and>
    run_spec (spec_call (rooms_for m) (env_port env) handle) (zip es (map fst os)) boot_config =
      (map (map seen_of \<circ> snd) os, config_of m') \<and>
    ar_exit (s\<lparr>md := m'\<rparr>) = Inr t \<and> none_registered t"
proof -
  obtain s where s: "ar_init env (system_boot h) = Inr (0, s)" "all_registered s" "running_ok (md s)"
    "rooms_of (md s) = rooms_for m" "config_of (md s) = boot_config"
    using load_running [OF assms(1-3)] by blast
  obtain os m' where run: "run_calls (entry_call (env_port env) handle) es (md s) = Inr (os, m')" "running_ok m'"
    "length os = length es" "run_spec (spec_call (rooms_for m) (env_port env) handle) (zip es (map fst os)) boot_config =
      (map (map seen_of \<circ> snd) os, config_of m')"
    using module_machine.run_sim [of "md s" "rooms_for m" "env_port env" es handle] s(3-5) assms(4) by auto
  have "all_registered (s\<lparr>md := m'\<rparr>)" using s(2) by (simp add: all_registered_def)
  from exit_clean [OF this] obtain t where "ar_exit (s\<lparr>md := m'\<rparr>) = Inr t" "none_registered t" by blast
  with s(1,2) run show ?thesis unfolding run_entries_def by blast
qed

lemma demo_env_grants: "env_grants demo_env Map.empty demo_sizes"
proof -
  have a: "demo_pick Map.empty 64 \<noteq> None" by (rule demo_pick_some [of _ 9]) simp_all
  then obtain p where p: "demo_pick Map.empty 64 = Some p" by blast
  have "demo_pick [p \<mapsto> replicate 64 0] 64 \<noteq> None"
  proof (cases "p = 9")
    case True
    then show ?thesis by (intro demo_pick_some [of _ 10]) simp_all
  next
    case False
    then show ?thesis by (intro demo_pick_some [of _ 9]) simp_all
  qed
  then have "strings_fit demo_pick Map.empty" by (simp add: strings_fit_def p)
  then show ?thesis using demo_fm_port by (simp add: env_grants_def) (simp add: demo_env_def)
qed

theorem load_run_unload_witness:
  "\<exists>s os m' t. ar_init demo_env (system_boot Map.empty) = Inr (0, s) \<and>
     run_entries ''fm1-mac5'' (\<lambda>p. 100 + p) demo_entries (md s) = Inr (os, m') \<and>
     config_of m' = boot_config\<lparr>cf_udp := [demo_rule 5 6], cf_getall := 1\<rparr> \<and>
     ar_exit (s\<lparr>md := m'\<rparr>) = Inr t \<and> chrdevs t = {}"
proof -
  have r: "rm_udp (rooms_for demo_sizes) \<noteq> 0" "3 \<le> rm_arp (rooms_for demo_sizes)" "2 < rm_ndp (rooms_for demo_sizes)"
    "max_num_of_arp_entries demo_sizes \<noteq> 0" by (simp_all add: rooms_for_def demo_sizes_def)
  have pick: "alloc_fresh (env_pick demo_env)" using demo_pick_fresh by simp
  have ok: "list_all (entry_ok (rooms_for demo_sizes) (env_port demo_env)) demo_entries"
    using demo_entries_ok [OF r(2,3)] by simp
  from load_run_unload [OF demo_env_grants pick r(4) ok, of "\<lambda>p. 100 + p"] obtain s os m' t where
    s: "ar_init demo_env (system_boot Map.empty) = Inr (0, s)"
      "run_entries ''fm1-mac5'' (\<lambda>p. 100 + p) demo_entries (md s) = Inr (os, m')"
    and len: "length os = length demo_entries"
    and spec: "run_spec (spec_call (rooms_for demo_sizes) ''fm1-mac5'' (\<lambda>p. 100 + p)) (zip demo_entries (map fst os))
      boot_config = (map (map seen_of \<circ> snd) os, config_of m')"
    and t: "ar_exit (s\<lparr>md := m'\<rparr>) = Inr t" "none_registered t" by auto
  have l: "length (map fst os) = 5" using len by (simp add: demo_entries_def)
  have "cf_udp boot_config = []" by (simp add: boot_config_def)
  from demo_spec [OF l r(1) this] spec have "config_of m' = boot_config\<lparr>cf_udp := [demo_rule 5 6], cf_getall := 1\<rparr>"
    by simp
  with s t show ?thesis by (auto simp: none_registered_def)
qed

end
