(* ===== verification/AR_Chardev.thy ===== *)
theory AR_Chardev
  imports AR_Common
begin

text \<open>
  Opening and closing the two character devices (\<open>ar_interface_open\<close>, \<open>ar_interface_release\<close> of
  \<open>arctrl_snmptool.c\<close> and their copies in \<open>arctrl_wakeuptool.c\<close>).  The functions are given
  once as they act on the open count, and once as a step relation between processes that
  take and release the spin lock, statement by statement.  The locale
  \<open>exclusive_device\<close> is the contract "one opener at a time"; both devices implement it.
\<close>

section \<open>The operations\<close>

text \<open>Each returns the status and the new \<open>ar_open_count\<close>.\<close>

definition ar_interface_open :: "u32 \<Rightarrow> int \<Rightarrow> int \<times> int" where
  "ar_interface_open i_rdev ar_open_count =
     (let minor = uint (MINOR i_rdev) in
      if minor \<noteq> 0 then (- errno_code ENODEV, ar_open_count)
      else if ar_open_count \<noteq> 0 then (- errno_code EUSERS, ar_open_count)
      else (0, ar_open_count + 1))"

definition ar_interface_release :: "int \<Rightarrow> int \<times> int" where
  "ar_interface_release ar_open_count = (0, ar_open_count - 1)"

definition ar_wakeup_interface_open :: "u32 \<Rightarrow> int \<Rightarrow> int \<times> int" where
  "ar_wakeup_interface_open i_rdev ar_wakeopen_count =
     (let minor = uint (MINOR i_rdev) in
      if minor \<noteq> 0 then (- errno_code ENODEV, ar_wakeopen_count)
      else if ar_wakeopen_count \<noteq> 0 then (- errno_code EUSERS, ar_wakeopen_count)
      else (0, ar_wakeopen_count + 1))"

definition ar_wakeup_interface_release :: "int \<Rightarrow> int \<times> int" where
  "ar_wakeup_interface_release ar_wakeopen_count = (0, ar_wakeopen_count - 1)"

lemma MINOR_mod: "MINOR dev = take_bit 20 dev"
  by (simp add: MINOR_def MINORMASK_def take_bit_eq_mask mask_eq_exp_minus_1 push_bit_eq_mult)

lemma MAJOR_MINOR: "push_bit 20 (MAJOR dev) OR MINOR dev = dev"
  by (rule bit_eqI) (auto simp: MAJOR_def MINOR_mod bit_simps)

section \<open>The contract of a device that one process opens at a time\<close>

text \<open>
  A history of the device: processes open it (on any device number) and those that got it
  release it, in any order.  The state is the open count and the set of processes that hold
  the device.
\<close>

inductive dev_history ::
    "(u32 \<Rightarrow> int \<Rightarrow> int \<times> int) \<Rightarrow> (int \<Rightarrow> int \<times> int) \<Rightarrow> int \<times> nat set \<Rightarrow> bool"
  for opn rel where
  boot: "dev_history opn rel (0, {})"
| opened: "dev_history opn rel (c, H) \<Longrightarrow> opn dev c = (0, c') \<Longrightarrow>
     dev_history opn rel (c', insert i H)"
| refused: "dev_history opn rel (c, H) \<Longrightarrow> opn dev c = (r, c') \<Longrightarrow> r \<noteq> 0 \<Longrightarrow>
     dev_history opn rel (c', H)"
| released: "dev_history opn rel (c, H) \<Longrightarrow> i \<in> H \<Longrightarrow> rel c = (r, c') \<Longrightarrow>
     dev_history opn rel (c', H - {i})"

locale exclusive_device =
  fixes opn :: "u32 \<Rightarrow> int \<Rightarrow> int \<times> int"
    and rel :: "int \<Rightarrow> int \<times> int"
  assumes open_free: "fst (opn dev c) = 0 \<Longrightarrow> c = 0 \<and> snd (opn dev c) = 1"
    and open_refused: "fst (opn dev c) \<noteq> 0 \<Longrightarrow> snd (opn dev c) = c"
    and open_minor0: "MINOR dev = 0 \<Longrightarrow> fst (opn dev 0) = 0"
    and release_last: "snd (rel 1) = 0"
begin

lemma one_holder:
  assumes "dev_history opn rel (c, H)"
  shows "finite H \<and> card H \<le> 1 \<and> c = int (card H)"
  using assms
proof (induction "(c, H)" arbitrary: c H rule: dev_history.induct)
  case boot
  then show ?case by simp
next
  case (opened c H dev c' i)
  then show ?case using open_free [of dev c] by auto
next
  case (refused c H dev r c')
  then show ?case using open_refused [of dev c] by auto
next
  case (released c H i r c')
  then have "card H = 1" and "c = 1"
    using card_gt_0_iff [of H] by (auto simp: le_Suc_eq)
  moreover from this released have "c' = 0" using release_last by simp
  ultimately show ?case using released by simp
qed

text \<open>Once the holder has released the device, it can be opened again.\<close>

lemma reopen:
  assumes "dev_history opn rel (c, H)" and "i \<in> H" and "MINOR dev = 0"
  shows "fst (opn dev (snd (rel c))) = 0"
proof -
  have "finite H" and "card H \<le> 1" and "c = int (card H)"
    using one_holder [OF assms(1)] by auto
  with assms(2) have "c = 1" by (metis One_nat_def card_0_eq empty_iff le_SucE le_zero_eq of_nat_1)
  with release_last open_minor0 [OF assms(3)] show ?thesis by simp
qed

end

interpretation snmp_dev: exclusive_device ar_interface_open ar_interface_release
  by unfold_locales (auto simp: ar_interface_open_def ar_interface_release_def Let_def split: if_splits)

interpretation wakeup_dev: exclusive_device ar_wakeup_interface_open ar_wakeup_interface_release
  by unfold_locales
    (auto simp: ar_wakeup_interface_open_def ar_wakeup_interface_release_def Let_def split: if_splits)

section \<open>The operations statement by statement\<close>

text \<open>
  Where a process is: outside, before and inside the critical section of \<open>open\<close> (before the
  test, on the busy path, after the increment), holding the device, before and inside the
  critical section of \<open>release\<close> (before and after the decrement).
\<close>

datatype dev_pc =
  Idle | Open_Wait | Open_Test | Open_Busy | Open_Done | Holding | Rel_Wait | Rel_Dec | Rel_Done

record dev_sys =
  ar_app_lock :: "nat option"
  ar_count :: int
  pcs :: "nat \<Rightarrow> dev_pc"

definition dev_boot :: dev_sys where
  "dev_boot = \<lparr>ar_app_lock = None, ar_count = 0, pcs = (\<lambda>_. Idle)\<rparr>"

inductive dev_step :: "dev_sys \<Rightarrow> dev_sys \<Rightarrow> bool" where
  open_call: "pcs s i = Idle \<Longrightarrow> dev_step s (s\<lparr>pcs := (pcs s)(i := Open_Wait)\<rparr>)"
| open_lock: "pcs s i = Open_Wait \<Longrightarrow> ar_app_lock s = None \<Longrightarrow>
     dev_step s (s\<lparr>ar_app_lock := Some i, pcs := (pcs s)(i := Open_Test)\<rparr>)"
| open_busy: "pcs s i = Open_Test \<Longrightarrow> ar_count s \<noteq> 0 \<Longrightarrow>
     dev_step s (s\<lparr>pcs := (pcs s)(i := Open_Busy)\<rparr>)"
| busy_unlock: "pcs s i = Open_Busy \<Longrightarrow>
     dev_step s (s\<lparr>ar_app_lock := None, pcs := (pcs s)(i := Idle)\<rparr>)"
| open_inc: "pcs s i = Open_Test \<Longrightarrow> ar_count s = 0 \<Longrightarrow>
     dev_step s (s\<lparr>ar_count := ar_count s + 1, pcs := (pcs s)(i := Open_Done)\<rparr>)"
| open_unlock: "pcs s i = Open_Done \<Longrightarrow>
     dev_step s (s\<lparr>ar_app_lock := None, pcs := (pcs s)(i := Holding)\<rparr>)"
| rel_call: "pcs s i = Holding \<Longrightarrow> dev_step s (s\<lparr>pcs := (pcs s)(i := Rel_Wait)\<rparr>)"
| rel_lock: "pcs s i = Rel_Wait \<Longrightarrow> ar_app_lock s = None \<Longrightarrow>
     dev_step s (s\<lparr>ar_app_lock := Some i, pcs := (pcs s)(i := Rel_Dec)\<rparr>)"
| rel_dec: "pcs s i = Rel_Dec \<Longrightarrow>
     dev_step s (s\<lparr>ar_count := ar_count s - 1, pcs := (pcs s)(i := Rel_Done)\<rparr>)"
| rel_unlock: "pcs s i = Rel_Done \<Longrightarrow>
     dev_step s (s\<lparr>ar_app_lock := None, pcs := (pcs s)(i := Idle)\<rparr>)"

inductive dev_reach :: "dev_sys \<Rightarrow> bool" where
  start: "dev_reach dev_boot"
| step: "dev_reach s \<Longrightarrow> dev_step s t \<Longrightarrow> dev_reach t"

text \<open>In a critical section; having the device.\<close>

fun in_crit :: "dev_pc \<Rightarrow> bool" where
  "in_crit Open_Test = True"
| "in_crit Open_Busy = True"
| "in_crit Open_Done = True"
| "in_crit Rel_Dec = True"
| "in_crit Rel_Done = True"
| "in_crit _ = False"

fun has_dev :: "dev_pc \<Rightarrow> bool" where
  "has_dev Open_Done = True"
| "has_dev Holding = True"
| "has_dev Rel_Wait = True"
| "has_dev Rel_Dec = True"
| "has_dev _ = False"

definition holders :: "dev_sys \<Rightarrow> nat set" where
  "holders s = {i. has_dev (pcs s i)}"

definition lock_inv :: "dev_sys \<Rightarrow> bool" where
  "lock_inv s \<longleftrightarrow> (\<forall>i. in_crit (pcs s i) \<longleftrightarrow> ar_app_lock s = Some i)"

lemma holders_upd:
  "holders (s\<lparr>pcs := (pcs s)(i := p)\<rparr>) = (if has_dev p then insert i (holders s) else holders s - {i})"
  by (auto simp: holders_def)

lemma holders_other [simp]:
  "holders (s\<lparr>ar_app_lock := l, pcs := f\<rparr>) = holders (s\<lparr>pcs := f\<rparr>)"
  "holders (s\<lparr>ar_count := c, pcs := f\<rparr>) = holders (s\<lparr>pcs := f\<rparr>)"
  by (auto simp: holders_def)

lemma dev_step_lock_inv:
  assumes "dev_step s t" and "lock_inv s"
  shows "lock_inv t"
  using assms
  by (induction rule: dev_step.induct; unfold lock_inv_def)
    (simp; metis in_crit.simps option.inject option.distinct(1))+

lemma dev_boot_lock_inv: "lock_inv dev_boot"
  by (simp add: lock_inv_def dev_boot_def)

lemma dev_reach_lock_inv: "dev_reach s \<Longrightarrow> lock_inv s"
  by (induction rule: dev_reach.induct) (auto intro: dev_boot_lock_inv dev_step_lock_inv)

text \<open>
  Every step between processes is a step of the history of the atomic operations, or does
  not touch the count and the holders.
\<close>

lemma dev_step_history:
  assumes "dev_step s t" and h: "dev_history ar_interface_open ar_interface_release (ar_count s, holders s)"
  shows "dev_history ar_interface_open ar_interface_release (ar_count t, holders t)"
  using assms(1)
proof cases
  case (open_inc i)
  have "ar_interface_open 0 (ar_count s) = (0, ar_count s + 1)"
    using open_inc by (simp add: ar_interface_open_def MINOR_mod)
  from dev_history.opened [OF h this, of i] open_inc show ?thesis by (simp add: holders_upd)
next
  case (rel_dec i)
  then have "i \<in> holders s" by (simp add: holders_def)
  moreover have "ar_interface_release (ar_count s) = (0, ar_count s - 1)"
    by (simp add: ar_interface_release_def)
  ultimately show ?thesis
    using dev_history.released [OF h] rel_dec by (simp add: holders_upd)
qed (use h in \<open>auto simp: holders_upd, simp_all add: holders_def insert_absorb\<close>)

lemma dev_reach_history:
  "dev_reach s \<Longrightarrow> dev_history ar_interface_open ar_interface_release (ar_count s, holders s)"
proof (induction rule: dev_reach.induct)
  case start
  then show ?case by (simp add: dev_boot_def holders_def dev_history.boot)
next
  case (step s t)
  then show ?case by (blast intro: dev_step_history)
qed

section \<open>Progress\<close>

lemma step_trans: "dev_step s t \<Longrightarrow> dev_step\<^sup>*\<^sup>* t u \<Longrightarrow> dev_step\<^sup>*\<^sup>* s u"
  by (rule converse_rtranclp_into_rtranclp)

text \<open>The process in a critical section leaves it by steps of its own.\<close>

lemma crit_leaves:
  assumes "in_crit (pcs s j)"
  shows "\<exists>t. dev_step\<^sup>*\<^sup>* s t \<and> ar_app_lock t = None \<and> (\<forall>i. i \<noteq> j \<longrightarrow> pcs t i = pcs s i)"
proof -
  have busy: "\<exists>t. dev_step\<^sup>*\<^sup>* u t \<and> ar_app_lock t = None \<and> (\<forall>i. i \<noteq> j \<longrightarrow> pcs t i = pcs u i)"
    if pc: "pcs u j \<in> {Open_Busy, Open_Done, Rel_Done}" for u
  proof -
    obtain p where "dev_step u (u\<lparr>ar_app_lock := None, pcs := (pcs u)(j := p)\<rparr>)"
      using pc dev_step.busy_unlock [of u j] dev_step.open_unlock [of u j] dev_step.rel_unlock [of u j] by blast
    then show ?thesis
      by (intro exI [of _ "u\<lparr>ar_app_lock := None, pcs := (pcs u)(j := p)\<rparr>"]) auto
  qed
  show ?thesis
  proof (cases "pcs s j")
    case Open_Test
    let ?b = "s\<lparr>pcs := (pcs s)(j := Open_Busy)\<rparr>"
      and ?d = "s\<lparr>ar_count := ar_count s + 1, pcs := (pcs s)(j := Open_Done)\<rparr>"
    show ?thesis
    proof (cases "ar_count s = 0")
      case True
      from busy [of ?d] dev_step.open_inc [OF Open_Test True] show ?thesis
        by (auto intro: step_trans)
    next
      case False
      from busy [of ?b] dev_step.open_busy [OF Open_Test False] show ?thesis
        by (auto intro: step_trans)
    qed
  next
    case Rel_Dec
    let ?d = "s\<lparr>ar_count := ar_count s - 1, pcs := (pcs s)(j := Rel_Done)\<rparr>"
    from busy [of ?d] dev_step.rel_dec [OF Rel_Dec] show ?thesis
      by (auto intro: step_trans)
  qed (use assms busy [of s] in auto)
qed

text \<open>With the lock free, a waiting process goes through.\<close>

lemma open_through:
  assumes "pcs s i = Open_Wait" and "ar_app_lock s = None"
  shows "\<exists>t. dev_step\<^sup>*\<^sup>* s t \<and> ar_app_lock t = None \<and>
    (if ar_count s = 0 then pcs t i = Holding \<and> ar_count t = 1 else pcs t i = Idle \<and> ar_count t = ar_count s)"
proof -
  let ?a = "s\<lparr>ar_app_lock := Some i, pcs := (pcs s)(i := Open_Test)\<rparr>"
  have a: "dev_step s ?a" using assms by (rule dev_step.open_lock)
  show ?thesis
  proof (cases "ar_count s = 0")
    case True
    let ?b = "?a\<lparr>ar_count := ar_count ?a + 1, pcs := (pcs ?a)(i := Open_Done)\<rparr>"
    let ?c = "?b\<lparr>ar_app_lock := None, pcs := (pcs ?b)(i := Holding)\<rparr>"
    have "dev_step ?a ?b" using True by (intro dev_step.open_inc) simp_all
    moreover have "dev_step ?b ?c" by (intro dev_step.open_unlock) simp
    ultimately have "dev_step\<^sup>*\<^sup>* s ?c" using a by (meson step_trans r_into_rtranclp)
    with True show ?thesis by (intro exI [of _ ?c]) simp
  next
    case False
    let ?b = "?a\<lparr>pcs := (pcs ?a)(i := Open_Busy)\<rparr>"
    let ?c = "?b\<lparr>ar_app_lock := None, pcs := (pcs ?b)(i := Idle)\<rparr>"
    have "dev_step ?a ?b" using False by (intro dev_step.open_busy) simp_all
    moreover have "dev_step ?b ?c" by (intro dev_step.busy_unlock) simp
    ultimately have "dev_step\<^sup>*\<^sup>* s ?c" using a by (meson step_trans r_into_rtranclp)
    with False show ?thesis by (intro exI [of _ ?c]) simp
  qed
qed

lemma release_through:
  assumes "pcs s i = Rel_Wait" and "ar_app_lock s = None"
  shows "\<exists>t. dev_step\<^sup>*\<^sup>* s t \<and> ar_app_lock t = None \<and> pcs t i = Idle \<and> ar_count t = ar_count s - 1"
proof -
  let ?a = "s\<lparr>ar_app_lock := Some i, pcs := (pcs s)(i := Rel_Dec)\<rparr>"
  let ?b = "?a\<lparr>ar_count := ar_count ?a - 1, pcs := (pcs ?a)(i := Rel_Done)\<rparr>"
  let ?c = "?b\<lparr>ar_app_lock := None, pcs := (pcs ?b)(i := Idle)\<rparr>"
  have "dev_step s ?a" using assms by (rule dev_step.rel_lock)
  moreover have "dev_step ?a ?b" by (intro dev_step.rel_dec) simp
  moreover have "dev_step ?b ?c" by (intro dev_step.rel_unlock) simp
  ultimately have "dev_step\<^sup>*\<^sup>* s ?c" by (meson step_trans r_into_rtranclp)
  then show ?thesis by (intro exI [of _ ?c]) simp
qed

lemma lock_gets_free:
  assumes "dev_reach s" and "\<not> in_crit (pcs s i)"
  shows "\<exists>t. dev_step\<^sup>*\<^sup>* s t \<and> ar_app_lock t = None \<and> pcs t i = pcs s i"
proof (cases "ar_app_lock s")
  case None
  then show ?thesis by blast
next
  case (Some j)
  then have "in_crit (pcs s j)" using dev_reach_lock_inv [OF assms(1)] by (simp add: lock_inv_def)
  with crit_leaves [OF this] assms(2) show ?thesis by metis
qed

section \<open>Properties\<close>

text \<open>
  Claim C14.  Mutual exclusion under any interleaving: in every reachable state at most one
  process has the device, the open count is the number of holders, and at most one process
  is in a critical section, namely the one that owns the spin lock.
\<close>

theorem device_mutual_exclusion:
  assumes "dev_reach s"
  shows "card (holders s) \<le> 1 \<and> ar_count s = int (card (holders s)) \<and>
    (\<forall>i. in_crit (pcs s i) \<longleftrightarrow> ar_app_lock s = Some i)"
  using snmp_dev.one_holder [OF dev_reach_history [OF assms]] dev_reach_lock_inv [OF assms]
  by (simp add: lock_inv_def)

text \<open>A run in which process 7 gets the device while process 8 waits for the lock.\<close>

definition demo_dev :: dev_sys where
  "demo_dev = \<lparr>ar_app_lock = Some 7, ar_count = 1,
               pcs = (\<lambda>_. Idle)(7 := Open_Done, 8 := Open_Wait)\<rparr>"

lemma demo_dev_reach: "dev_reach demo_dev"
proof -
  let ?s = "\<lambda>l c p. \<lparr>ar_app_lock = l, ar_count = c, pcs = (\<lambda>_. Idle)(7 := p)\<rparr>"
  have "dev_reach (?s None 0 Open_Wait)"
    using dev_reach.step [OF dev_reach.start dev_step.open_call [of dev_boot 7]]
    by (simp add: dev_boot_def)
  then have "dev_reach (?s (Some 7) 0 Open_Test)"
    using dev_reach.step [OF _ dev_step.open_lock [of "?s None 0 Open_Wait" 7]] by simp
  then have "dev_reach (?s (Some 7) 1 Open_Done)"
    using dev_reach.step [OF _ dev_step.open_inc [of "?s (Some 7) 0 Open_Test" 7]] by simp
  then show ?thesis
    using dev_reach.step [OF _ dev_step.open_call [of "?s (Some 7) 1 Open_Done" 8]]
    by (simp add: demo_dev_def)
qed

theorem device_mutual_exclusion_witness:
  "card (holders demo_dev) \<le> 1 \<and> ar_count demo_dev = int (card (holders demo_dev)) \<and>
   holders demo_dev = {7} \<and> (\<forall>i. in_crit (pcs demo_dev i) \<longleftrightarrow> i = 7)"
  using device_mutual_exclusion [OF demo_dev_reach]
  by (auto simp: demo_dev_def holders_def split: if_splits)

text \<open>
  The wake-up device: after any history of opens, refused opens and releases at most
  one process holds it and the count says how many; and when that process releases it, the
  next open of minor 0 succeeds.
\<close>

theorem wakeup_device_history:
  assumes "dev_history ar_wakeup_interface_open ar_wakeup_interface_release (c, H)"
  shows "card H \<le> 1 \<and> c = int (card H) \<and>
    (\<forall>i dev. i \<in> H \<and> MINOR dev = 0 \<longrightarrow>
       fst (ar_wakeup_interface_open dev (snd (ar_wakeup_interface_release c))) = 0)"
  using wakeup_dev.one_holder [OF assms] wakeup_dev.reopen [OF assms] by blast

theorem wakeup_device_history_witness:
  "dev_history ar_wakeup_interface_open ar_wakeup_interface_release (1, {3}) \<and>
   fst (ar_wakeup_interface_open 0x06800000 (snd (ar_wakeup_interface_release 1))) = 0"
proof -
  have o: "ar_wakeup_interface_open 0x06800000 0 = (0, 1)"
    by (simp add: ar_wakeup_interface_open_def MINOR_mod)
  have h: "dev_history ar_wakeup_interface_open ar_wakeup_interface_release (1, {3})"
    using dev_history.opened [where opn = ar_wakeup_interface_open and dev = "0x06800000"
        and i = 3, OF dev_history.boot o] by simp
  with wakeup_device_history [OF h] show ?thesis by (auto simp: MINOR_mod)
qed

text \<open>
  Claim C21.  No deadlock: in every reachable state a process waiting in \<open>open\<close> can go on to return,
  holding the device or refused, and one waiting in \<open>release\<close> can go on to have released it;
  either way the spin lock is free again.
\<close>

theorem waiting_process_proceeds:
  assumes "dev_reach s" and "pcs s i = Open_Wait \<or> pcs s i = Rel_Wait"
  shows "\<exists>t. dev_step\<^sup>*\<^sup>* s t \<and> ar_app_lock t = None \<and>
    (pcs s i = Open_Wait \<longrightarrow> pcs t i = Holding \<and> ar_count t = 1 \<or> pcs t i = Idle) \<and>
    (pcs s i = Rel_Wait \<longrightarrow> pcs t i = Idle)"
proof -
  have "\<not> in_crit (pcs s i)" using assms(2) by auto
  from lock_gets_free [OF assms(1) this] obtain u where
    u: "dev_step\<^sup>*\<^sup>* s u" "ar_app_lock u = None" "pcs u i = pcs s i" by blast
  from assms(2) show ?thesis
  proof
    assume w: "pcs s i = Open_Wait"
    with u open_through [of u i] obtain t where "dev_step\<^sup>*\<^sup>* u t" "ar_app_lock t = None"
      "pcs t i = Holding \<and> ar_count t = 1 \<or> pcs t i = Idle"
      by (auto split: if_splits)
    with u(1) w show ?thesis by (intro exI [of _ t]) (auto intro: rtranclp_trans)
  next
    assume w: "pcs s i = Rel_Wait"
    with u release_through [of u i] obtain t where "dev_step\<^sup>*\<^sup>* u t" "ar_app_lock t = None" "pcs t i = Idle"
      by auto
    with u(1) w show ?thesis by (intro exI [of _ t]) (auto intro: rtranclp_trans)
  qed
qed

theorem waiting_process_proceeds_witness:
  "\<exists>t. dev_step\<^sup>*\<^sup>* demo_dev t \<and> ar_app_lock t = None \<and> (pcs t 8 = Holding \<and> ar_count t = 1 \<or> pcs t 8 = Idle)"
proof -
  have "pcs demo_dev 8 = Open_Wait" by (simp add: demo_dev_def)
  with waiting_process_proceeds [OF demo_dev_reach, of 8] show ?thesis by auto
qed

end
