(* ===== verification/AR_Files.thy ===== *)
theory AR_Files
  imports AR_System AR_Chardev
begin

text \<open>
  The two devices as files.  The tables of operations of \<open>armodule/source/arctrl_snmptool.c\<close> and
  \<open>armodule/source/arctrl_wakeuptool.c\<close> join opening, requests and releasing; the kernel serves a
  request or a release only on a file that is open.  What follows from the counts of open files:
  the requests of one file are never mixed with those of another.
\<close>

section \<open>The tables of operations\<close>

record 'f file_operations =
  fop_open :: "u32 \<Rightarrow> int \<Rightarrow> int \<times> int"
  fop_release :: "int \<Rightarrow> int \<times> int"
  unlocked_ioctl :: 'f

definition ar_snmp_interface_fops ::
    "(snmp_user_mem \<Rightarrow> allocator \<Rightarrow> u32 \<Rightarrow> nat \<Rightarrow> snmp_state \<Rightarrow> (int \<times> snmp_state) res) file_operations" where
  "ar_snmp_interface_fops = \<lparr>fop_open = ar_interface_open, fop_release = ar_interface_release,
     unlocked_ioctl = ar_interface_ioctl\<rparr>"

definition ar_wakeup_interface_fops ::
    "(wakeup_user_mem \<Rightarrow> alloc_ok \<Rightarrow> u32 \<Rightarrow> nat \<Rightarrow> wakeup_state \<Rightarrow> (int \<times> wakeup_state) res) file_operations" where
  "ar_wakeup_interface_fops = \<lparr>fop_open = ar_wakeup_interface_open, fop_release = ar_wakeup_interface_release,
     unlocked_ioctl = ar_wakeup_interface_ioctl\<rparr>"

section \<open>Files and calls\<close>

text \<open>
  The module with the counts of its devices, and which open files refer to a device.  A file is
  known by a number; threads that share a descriptor share the file.
\<close>

datatype ar_dev = Snmp_Dev | Wakeup_Dev

record ar_files =
  fmod :: ar_module
  ar_open_count :: int
  ar_wakeopen_count :: int
  holds :: "ar_dev \<Rightarrow> nat set"

definition files_boot :: "ar_module \<Rightarrow> ar_files" where
  "files_boot m = \<lparr>fmod = m, ar_open_count = 0, ar_wakeopen_count = 0, holds = (\<lambda>d. {})\<rparr>"

primrec dev_count :: "ar_dev \<Rightarrow> ar_files \<Rightarrow> int" where
  "dev_count Snmp_Dev st = ar_open_count st"
| "dev_count Wakeup_Dev st = ar_wakeopen_count st"

primrec set_dev_count :: "ar_dev \<Rightarrow> int \<Rightarrow> ar_files \<Rightarrow> ar_files" where
  "set_dev_count Snmp_Dev c st = st\<lparr>ar_open_count := c\<rparr>"
| "set_dev_count Wakeup_Dev c st = st\<lparr>ar_wakeopen_count := c\<rparr>"

primrec dev_open :: "ar_dev \<Rightarrow> u32 \<Rightarrow> int \<Rightarrow> int \<times> int" where
  "dev_open Snmp_Dev = fop_open ar_snmp_interface_fops"
| "dev_open Wakeup_Dev = fop_open ar_wakeup_interface_fops"

primrec dev_release :: "ar_dev \<Rightarrow> int \<Rightarrow> int \<times> int" where
  "dev_release Snmp_Dev = fop_release ar_snmp_interface_fops"
| "dev_release Wakeup_Dev = fop_release ar_wakeup_interface_fops"

text \<open>What a call goes through: a request one of the devices, the other calls none.\<close>

fun entry_dev :: "entry \<Rightarrow> ar_dev option" where
  "entry_dev (Snmp_Ioctl um pick cmd arg) = Some Snmp_Dev"
| "entry_dev (Wakeup_Ioctl um kz cmd arg) = Some Wakeup_Dev"
| "entry_dev _ = None"

fun dispatch ::
    "string \<Rightarrow> (fm_port \<Rightarrow> nat) \<Rightarrow> entry \<Rightarrow> ar_module \<Rightarrow> (int \<times> ar_module \<times> fmd_call list) res" where
  "dispatch port handle (Snmp_Ioctl um pick cmd arg) m =
     rbind (unlocked_ioctl ar_snmp_interface_fops um pick cmd arg (snmp m)) (\<lambda>(r, s). Inr (r, m\<lparr>snmp := s\<rparr>, []))"
| "dispatch port handle (Wakeup_Ioctl um kz cmd arg) m =
     rbind (unlocked_ioctl ar_wakeup_interface_fops um kz cmd arg (wakeup m)) (\<lambda>(r, s). Inr (r, m\<lparr>wakeup := s\<rparr>, []))"
| "dispatch port handle e m = entry_call port handle e m"

datatype file_event =
    Open nat ar_dev u32
  | Release nat ar_dev
  | Call nat entry

fun file_call ::
    "string \<Rightarrow> (fm_port \<Rightarrow> nat) \<Rightarrow> file_event \<Rightarrow> ar_files \<Rightarrow> (int \<times> ar_files) res" where
  "file_call port handle (Open i d i_rdev) st =
     (let (r, c) = dev_open d i_rdev (dev_count d st); st = set_dev_count d c st in
      Inr (r, if r = 0 then st\<lparr>holds := (holds st)(d := insert i (holds st d))\<rparr> else st))"
| "file_call port handle (Release i d) st =
     (let (r, c) = dev_release d (dev_count d st); st = set_dev_count d c st in
      Inr (r, st\<lparr>holds := (holds st)(d := holds st d - {i})\<rparr>))"
| "file_call port handle (Call i e) st =
     rbind (dispatch port handle e (fmod st)) (\<lambda>(r, m, calls). Inr (r, st\<lparr>fmod := m\<rparr>))"

text \<open>What the kernel sees to: requests and releases are those of open files.\<close>

fun file_ok :: "file_event \<Rightarrow> ar_files \<Rightarrow> bool" where
  "file_ok (Open i d i_rdev) st \<longleftrightarrow> i \<notin> holds st d"
| "file_ok (Release i d) st \<longleftrightarrow> i \<in> holds st d"
| "file_ok (Call i e) st \<longleftrightarrow> (case entry_dev e of None \<Rightarrow> True | Some d \<Rightarrow> i \<in> holds st d)"

inductive file_run ::
    "string \<Rightarrow> (fm_port \<Rightarrow> nat) \<Rightarrow> ar_files \<Rightarrow> (file_event \<times> int) list \<Rightarrow> ar_files \<Rightarrow> bool"
  for port handle s0 where
  none: "file_run port handle s0 [] s0"
| more: "file_run port handle s0 tr st \<Longrightarrow> file_ok ev st \<Longrightarrow> file_call port handle ev st = Inr (r, st') \<Longrightarrow>
     file_run port handle s0 (tr @ [(ev, r)]) st'"

inductive_cases file_run_snocE: "file_run port handle s0 (tr @ [x]) st"

section \<open>Lemmas\<close>

text \<open>Both tables keep the contract of an exclusive device.\<close>

lemma dev_open_eq:
  "dev_open d i_rdev c =
     (if MINOR i_rdev \<noteq> 0 then (- errno_code ENODEV, c)
      else if c \<noteq> 0 then (- errno_code EUSERS, c) else (0, c + 1))"
  by (cases d) (simp_all add: ar_snmp_interface_fops_def ar_wakeup_interface_fops_def ar_interface_open_def
      ar_wakeup_interface_open_def Let_def uint_0_iff)

lemma dev_release_result: "dev_release d c = (0, c - 1)"
  by (cases d) (simp_all add: ar_snmp_interface_fops_def ar_wakeup_interface_fops_def ar_interface_release_def
      ar_wakeup_interface_release_def)

interpretation file_dev: exclusive_device "dev_open d" "dev_release d" for d
  by unfold_locales (simp_all add: dev_open_eq dev_release_result split: if_splits)

lemma dispatch_eq: "dispatch port handle e m = entry_call port handle e m"
  by (cases e) (simp_all add: ar_snmp_interface_fops_def ar_wakeup_interface_fops_def)

lemma dev_count_set [simp]:
  "dev_count d (set_dev_count d' c st) = (if d = d' then c else dev_count d st)"
  "holds (set_dev_count d' c st) = holds st" "fmod (set_dev_count d' c st) = fmod st"
  by (cases d; cases d'; simp)+

lemma dev_count_upd [simp]:
  "dev_count d (st\<lparr>holds := h\<rparr>) = dev_count d st" "dev_count d (st\<lparr>fmod := m\<rparr>) = dev_count d st"
  by (cases d; simp)+

lemma set_dev_count_same [simp]: "set_dev_count d (dev_count d st) st = st"
  by (cases d) simp_all

text \<open>Opening and releasing in one equation each.\<close>

lemma file_open_eq:
  "file_call port handle (Open i d i_rdev) st = Inr
     (if MINOR i_rdev \<noteq> 0 then (- errno_code ENODEV, st)
      else if dev_count d st \<noteq> 0 then (- errno_code EUSERS, st)
      else (0, (set_dev_count d 1 st)\<lparr>holds := (holds st)(d := insert i (holds st d))\<rparr>))"
  by (simp add: dev_open_eq Let_def)

lemma file_release_eq:
  "file_call port handle (Release i d) st =
     Inr (0, (set_dev_count d (dev_count d st - 1) st)\<lparr>holds := (holds st)(d := holds st d - {i})\<rparr>)"
  by (simp add: dev_release_result Let_def)

text \<open>The count of each device and its open files make a history of that device.\<close>

lemma run_history:
  assumes "file_run port handle (files_boot m) tr st"
  shows "dev_history (dev_open d) (dev_release d) (dev_count d st, holds st d)"
  using assms
proof (induction rule: file_run.induct)
  case none
  have "dev_count d (files_boot m) = 0" by (cases d) (simp_all add: files_boot_def)
  then show ?case using dev_history.boot by (simp add: files_boot_def)
next
  case (more tr st ev r st')
  show ?case
  proof (cases ev)
    case (Open i e i_rdev)
    obtain r' c where o: "dev_open e i_rdev (dev_count e st) = (r', c)" by fastforce
    with more.hyps(3) Open have st': "r = r'" "st' = (let st = set_dev_count e c st in
        if r' = 0 then st\<lparr>holds := (holds st)(e := insert i (holds st e))\<rparr> else st)"
      by (auto simp: Let_def)
    show ?thesis
    proof (cases "d = e")
      case True
      with o more.IH st' show ?thesis
        by (auto simp: Let_def intro: dev_history.opened dev_history.refused)
    next
      case False
      with more.IH st' show ?thesis by (simp add: Let_def)
    qed
  next
    case (Release i e)
    with more.hyps(2,3) have "i \<in> holds st e" "st' = (set_dev_count e (dev_count e st - 1) st)
        \<lparr>holds := (holds st)(e := holds st e - {i})\<rparr>"
      by (auto simp: dev_release_result)
    with more.IH dev_history.released [OF _ _ dev_release_result] show ?thesis by (cases "d = e") auto
  next
    case (Call i e)
    with more.hyps(3) have "holds st' = holds st" "dev_count d st' = dev_count d st"
      by (auto simp: rbind_eq_Inr)
    with more.IH show ?thesis by simp
  qed
qed

lemma run_counts:
  assumes "file_run port handle (files_boot m) tr st"
  shows "dev_count d st = int (card (holds st d))" and "card (holds st d) \<le> 1" and "finite (holds st d)"
  using file_dev.one_holder [OF run_history [OF assms, of d]] by simp_all

text \<open>The first successful opening leaves the device to its file alone.\<close>

lemma opened_alone:
  assumes "file_run port handle (files_boot m) (xs @ [(Open i d i_rdev, 0)]) st"
  shows "holds st d = {i}"
proof -
  obtain st0 where st0: "file_run port handle (files_boot m) xs st0"
    "file_call port handle (Open i d i_rdev) st0 = Inr (0, st)"
    using assms by (auto elim: file_run_snocE)
  then have "dev_count d st0 = 0" and h: "holds st d = insert i (holds st0 d)"
    by (auto simp: dev_open_eq Let_def split: if_splits)
  then have "holds st0 d = {}" using run_counts(1,3) [OF st0(1), of d] by simp
  with h show ?thesis by simp
qed

text \<open>One event while the file \<open>i\<close> has the device: every event but its own release leaves that so.\<close>

lemma session_event:
  assumes run: "file_run port handle (files_boot m) tr st" and hold: "holds st d = {i}"
    and ok: "file_ok ev st" and call: "file_call port handle ev st = Inr (r, st')" and keep: "ev \<noteq> Release i d"
  shows "holds st' d = {i}"
    and "ev = Call j e \<Longrightarrow> entry_dev e = Some d \<Longrightarrow> j = i"
    and "ev = Open j d i_rdev \<Longrightarrow> r = - errno_code (if MINOR i_rdev = 0 then EUSERS else ENODEV)"
    and "ev \<noteq> Release j d"
proof -
  have c: "dev_count d st = 1" using run_counts(1) [OF run, of d] hold by simp
  show "holds st' d = {i}"
  proof (cases ev)
    case (Open j e n)
    note call' = call [unfolded Open file_open_eq]
    show ?thesis
    proof (cases "e = d")
      case True
      with call' c have "st' = st" by (simp split: if_split_asm)
      with hold show ?thesis by simp
    next
      case False
      with call' have "holds st' d = holds st d" by (auto split: if_split_asm)
      with hold show ?thesis by simp
    qed
  next
    case (Release j e)
    with ok hold keep have "d \<noteq> e" by auto
    with call [unfolded Release file_release_eq] have "holds st' d = holds st d" by auto
    with hold show ?thesis by simp
  next
    case (Call j e)
    with call have "holds st' = holds st" by (auto simp: rbind_eq_Inr)
    with hold show ?thesis by simp
  qed
  show "ev = Call j e \<Longrightarrow> entry_dev e = Some d \<Longrightarrow> j = i" using ok hold by simp
  show "r = - errno_code (if MINOR i_rdev = 0 then EUSERS else ENODEV)" if "ev = Open j d i_rdev"
  proof -
    note call' = call [unfolded that file_open_eq]
    show ?thesis using call' c by (cases "MINOR i_rdev = 0") simp_all
  qed
  show "ev \<noteq> Release j d"
  proof
    assume e: "ev = Release j d"
    with ok hold have "j = i" by simp
    with e keep show False by simp
  qed
qed

lemma run_spec_snoc:
  "snd (run_spec spec (xs @ [(e, r)]) a) = fst (spec e r (snd (run_spec spec xs a)))"
proof (induction xs arbitrary: a)
  case (Cons x xs)
  then show ?case by (cases x) (simp add: split_beta)
qed (simp add: split_beta)

section \<open>Properties\<close>

text \<open>
  Claim C12.  Sessions.  From a successful opening of a device until the same file releases it,
  whatever happens on the module: every request served on that device is one of this file, every
  other attempt to open it is refused with \<open>-EUSERS\<close> (\<open>-ENODEV\<close> for another minor number), no
  other file releases it, and the file still has it at the end.
\<close>

theorem sessions_exclusive:
  assumes "file_run port handle (files_boot m) (xs @ (Open i d i_rdev, 0) # ys) st"
    and "\<forall>r. (Release i d, r) \<notin> set ys"
  shows "holds st d = {i} \<and> (\<forall>ev r. (ev, r) \<in> set ys \<longrightarrow>
    (case ev of
       Call j e \<Rightarrow> entry_dev e = Some d \<longrightarrow> j = i
     | Open j d' i_rdev' \<Rightarrow> d' = d \<longrightarrow> r = - errno_code (if MINOR i_rdev' = 0 then EUSERS else ENODEV)
     | Release j d' \<Rightarrow> d' \<noteq> d))"
  using assms
proof (induction ys arbitrary: st rule: rev_induct)
  case Nil
  then show ?case using opened_alone [of port handle m xs i d i_rdev st] by simp
next
  case (snoc x ys)
  obtain ev r where x: "x = (ev, r)" by (cases x)
  have "file_run port handle (files_boot m) ((xs @ (Open i d i_rdev, 0) # ys) @ [(ev, r)]) st"
    using snoc.prems(1) x by simp
  then obtain st0 where st0: "file_run port handle (files_boot m) (xs @ (Open i d i_rdev, 0) # ys) st0"
    "file_ok ev st0" "file_call port handle ev st0 = Inr (r, st)"
    by (rule file_run_snocE) auto
  have keep: "ev \<noteq> Release i d" using snoc.prems(2) x by auto
  from snoc.IH [OF st0(1)] snoc.prems(2) have IH: "holds st0 d = {i}" "\<And>ev r. (ev, r) \<in> set ys \<Longrightarrow>
    (case ev of
       Call j e \<Rightarrow> entry_dev e = Some d \<longrightarrow> j = i
     | Open j d' i_rdev' \<Rightarrow> d' = d \<longrightarrow> r = - errno_code (if MINOR i_rdev' = 0 then EUSERS else ENODEV)
     | Release j d' \<Rightarrow> d' \<noteq> d)" by auto
  note this_event = session_event [OF st0(1) IH(1) st0(2,3) keep]
  show ?case
  proof (intro conjI allI impI)
    show "holds st d = {i}" by (rule this_event(1))
    fix ev' r'
    assume "(ev', r') \<in> set (ys @ [x])"
    then consider "(ev', r') \<in> set ys" | "ev' = ev" "r' = r" by (auto simp: x)
    then show "case ev' of
       Call j e \<Rightarrow> entry_dev e = Some d \<longrightarrow> j = i
     | Open j d' i_rdev' \<Rightarrow> d' = d \<longrightarrow> r' = - errno_code (if MINOR i_rdev' = 0 then EUSERS else ENODEV)
     | Release j d' \<Rightarrow> d' \<noteq> d"
    proof cases
      case 1
      then show ?thesis by (rule IH(2))
    next
      case 2
      then show ?thesis
        using this_event(2,3) this_event(4) by (cases ev) simp_all
    qed
  qed
qed

text \<open>A session with the wake-up device: opened by file 1, refused to file 2, a request of file 1.\<close>

lemma demo_session:
  "\<exists>r st. file_run ''fm1-mac5'' (\<lambda>p. 100 + p) (files_boot demo_module)
     ([] @ (Open 1 Wakeup_Dev 0, 0) # [(Open 2 Wakeup_Dev 0, - 87), (Call 1 (hd demo_entries), r)]) st"
proof -
  let ?fr = "file_run ''fm1-mac5'' (\<lambda>p. 100 + p) (files_boot demo_module)"
  let ?st = "(files_boot demo_module)\<lparr>ar_wakeopen_count := 1, holds := (\<lambda>d. {})(Wakeup_Dev := {1})\<rparr>"
  have m: "MINOR 0 = 0" by (simp add: MINOR_def)
  have a: "?fr ([] @ [(Open 1 Wakeup_Dev 0, 0)]) ?st"
    by (rule file_run.more [OF file_run.none]) (simp_all add: dev_open_eq m files_boot_def del: dev_open.simps)
  have b: "?fr (([] @ [(Open 1 Wakeup_Dev 0, 0)]) @ [(Open 2 Wakeup_Dev 0, - 87)]) ?st"
    by (rule file_run.more [OF a]) (simp_all add: dev_open_eq m files_boot_def del: dev_open.simps)
  have "list_all (entry_ok (rooms_of demo_module) ''fm1-mac5'') demo_entries"
    by (rule demo_entries_ok) (simp_all add: demo_rooms)
  then have e: "entry_ok (rooms_of demo_module) ''fm1-mac5'' (hd demo_entries)" by (simp add: demo_entries_def)
  obtain r m' calls where "entry_call ''fm1-mac5'' (\<lambda>p. 100 + p) (hd demo_entries) demo_module = Inr (r, m', calls)"
    using entry_refines [OF demo_running e] unfolding call_refines_def by blast
  then have "?fr ((([] @ [(Open 1 Wakeup_Dev 0, 0)]) @ [(Open 2 Wakeup_Dev 0, - 87)]) @ [(Call 1 (hd demo_entries), r)])
      (?st\<lparr>fmod := m'\<rparr>)"
    by (intro file_run.more [OF b]) (simp_all add: files_boot_def dispatch_eq demo_entries_def del: dispatch.simps)
  then show ?thesis by auto
qed

theorem sessions_exclusive_witness:
  "\<exists>r st. file_run ''fm1-mac5'' (\<lambda>p. 100 + p) (files_boot demo_module)
     ([] @ (Open 1 Wakeup_Dev 0, 0) # [(Open 2 Wakeup_Dev 0, - 87), (Call 1 (hd demo_entries), r)]) st \<and>
   holds st Wakeup_Dev = {1}"
proof -
  from demo_session obtain r st where run: "file_run ''fm1-mac5'' (\<lambda>p. 100 + p) (files_boot demo_module)
    ([] @ (Open 1 Wakeup_Dev 0, 0) # [(Open 2 Wakeup_Dev 0, - 87), (Call 1 (hd demo_entries), r)]) st" by blast
  have "\<forall>r'. (Release 1 Wakeup_Dev, r') \<notin> set [(Open 2 Wakeup_Dev 0, - 87), (Call 1 (hd demo_entries), r)]" by simp
  from sessions_exclusive [OF run this] run show ?thesis by blast
qed

text \<open>The calls of a history, and the events the module is made for.\<close>

fun calls_of :: "(file_event \<times> int) list \<Rightarrow> (entry \<times> int) list" where
  "calls_of [] = []"
| "calls_of ((Call i e, r) # tr) = (e, r) # calls_of tr"
| "calls_of (_ # tr) = calls_of tr"

fun event_ok :: "ar_rooms \<Rightarrow> string \<Rightarrow> file_event \<Rightarrow> bool" where
  "event_ok R port (Call i e) \<longleftrightarrow> entry_ok R port e"
| "event_ok R port _ \<longleftrightarrow> True"

lemma calls_of_append [simp]: "calls_of (xs @ ys) = calls_of xs @ calls_of ys"
  by (induction xs rule: calls_of.induct) auto

lemma file_step_refines:
  assumes "running_ok (fmod st)" and "event_ok (rooms_of (fmod st)) port ev"
  shows "\<exists>r st'. file_call port handle ev st = Inr (r, st') \<and> running_ok (fmod st') \<and>
    rooms_of (fmod st') = rooms_of (fmod st) \<and>
    snd (run_spec (spec_call (rooms_of (fmod st)) port handle) (calls_of [(ev, r)]) (config_of (fmod st))) =
      config_of (fmod st')"
proof (cases ev)
  case (Open i d i_rdev)
  then show ?thesis using assms(1) by (auto simp: dev_open_eq Let_def)
next
  case (Release i d)
  then show ?thesis using assms(1) by (simp add: dev_release_result Let_def)
next
  case (Call i e)
  with assms(2) have "entry_ok (rooms_of (fmod st)) port e" by simp
  from entry_refines [OF assms(1) this, of handle] show ?thesis
    by (auto simp: Call call_refines_def dispatch_eq)
qed

lemma file_run_refines:
  assumes "file_run port handle (files_boot m) tr st" and "running_ok m"
    and "list_all (\<lambda>(ev, r). event_ok (rooms_of m) port ev) tr"
  shows "running_ok (fmod st) \<and> rooms_of (fmod st) = rooms_of m \<and>
    snd (run_spec (spec_call (rooms_of m) port handle) (calls_of tr) (config_of m)) = config_of (fmod st)"
  using assms
proof (induction rule: file_run.induct)
  case none
  then show ?case by (simp add: files_boot_def)
next
  case (more tr st ev r st')
  have IH: "running_ok (fmod st)" "rooms_of (fmod st) = rooms_of m"
    "snd (run_spec (spec_call (rooms_of m) port handle) (calls_of tr) (config_of m)) = config_of (fmod st)"
    and ev: "event_ok (rooms_of m) port ev"
    using more by simp_all
  from file_step_refines [OF IH(1), of port ev handle] ev IH(2) more.hyps(3) have
    one: "running_ok (fmod st')" "rooms_of (fmod st') = rooms_of m"
      "snd (run_spec (spec_call (rooms_of m) port handle) (calls_of [(ev, r)]) (config_of (fmod st))) = config_of (fmod st')"
    by auto
  show ?case
  proof (cases ev)
    case (Call i e)
    with one IH(3) show ?thesis by (simp add: run_spec_snoc split_beta)
  qed (use one IH(3) in simp_all)
qed

text \<open>
  Claim C11.  The whole module behind its files.  In every history of openings, releases and calls
  the module is made for (\<open>entry_ok\<close>; openings and releases without restriction),
  from any state between calls: the invariants of all databases hold, the configuration is the one
  the abstract machine reaches with the calls alone, in their order, and the next event of this
  kind that the kernel lets through is served without undefined behaviour.
\<close>

theorem file_history_refines:
  assumes "running_ok m" and "file_run port handle (files_boot m) tr st"
    and "list_all (\<lambda>(ev, r). event_ok (rooms_of m) port ev) tr"
  shows "running_ok (fmod st) \<and> rooms_of (fmod st) = rooms_of m \<and>
    snd (run_spec (spec_call (rooms_of m) port handle) (calls_of tr) (config_of m)) = config_of (fmod st) \<and>
    (\<forall>ev. event_ok (rooms_of m) port ev \<longrightarrow> (\<exists>r st'. file_call port handle ev st = Inr (r, st')))"
proof -
  have run: "running_ok (fmod st)" "rooms_of (fmod st) = rooms_of m"
    "snd (run_spec (spec_call (rooms_of m) port handle) (calls_of tr) (config_of m)) = config_of (fmod st)"
    using file_run_refines [OF assms(2,1,3)] by simp_all
  moreover have "\<exists>r st'. file_call port handle ev st = Inr (r, st')" if "event_ok (rooms_of m) port ev" for ev
    using file_step_refines [OF run(1), of port ev handle] that run(2) by auto
  ultimately show ?thesis by blast
qed

theorem file_history_refines_witness:
  "\<exists>r st. file_run ''fm1-mac5'' (\<lambda>p. 100 + p) (files_boot demo_module)
     ([] @ (Open 1 Wakeup_Dev 0, 0) # [(Open 2 Wakeup_Dev 0, - 87), (Call 1 (hd demo_entries), r)]) st \<and>
   udp_rules (wakeup (fmod st)) = [demo_rule 5 6]"
proof -
  let ?tr = "\<lambda>r. [] @ (Open 1 Wakeup_Dev 0, 0) # [(Open 2 Wakeup_Dev 0, - 87), (Call 1 (hd demo_entries), r)]"
  from demo_session obtain r st where
    run: "file_run ''fm1-mac5'' (\<lambda>p. 100 + p) (files_boot demo_module) (?tr r) st" by blast
  have "list_all (entry_ok (rooms_of demo_module) ''fm1-mac5'') demo_entries"
    by (rule demo_entries_ok) (simp_all add: demo_rooms)
  then have "list_all (\<lambda>(ev, r). event_ok (rooms_of demo_module) ''fm1-mac5'' ev) (?tr r)"
    by (simp add: demo_entries_def)
  from file_history_refines [OF demo_running run this] have
    c: "snd (run_spec (spec_call (rooms_of demo_module) ''fm1-mac5'' (\<lambda>p. 100 + p)) (calls_of (?tr r))
      (config_of demo_module)) = config_of (fmod st)" by blast
  have "cf_udp (config_of (fmod st)) = [demo_rule 5 6]"
    unfolding c [symmetric]
    by (simp add: demo_entries_def spec_wakeup_def demo_copy_port demo_rooms upsert_def)
  then show ?thesis using run by (auto simp: config_of_def Let_def)
qed

end
