(* ===== verification/AR_Dump.thy ===== *)
theory AR_Dump
  imports AR_Frame
begin

text \<open>
  The console dump of the three databases, \<open>ar_interface_info_dump\<close> of
  \<open>armodule/source/arctrl_fmd.c\<close>.  It reads every table up to the count in its database, as the
  FMAN driver does with what it is handed, so what is proved of its reads says which states
  the driver can be given.  The result is the text printed.
\<close>

section \<open>The conversions of the format strings\<close>

definition tab :: string where
  "tab = [CHR 0x09]"

definition low_digit :: "nat \<Rightarrow> char" where
  "low_digit d = ''0123456789abcdef'' ! d"

function num_string :: "nat \<Rightarrow> nat \<Rightarrow> string" where
  "num_string base n =
     (if n < base \<or> base < 2 then [low_digit n]
      else num_string base (n div base) @ [low_digit (n mod base)])"
  by pat_completeness auto
termination by (relation "measure snd") auto

declare num_string.simps [simp del]

text \<open>\<open>%d\<close> and \<open>%u\<close>, \<open>%x\<close> (also \<open>%0x\<close>, \<open>%hx\<close>, \<open>%hhx\<close> of numbers of that width), \<open>%hd\<close> of a 16-bit number.\<close>

definition fmt_d :: "int \<Rightarrow> string" where
  "fmt_d x = (if x < 0 then ''-'' @ num_string 10 (nat (- x)) else num_string 10 (nat x))"

definition fmt_x :: "nat \<Rightarrow> string" where
  "fmt_x n = num_string 16 n"

definition fmt_hd :: "u16 \<Rightarrow> string" where
  "fmt_hd w = fmt_d (sint w)"

text \<open>\<open>%pM\<close>: a hardware address, each byte with two digits, colons between them.\<close>

fun fmt_pM :: "u8 list \<Rightarrow> string" where
  "fmt_pM [] = []"
| "fmt_pM (b # bs) =
     low_digit (unat b div 16) # low_digit (unat b mod 16) # (if bs = [] then [] else CHR '':'' # fmt_pM bs)"

text \<open>\<open>%s\<close>: the bytes up to the first NUL.\<close>

definition fmt_s :: "u8 list \<Rightarrow> string res" where
  "fmt_s b = rbind (c_strlen b) (\<lambda>n. Inr (map (\<lambda>x. char_of (unat x)) (take n b)))"

definition print_bar :: "nat \<Rightarrow> string" where
  "print_bar n = replicate n (CHR ''='') @ ''\<newline>''"

section \<open>The dump\<close>

text \<open>The table a pointer field of the network databases points to.\<close>

definition deref_arp :: "core_state \<Rightarrow> core_tbl option \<Rightarrow> auto_res_arp_entry tblptr res" where
  "deref_arp c p =
     (case p of None \<Rightarrow> Inl NullDeref
      | Some t \<Rightarrow> (case t of Arp_Tbl \<Rightarrow> Inr (ar_arp_tbl c) | _ \<Rightarrow> Inl BadCast))"

definition deref_ndp :: "core_state \<Rightarrow> core_tbl option \<Rightarrow> auto_res_ndp_entry tblptr res" where
  "deref_ndp c p =
     (case p of None \<Rightarrow> Inl NullDeref
      | Some t \<Rightarrow> (case t of Arp_Tbl \<Rightarrow> Inl BadCast
                   | Ndp_Tem_Tbl \<Rightarrow> Inr (ar_ndp_tem_tbl c) | Ndp_Tgt_Tbl \<Rightarrow> Inr (ar_ndp_tgt_tbl c)))"

definition vlan_columns :: "'ip auto_res_entry \<Rightarrow> string" where
  "vlan_columns e = fmt_d (if is_vlan e then 1 else 0) @ tab @ fmt_d (uint (vid e)) @ ''\<newline>''"

definition arp_line :: "nat \<Rightarrow> auto_res_arp_entry \<Rightarrow> string" where
  "arp_line index e =
     fmt_d (int index) @ tab @ fmt_x (unat (ip_address e)) @ tab @ fmt_pM (mac e) @ tab @ vlan_columns e"

definition arp_title :: string where
  "arp_title =
     print_bar 57 @
          ''Index'' @ tab @ ''IPv4'' @ tab @ tab @ ''MAC'' @ tab @ tab @ ''isvlan'' @ tab @ tab @ ''vlanID\<newline>'' @
          print_bar 57"

definition dump_arp :: "core_state \<Rightarrow> string res" where
  "dump_arp c =
     rbind (rmap (\<lambda>index.
        rbind (deref_arp c (auto_res_table (ar_arp_db c))) (\<lambda>t.
        rbind (tbl_get t index) (\<lambda>e. Inr (arp_line index e)))) [0..<arp_table_size (ar_arp_db c)]) (\<lambda>ls.
     Inr (arp_title @ concat ls @
          ''arp_conflict_detection = '' @ fmt_d (enable_conflict_detection (ar_arp_db c)) @ ''\<newline>''))"

definition ndp_line :: "nat \<Rightarrow> auto_res_ndp_entry \<Rightarrow> string" where
  "ndp_line index e =
     (let (a, b, c, d) = ip_address e in
      fmt_d (int index) @ tab @ fmt_x (unat a) @ '':'' @ fmt_x (unat b) @ '':'' @ fmt_x (unat c) @ '':'' @
      fmt_x (unat d) @ tab @ fmt_pM (mac e) @ tab @ vlan_columns e)"

definition ndp_title :: string where
  "ndp_title =
     print_bar 57 @
          ''Index'' @ tab @ ''IPv6'' @ tab @ tab @ ''MAC'' @ tab @ tab @ ''isvlan'' @ tab @ tab @ ''vlanID\<newline>'' @
          print_bar 57"

definition dump_ndp :: "core_state \<Rightarrow> string res" where
  "dump_ndp c =
     rbind (rmap (\<lambda>index.
        rbind (deref_ndp c (auto_res_table_assigned (ar_nd_db c))) (\<lambda>t.
        rbind (tbl_get t index) (\<lambda>e. Inr (ndp_line index e)))) [0..<table_size_assigned (ar_nd_db c)]) (\<lambda>ls.
     Inr (ndp_title @ concat ls))"

text \<open>The loop over the bytes of a block, \<open>n\<close> of them whatever the size of the block.\<close>

definition print_bytes :: "kheap \<Rightarrow> addr \<Rightarrow> nat \<Rightarrow> string res" where
  "print_bytes h p n =
     rbind (rmap (\<lambda>j. rbind (kread p h) (\<lambda>b. rbind (buf_get b j) (\<lambda>x. Inr (fmt_x (unat x))))) [0..<n])
       (\<lambda>xs. Inr (concat xs))"

definition snmp_row :: "kheap \<Rightarrow> nat \<Rightarrow> auto_res_snmp_e \<Rightarrow> string res" where
  "snmp_row h index e =
     rbind (print_bytes h (oidVal e) (unat (oidSize e))) (\<lambda>oid.
     rbind (print_bytes h (resVal e) (unat (resSize e))) (\<lambda>val.
     Inr (fmt_d (int index) @ tab @ fmt_d (uint (oidSize e)) @ tab @ oid @
          tab @ fmt_d (uint (resSize e)) @ tab @ val @ ''\<newline>'')))"

definition oid_title :: string where
  "oid_title =
     print_bar 57 @
          ''index'' @ tab @ ''oidSize'' @ tab @ tab @ ''oidVal'' @ tab @ tab @ ''resSize'' @ tab @ tab @ ''resVal\<newline>'' @
          print_bar 57"

definition dump_oids :: "snmp_state \<Rightarrow> string res" where
  "dump_oids s =
     rbind (rmap (\<lambda>index.
        if oid_table (ar_snmp_db s) = None then Inl NullDeref
        else rbind (tbl_get (ar_snmp_entity s) index) (snmp_row (kmem s) index))
       [0..<oid_table_size (ar_snmp_db s)]) (\<lambda>ls.
     Inr (oid_title @ concat ls))"

text \<open>The strings are printed from their third byte; the first two are type and length.\<close>

definition community_line :: "int \<Rightarrow> string \<Rightarrow> string \<Rightarrow> u8 \<times> u8 \<Rightarrow> u8 \<times> u8 \<Rightarrow> string" where
  "community_line flag ro_text rw_text rw ro =
     ''getall_flag = '' @ fmt_d flag @ tab @
     ''comunity_public_string = '' @ ro_text @ concat (replicate 5 tab) @
     ''comunity_privat_string = '' @ rw_text @ ''\<newline>'' @
     ''Private type = '' @ fmt_x (unat (fst rw)) @ tab @ '' Private Length = '' @ fmt_x (unat (snd rw)) @ '' '' @
     tab @ tab @ ''Public type = '' @ fmt_x (unat (fst ro)) @ tab @ '' Public Length = '' @ fmt_x (unat (snd ro)) @
     ''\<newline>''"

definition dump_community :: "snmp_state \<Rightarrow> string res" where
  "dump_community s =
     rbind (kread (community_read_only_string (ar_snmp_db s)) (kmem s)) (\<lambda>ro.
     rbind (kread (community_read_write_string (ar_snmp_db s)) (kmem s)) (\<lambda>rw.
     rbind (fmt_s (drop 2 ro)) (\<lambda>ro_text. rbind (fmt_s (drop 2 rw)) (\<lambda>rw_text.
     rbind (buf_get rw 0) (\<lambda>rw0. rbind (buf_get rw 1) (\<lambda>rw1.
     rbind (buf_get ro 0) (\<lambda>ro0. rbind (buf_get ro 1) (\<lambda>ro1.
     Inr (community_line (control (ar_snmp_db s)) ro_text rw_text (rw0, rw1) (ro0, ro1))))))))))"

definition prot_title :: string where
  "prot_title =
     print_bar 59 @ ''IP Protocols\<newline>'' @ ''index'' @ tab @ ''Protocol\<newline>'' @ print_bar 59"

definition prot_line :: "nat \<Rightarrow> u8 \<Rightarrow> string" where
  "prot_line index b = fmt_d (int index) @ tab @ fmt_x (unat b) @ ''\<newline>''"

definition dump_protocols :: "wakeup_state \<Rightarrow> string res" where
  "dump_protocols s =
     rbind (rmap (\<lambda>index.
        if ip_prot_table_ptr (ar_wakeup_db s) = None then Inl NullDeref
        else rbind (tbl_get (ar_wakeup_ip_prot_tbl s) index) (\<lambda>b.
             Inr (prot_line index b)))
       [0..<ip_prot_table_size (ar_wakeup_db s)]) (\<lambda>ls.
     Inr (prot_title @ concat ls))"

definition rule_columns :: "nat \<Rightarrow> auto_res_port_filtering_e \<Rightarrow> string" where
  "rule_columns index r =
     fmt_d (int index) @ tab @ fmt_hd (src_port r) @ tab @ tab @ fmt_hd (dst_port r) @ tab @ tab @
     fmt_x (unat (src_port_mask r)) @ tab @ tab @ fmt_x (unat (dst_port_mask r))"

definition tcp_title :: string where
  "tcp_title =
     print_bar 59 @ ''TCP Rules\<newline>'' @
          ''index'' @ tab @ ''srcport'' @ tab @ tab @ ''dstport'' @ tab @ tab @ ''srcportmask'' @ tab @ tab @
          ''dstportmask'' @ tab @ tab @ ''tcpflagmask\<newline>'' @ print_bar 59"

definition dump_tcp :: "wakeup_state \<Rightarrow> string res" where
  "dump_tcp s =
     rbind (rmap (\<lambda>index.
        if tcp_ports_table_ptr (ar_wakeup_db s) = None then Inl NullDeref
        else rbind (tbl_get (ar_wakeup_tcp_entity s) index) (\<lambda>r.
             Inr (rule_columns index r @ tab @ fmt_x (unat (tcp_flags_mask (ar_wakeup_db s))) @ ''\<newline>'')))
       [0..<tcp_ports_table_size (ar_wakeup_db s)]) (\<lambda>ls.
     Inr (tcp_title @ concat ls))"

definition udp_title :: string where
  "udp_title =
     print_bar 59 @ ''UDP Rules\<newline>'' @
          ''index'' @ tab @ ''srcport'' @ tab @ tab @ ''dstport'' @ tab @ tab @ ''srcportmask'' @ tab @ tab @
          ''dstportmask\<newline>'' @ print_bar 59"

definition dump_udp :: "wakeup_state \<Rightarrow> string res" where
  "dump_udp s =
     rbind (rmap (\<lambda>index.
        if udp_ports_table_ptr (ar_wakeup_db s) = None then Inl NullDeref
        else rbind (tbl_get (ar_wakeup_udp_entity s) index) (\<lambda>r. Inr (rule_columns index r @ ''\<newline>'')))
       [0..<udp_ports_table_size (ar_wakeup_db s)]) (\<lambda>ls.
     Inr (udp_title @ concat ls))"

definition dump_pass_flags :: "wakeup_state \<Rightarrow> string" where
  "dump_pass_flags s =
     ''ip_prot_pass_on_hit = '' @ fmt_d (ip_prot_pass_on_hit (ar_wakeup_db s)) @ tab @
     ''udp_port_pass_on_hit = '' @ fmt_d (udp_port_pass_on_hit (ar_wakeup_db s)) @ concat (replicate 5 tab) @
     ''tcp_port_pass_on_hit = '' @ fmt_d (tcp_port_pass_on_hit (ar_wakeup_db s)) @ ''\<newline>''"

definition ar_interface_info_dump :: "ar_module \<Rightarrow> string res" where
  "ar_interface_info_dump m =
     rbind (dump_arp (core m)) (\<lambda>arp.
     rbind (dump_ndp (core m)) (\<lambda>ndp.
     rbind (dump_oids (snmp m)) (\<lambda>oids.
     rbind (dump_community (snmp m)) (\<lambda>comm.
     rbind (dump_protocols (wakeup m)) (\<lambda>prots.
     rbind (dump_tcp (wakeup m)) (\<lambda>tcp.
     rbind (dump_udp (wakeup m)) (\<lambda>udp.
     Inr (arp @ ndp @ oids @ comm @ prots @ tcp @ udp @ dump_pass_flags (wakeup m)))))))))"

section \<open>What the dump prints\<close>

text \<open>
  A state whose dump reads live memory: live tables and pointers to them, and a NUL in the part
  of each community block that is printed.  The loops then stay inside the tables if the counts
  of the network tables and the sizes of the SNMP entries do.
\<close>

definition core_dumpable :: "core_state \<Rightarrow> bool" where
  "core_dumpable c \<longleftrightarrow> core_ready c \<and>
     auto_res_table (ar_arp_db c) = Some Arp_Tbl \<and> auto_res_table_assigned (ar_nd_db c) = Some Ndp_Tgt_Tbl"

definition counts_fit :: "core_state \<Rightarrow> bool" where
  "counts_fit c \<longleftrightarrow> arp_table_size (ar_arp_db c) \<le> unat (ar_arptblsize c) \<and>
     table_size_assigned (ar_nd_db c) \<le> unat (ar_ndptblsize c)"

definition comm_printable :: "u8 list \<Rightarrow> bool" where
  "comm_printable b \<longleftrightarrow> 2 \<le> length b \<and> has_nul (drop 2 b)"

definition snmp_dumpable :: "snmp_state \<Rightarrow> bool" where
  "snmp_dumpable s \<longleftrightarrow> snmp_wf s \<and> oid_table (ar_snmp_db s) \<noteq> None \<and>
     comm_printable (block (kmem s) (community_read_only_string (ar_snmp_db s))) \<and>
     comm_printable (block (kmem s) (community_read_write_string (ar_snmp_db s)))"

definition wakeup_dumpable :: "wakeup_state \<Rightarrow> bool" where
  "wakeup_dumpable s \<longleftrightarrow> wakeup_wf s \<and> ip_prot_table_ptr (ar_wakeup_db s) \<noteq> None \<and>
     tcp_ports_table_ptr (ar_wakeup_db s) \<noteq> None \<and> udp_ports_table_ptr (ar_wakeup_db s) \<noteq> None"

text \<open>The sizes of an entry do not exceed its blocks.\<close>

definition sizes_fit :: "kheap \<Rightarrow> auto_res_snmp_e \<Rightarrow> bool" where
  "sizes_fit h e \<longleftrightarrow>
     unat (oidSize e) \<le> length (block h (oidVal e)) \<and> unat (resSize e) \<le> length (block h (resVal e))"

definition numbered :: "(nat \<Rightarrow> 'a \<Rightarrow> string) \<Rightarrow> 'a list \<Rightarrow> string" where
  "numbered line xs = concat (map (\<lambda>(i, x). line i x) (List.enumerate 0 xs))"

definition hex_bytes :: "u8 list \<Rightarrow> string" where
  "hex_bytes bs = concat (map (\<lambda>b. fmt_x (unat b)) bs)"

definition oid_line :: "kheap \<Rightarrow> nat \<Rightarrow> auto_res_snmp_e \<Rightarrow> string" where
  "oid_line h index e =
     fmt_d (int index) @ tab @ fmt_d (uint (oidSize e)) @ tab @
     hex_bytes (take (unat (oidSize e)) (block h (oidVal e))) @ tab @ fmt_d (uint (resSize e)) @ tab @
     hex_bytes (take (unat (resSize e)) (block h (resVal e))) @ ''\<newline>''"

lemma list_all_enumerate [simp]: "list_all (\<lambda>(i, x). P x) (List.enumerate n xs) = list_all P xs"
  by (induction xs arbitrary: n) auto

lemma rows_numbered:
  assumes "n \<le> length xs"
  shows "rmap (\<lambda>i. rbind (buf_get xs i) (\<lambda>x. Inr (line i x))) [0..<n] =
    Inr (map (\<lambda>(i, x). line i x) (List.enumerate 0 (take n xs)))"
  using rmap_Inr [of "\<lambda>(i, x). line i x"] unfolding rmap_table [OF assms]
  by (simp add: case_prod_beta')

lemma rows_beyond:
  assumes "length xs < n"
  shows "rmap (\<lambda>i. rbind (buf_get xs i) (\<lambda>x. Inr (line i x))) [0..<n] = Inl OutOfBounds"
proof -
  have "rmap (\<lambda>i. rbind (buf_get xs i) (\<lambda>x. Inr (line i x))) [0..<n] =
      rmap (\<lambda>i. if i < length xs then Inr (line i (xs ! i)) else Inl OutOfBounds) [0..<n]"
    by (intro rmap_cong) (auto simp: buf_get_def)
  moreover have "\<not> list_all (\<lambda>i. i < length xs) [0..<n]" using assms by (auto simp: list_all_iff)
  ultimately show ?thesis by (simp add: rmap_if)
qed

lemma print_bytes_live:
  assumes "live h p"
  shows "print_bytes h p n = (if n \<le> length (block h p) then Inr (hex_bytes (take n (block h p))) else Inl OutOfBounds)"
  using assms by (simp add: print_bytes_def kread_live rmap_buf hex_bytes_def)

lemma snmp_row_live:
  assumes "entry_live h e"
  shows "snmp_row h i e = (if sizes_fit h e then Inr (oid_line h i e) else Inl OutOfBounds)"
  using assms
  by (simp add: snmp_row_def entry_live_def str_live_def print_bytes_live sizes_fit_def oid_line_def)

lemma fmt_s_eq: "has_nul b \<Longrightarrow> fmt_s b = Inr (map (\<lambda>x. char_of (unat x)) (cstr_val b))"
  by (simp add: fmt_s_def c_strlen_eq) (simp add: cstr_val_def takeWhile_eq_take [symmetric])

text \<open>The text of a dump: every table's rows, numbered from 0.\<close>

definition comm_string :: "u8 list \<Rightarrow> string" where
  "comm_string b = map (\<lambda>x. char_of (unat x)) (cstr_val (drop 2 b))"

definition dump_text :: "ar_module \<Rightarrow> string" where
  "dump_text m =
     (let c = core m; s = snmp m; w = wakeup m; db = ar_snmp_db s;
          ro = block (kmem s) (community_read_only_string db); rw = block (kmem s) (community_read_write_string db) in
      arp_title @ numbered arp_line (arp_rows c) @
      ''arp_conflict_detection = '' @ fmt_d (enable_conflict_detection (ar_arp_db c)) @ ''\<newline>'' @
      ndp_title @ numbered ndp_line (tgt_rows c) @
      oid_title @ numbered (oid_line (kmem s)) (entries s) @
      community_line (control db) (comm_string ro) (comm_string rw) (rw ! 0, rw ! 1) (ro ! 0, ro ! 1) @
      prot_title @ numbered prot_line (ip_protos w) @
      tcp_title @ numbered (\<lambda>i r. rule_columns i r @ tab @ fmt_x (unat (tcp_flags_mask (ar_wakeup_db w))) @ ''\<newline>'') (tcp_rules w) @
      udp_title @ numbered (\<lambda>i r. rule_columns i r @ ''\<newline>'') (udp_rules w) @
      dump_pass_flags w)"

lemma dump_arp_text:
  assumes "core_dumpable c"
  shows "dump_arp c = (if arp_table_size (ar_arp_db c) \<le> unat (ar_arptblsize c)
    then Inr (arp_title @ numbered arp_line (arp_rows c) @
      ''arp_conflict_detection = '' @ fmt_d (enable_conflict_detection (ar_arp_db c)) @ ''\<newline>'')
    else Inl OutOfBounds)"
proof -
  obtain xs where "ar_arp_tbl c = TArr xs" "length xs = unat (ar_arptblsize c)"
    using assms core_readyE [of c] by (metis core_dumpable_def)
  with assms show ?thesis
    by (simp add: core_dumpable_def dump_arp_def deref_arp_def rows_numbered arp_rows_def numbered_def
        rows_beyond not_le)
qed

lemma dump_ndp_text:
  assumes "core_dumpable c"
  shows "dump_ndp c = (if table_size_assigned (ar_nd_db c) \<le> unat (ar_ndptblsize c)
    then Inr (ndp_title @ numbered ndp_line (tgt_rows c)) else Inl OutOfBounds)"
proof -
  obtain ys where "ar_ndp_tgt_tbl c = TArr ys" "length ys = unat (ar_ndptblsize c)"
    using assms core_readyE [of c] by (metis core_dumpable_def)
  with assms show ?thesis
    by (simp add: core_dumpable_def dump_ndp_def deref_ndp_def rows_numbered tgt_rows_def numbered_def
        rows_beyond not_le)
qed

lemma dump_oids_text:
  assumes "snmp_dumpable s"
  shows "dump_oids s =
    (if list_all (sizes_fit (kmem s)) (entries s) then Inr (oid_title @ numbered (oid_line (kmem s)) (entries s))
     else Inl OutOfBounds)"
proof -
  have wf: "snmp_wf s" and ptr: "oid_table (ar_snmp_db s) \<noteq> None" using assms by (simp_all add: snmp_dumpable_def)
  let ?h = "kmem s" and ?n = "oid_table_size (ar_snmp_db s)"
  obtain es where es: "ar_snmp_entity s = TArr es" "?n \<le> length es" "entries s = take ?n es"
    using snmp_wfE [OF wf] by metis
  have "rmap (\<lambda>(i, e). snmp_row ?h i e) (List.enumerate 0 (entries s)) =
      rmap (\<lambda>x. if (\<lambda>(i, e). sizes_fit ?h e) x then Inr ((\<lambda>(i, e). oid_line ?h i e) x) else Inl OutOfBounds)
        (List.enumerate 0 (entries s))"
    using snmp_wfD(1) [OF wf] snmp_row_live
    by (intro rmap_cong) (auto simp: list_all_iff in_set_enumerate_eq split: prod.split)
  moreover obtain t where "oid_table (ar_snmp_db s) = Some t" using ptr by auto
  ultimately show ?thesis
    using es by (simp add: dump_oids_def rmap_table rmap_if numbered_def)
qed

lemma dump_community_text:
  assumes "snmp_dumpable s"
  shows "dump_community s =
    (let ro = block (kmem s) (community_read_only_string (ar_snmp_db s));
         rw = block (kmem s) (community_read_write_string (ar_snmp_db s)) in
     Inr (community_line (control (ar_snmp_db s)) (comm_string ro) (comm_string rw) (rw ! 0, rw ! 1) (ro ! 0, ro ! 1)))"
proof -
  have get: "buf_get b 0 = Inr (b ! 0)" "buf_get b 1 = Inr (b ! 1)" if "comm_printable b" for b
    using that unfolding comm_printable_def by (intro buf_get_in; linarith)+
  show ?thesis
    using assms snmp_wfD(3,4) [of s]
    by (simp add: snmp_dumpable_def dump_community_def kread_live fmt_s_eq comm_string_def get Let_def)
      (simp add: comm_printable_def fmt_s_eq)
qed

lemma dump_wakeup_text:
  assumes "wakeup_dumpable s"
  shows "dump_protocols s = Inr (prot_title @ numbered prot_line (ip_protos s))"
    and "dump_tcp s = Inr (tcp_title @
      numbered (\<lambda>i r. rule_columns i r @ tab @ fmt_x (unat (tcp_flags_mask (ar_wakeup_db s))) @ ''\<newline>'') (tcp_rules s))"
    and "dump_udp s = Inr (udp_title @ numbered (\<lambda>i r. rule_columns i r @ ''\<newline>'') (udp_rules s))"
proof -
  have "ip_wf s" "tcp_wf s" "udp_wf s" using assms by (simp_all add: wakeup_dumpable_def wakeup_wf_def)
  then obtain ps ts us where "ar_wakeup_ip_prot_tbl s = TArr ps" "ip_prot_table_size (ar_wakeup_db s) \<le> length ps"
    "ar_wakeup_tcp_entity s = TArr ts" "tcp_ports_table_size (ar_wakeup_db s) \<le> length ts"
    "ar_wakeup_udp_entity s = TArr us" "udp_ports_table_size (ar_wakeup_db s) \<le> length us"
    unfolding ip_wf_def tcp_wf_def udp_wf_def by (elim table_wfE) (auto dest: slots_le)
  moreover obtain p q r where "ip_prot_table_ptr (ar_wakeup_db s) = Some p"
    "tcp_ports_table_ptr (ar_wakeup_db s) = Some q" "udp_ports_table_ptr (ar_wakeup_db s) = Some r"
    using assms by (auto simp: wakeup_dumpable_def)
  ultimately show "dump_protocols s = Inr (prot_title @ numbered prot_line (ip_protos s))"
    and "dump_tcp s = Inr (tcp_title @
      numbered (\<lambda>i r. rule_columns i r @ tab @ fmt_x (unat (tcp_flags_mask (ar_wakeup_db s))) @ ''\<newline>'') (tcp_rules s))"
    and "dump_udp s = Inr (udp_title @ numbered (\<lambda>i r. rule_columns i r @ ''\<newline>'') (udp_rules s))"
    by (simp_all add: dump_protocols_def dump_tcp_def dump_udp_def rows_numbered
        ip_protos_def tcp_rules_def udp_rules_def numbered_def)
qed

lemma dump_eq:
  assumes "core_dumpable (core m)" and "snmp_dumpable (snmp m)" and "wakeup_dumpable (wakeup m)"
  shows "ar_interface_info_dump m =
    (if counts_fit (core m) \<and> list_all (sizes_fit (kmem (snmp m))) (entries (snmp m)) then Inr (dump_text m)
     else Inl OutOfBounds)"
  by (simp add: ar_interface_info_dump_def dump_text_def Let_def counts_fit_def dump_arp_text [OF assms(1)]
      dump_ndp_text [OF assms(1)] dump_oids_text [OF assms(2)] dump_community_text [OF assms(2)]
      dump_wakeup_text [OF assms(3)])

section \<open>Properties\<close>

text \<open>
  Claim C13.  The dump of a module whose tables and blocks are live prints, for every table, the
  rows of its contents, numbered from 0, with the settings, exactly when the counts of the
  network tables do not exceed their sizes and no entry's sizes exceed its blocks; otherwise it
  reads beyond a table or a block.
\<close>

theorem dump_prints_contents:
  assumes "core_dumpable (core m)" and "snmp_dumpable (snmp m)" and "wakeup_dumpable (wakeup m)"
  shows "ar_interface_info_dump m =
    (if counts_fit (core m) \<and> list_all (sizes_fit (kmem (snmp m))) (entries (snmp m)) then Inr (dump_text m)
     else Inl OutOfBounds)"
  using assms by (rule dump_eq)

text \<open>A module with one address, two objects and two rules, its pointers set as loading sets them.\<close>

definition demo_dump :: ar_module where
  "demo_dump = \<lparr>core = (demo_core 4)\<lparr>ar_arp_tbl := TArr (dev_entry demo_port True 0x0a0000ff # replicate 3 zero_arp),
       ar_arp_db := zero_arp_db\<lparr>auto_res_table := Some Arp_Tbl, arp_table_size := 1\<rparr>,
       ar_nd_db := zero_nd_db\<lparr>auto_res_table_assigned := Some Ndp_Tgt_Tbl\<rparr>\<rparr>,
     snmp = demo_snmp,
     wakeup = demo_full\<lparr>ar_wakeup_db := (ar_wakeup_db demo_full)\<lparr>ip_prot_table_ptr := Some Ip_Prot_Tbl,
       udp_ports_table_ptr := Some Udp_Entity, tcp_ports_table_ptr := Some Tcp_Entity\<rparr>\<rparr>\<rparr>"

lemma demo_dump_sel: "core_dumpable (core demo_dump)" "snmp_dumpable (snmp demo_dump)"
    "wakeup_dumpable (wakeup demo_dump)" "counts_fit (core demo_dump)"
    "list_all (sizes_fit (kmem (snmp demo_dump))) (entries (snmp demo_dump))"
proof -
  show "core_dumpable (core demo_dump)" "counts_fit (core demo_dump)"
    by (simp_all add: demo_dump_def core_dumpable_def core_ready_def demo_core_def counts_fit_def zero_arp_db_def zero_nd_db_def)
  show "snmp_dumpable (snmp demo_dump)"
    using demo_snmp_wf
    by (simp add: demo_dump_def snmp_dumpable_def comm_printable_def)
      (simp add: demo_snmp_def demo_heap_def block_def cstr_def bytes_of_def)
  show "wakeup_dumpable (wakeup demo_dump)"
    by (simp add: demo_dump_def wakeup_dumpable_def demo_full_def demo_simps)
  show "list_all (sizes_fit (kmem (snmp demo_dump))) (entries (snmp demo_dump))"
    by (simp add: demo_dump_def sizes_fit_def demo_snmp_simps)
qed

theorem dump_prints_contents_witness:
  "\<exists>a b c. ar_interface_info_dump demo_dump =
     Inr (a @ ''0'' @ tab @ ''a0000ff'' @ tab @ ''02:02:02:02:02:01'' @ tab @ ''1'' @ tab @ ''0\<newline>'' @
       b @ ''0'' @ tab @ ''3'' @ tab @ ''136'' @ tab @ ''3'' @ tab @ ''21a\<newline>'' @ c)"
proof -
  have arp: "arp_rows (core demo_dump) = [dev_entry demo_port True 0x0a0000ff]"
    by (simp add: demo_dump_def arp_rows_def)
  have oids: "entries (snmp demo_dump) = [demo_oid 3 4, demo_oid 5 6]"
    by (simp add: demo_dump_def demo_snmp_simps)
  have five: "replicate 5 (2 :: u8) = [2, 2, 2, 2, 2]" by code_simp
  have a: "arp_line 0 (dev_entry demo_port True 0x0a0000ff) =
      ''0'' @ tab @ ''a0000ff'' @ tab @ ''02:02:02:02:02:01'' @ tab @ ''1'' @ tab @ ''0\<newline>''"
    by (simp add: arp_line_def vlan_columns_def dev_entry_def demo_port_def demo_netdev_def ar_get_vlanid_def
        fmt_x_def fmt_d_def num_string.simps low_digit_def five)
  have o: "oid_line (kmem (snmp demo_dump)) 0 (demo_oid 3 4) =
      ''0'' @ tab @ ''3'' @ tab @ ''136'' @ tab @ ''3'' @ tab @ ''21a\<newline>''"
    by (simp add: oid_line_def hex_bytes_def demo_dump_def demo_snmp_simps fmt_x_def fmt_d_def num_string.simps low_digit_def)
  let ?b = "''arp_conflict_detection = '' @ fmt_d (enable_conflict_detection (ar_arp_db (core demo_dump))) @ ''\<newline>'' @
      ndp_title @ numbered ndp_line (tgt_rows (core demo_dump)) @ oid_title"
  have "\<exists>c. dump_text demo_dump = arp_title @ numbered arp_line (arp_rows (core demo_dump)) @ ?b @
      numbered (oid_line (kmem (snmp demo_dump))) (entries (snmp demo_dump)) @ c"
    unfolding dump_text_def Let_def append_assoc by blast
  then obtain c where c: "dump_text demo_dump = arp_title @ arp_line 0 (dev_entry demo_port True 0x0a0000ff) @ ?b @
      oid_line (kmem (snmp demo_dump)) 0 (demo_oid 3 4) @ c"
    unfolding arp oids by (auto simp: numbered_def)
  then show ?thesis
    unfolding dump_prints_contents [OF demo_dump_sel(1-3)] a o
    using demo_dump_sel(4,5) by (intro exI [of _ arp_title] exI [of _ ?b] exI [of _ c]) (simp only: if_True simp_thms append_assoc)
qed

text \<open>The allocator serves both blocks of a request.\<close>

definition request_memory :: "allocator \<Rightarrow> 'z user_mem_scheme \<Rightarrow> auto_res_snmp_e \<Rightarrow> kheap \<Rightarrow> bool" where
  "request_memory pick um u h \<longleftrightarrow>
     (case pick h 128 of None \<Rightarrow> False
      | Some p \<Rightarrow> pick (h(p \<mapsto> take 128 (um_bytes um (oidVal u)))) 132 \<noteq> None)"

lemma request_memoryE:
  assumes "alloc_fresh pick" and "request_memory pick um u h"
  shows "\<exists>p q. kzalloc pick h 128 = (p, h(p \<mapsto> replicate 128 0)) \<and> p \<noteq> 0 \<and> h p = None \<and>
    kzalloc pick (h(p \<mapsto> take 128 (um_bytes um (oidVal u)))) 132 =
      (q, h(p \<mapsto> take 128 (um_bytes um (oidVal u)), q \<mapsto> replicate 132 0)) \<and>
    q \<noteq> 0 \<and> (h(p \<mapsto> take 128 (um_bytes um (oidVal u)))) q = None"
proof -
  let ?b = "take 128 (um_bytes um (oidVal u))"
  obtain p where p: "pick h 128 = Some p" using assms(2) by (auto simp: request_memory_def split: option.splits)
  then obtain q where q: "pick (h(p \<mapsto> ?b)) 132 = Some q" using assms(2) by (auto simp: request_memory_def)
  have "p \<noteq> 0" "h p = None" "q \<noteq> 0" "(h(p \<mapsto> ?b)) q = None"
    using p q assms(1) unfolding alloc_fresh_def by blast+
  with p q show ?thesis by (intro exI [of _ p] exI [of _ q]) (simp add: kzalloc_def)
qed

lemma demo_request_memory: "request_memory demo_pick um u (kmem demo_snmp)"
proof -
  have "demo_pick (kmem demo_snmp) 128 \<noteq> None" using demo_free by (rule demo_pick_some)
  then obtain p where p: "demo_pick (kmem demo_snmp) 128 = Some p" by blast
  let ?h = "(kmem demo_snmp)(p \<mapsto> take 128 (um_bytes um (oidVal u)))"
  have "?h 10 = None \<or> ?h 11 = None" by (simp add: demo_snmp_def demo_heap_def)
  then have "demo_pick ?h 132 \<noteq> None"
  proof
    assume "?h 10 = None"
    then show ?thesis by (rule demo_pick_some) simp
  next
    assume "?h 11 = None"
    then show ?thesis by (rule demo_pick_some) simp
  qed
  then show ?thesis by (simp add: request_memory_def p)
qed

lemma put_stored: "fst kv \<in> fst ` set m \<or> length m < room \<Longrightarrow> kv \<in> set (put room m kv)"
proof -
  assume "fst kv \<in> fst ` set m \<or> length m < room"
  then have "map_of (put room m kv) (fst kv) = Some (snd kv)" by (simp add: map_of_put)
  from map_of_SomeD [OF this] show ?thesis by simp
qed

text \<open>
  Claim C32.  The sizes a process gives with an entry are stored as they are and never compared
  with the blocks of 128 and 132 bytes: a request whose response size is above 132 succeeds and
  leaves a well-formed database, and the next dump reads beyond the response's block.
\<close>

theorem oversized_entry_dump:
  assumes core: "core_dumpable (core m)" and snmp: "snmp_dumpable (snmp m)" and wakeup: "wakeup_dumpable (wakeup m)"
    and pick: "alloc_fresh pick" and memory: "request_memory pick um u (kmem (snmp m))"
    and u: "copy_entry um arg = Some u" and ends: "oid_ends um arg"
    and read: "readable um (oidVal u) 128" "readable um (resVal u) 132"
    and room: "length (oid_view (snmp m)) < unat (ar_snmp_tblsize (snmp m))"
    and size: "132 < unat (resSize u)"
  shows "\<exists>s'. ar_interface_ioctl um pick (snmp_cmd CREATE_SNMP_ENTRY) arg (snmp m) = Inr (0, s') \<and> snmp_wf s' \<and>
    ar_interface_info_dump (m\<lparr>snmp := s'\<rparr>) = Inl OutOfBounds"
proof -
  have wf: "snmp_wf (snmp m)" using snmp by (simp add: snmp_dumpable_def)
  from request_memoryE [OF pick memory] obtain p q where
    p: "kzalloc pick (kmem (snmp m)) 128 = (p, (kmem (snmp m))(p \<mapsto> replicate 128 0))" "p \<noteq> 0" "kmem (snmp m) p = None"
    and q: "kzalloc pick ((kmem (snmp m))(p \<mapsto> take 128 (um_bytes um (oidVal u)))) 132 =
        (q, (kmem (snmp m))(p \<mapsto> take 128 (um_bytes um (oidVal u)), q \<mapsto> replicate 132 0))" "q \<noteq> 0"
      "((kmem (snmp m))(p \<mapsto> take 128 (um_bytes um (oidVal u)))) q = None" by metis
  obtain s' where s': "ioctl_create um pick (snmp_cmd CREATE_SNMP_ENTRY) arg (snmp m) = Inr (0, s')" "snmp_wf s'"
    "oid_view s' = put (unat (ar_snmp_tblsize (snmp m))) (oid_view (snmp m)) (user_item um arg)"
    using ioctl_create_done [OF wf ends u p read(1) q read(2)] by blast
  have "user_item um arg \<in> set (oid_view s')"
    unfolding s'(3) by (rule put_stored) (simp add: room)
  moreover have "user_item um arg = (cstr_val (take 128 (um_bytes um (oidVal u))), oidSize u, resSize u,
      take 132 (um_bytes um (resVal u)))"
    using u by (simp add: user_item_def copy_entry_def split: if_splits)
  ultimately obtain e where e: "e \<in> set (entries s')" "resSize e = resSize u"
    "block (kmem s') (resVal e) = take 132 (um_bytes um (resVal u))"
    by (auto simp: oid_view_def entry_item_def)
  then have "\<not> sizes_fit (kmem s') e" using size by (simp add: sizes_fit_def)
  with e(1) have big: "\<not> list_all (sizes_fit (kmem s')) (entries s')" by (auto simp: list_all_iff)
  have same: "snmp_settings s' = snmp_settings (snmp m)"
    by (rule ioctl_create_settings [OF wf pick s'(1)])
  have "snmp_dumpable s'" using snmp s'(2) same by (simp add: snmp_dumpable_def snmp_settings_def Let_def)
  from dump_eq [of "m\<lparr>snmp := s'\<rparr>"] this core wakeup big
  have "ar_interface_info_dump (m\<lparr>snmp := s'\<rparr>) = Inl OutOfBounds" by simp
  with s'(1,2) show ?thesis by (auto simp: ar_interface_ioctl_def)
qed

definition demo_big_um :: snmp_user_mem where
  "demo_big_um = demo_snmp_um\<lparr>um_entry :=
     (\<lambda>p. if p = 50 then Some \<lparr>oidSize = 3, oidVal = 100, resSize = 200, resVal = 200\<rparr> else None)\<rparr>"

theorem oversized_entry_dump_witness:
  "\<exists>s'. ar_interface_ioctl demo_big_um demo_pick 4 50 (snmp demo_dump) = Inr (0, s') \<and>
     ar_interface_info_dump (demo_dump\<lparr>snmp := s'\<rparr>) = Inl OutOfBounds"
proof -
  let ?u = "\<lparr>oidSize = 3, oidVal = 100, resSize = 200, resVal = 200\<rparr> :: auto_res_snmp_e"
  have sn: "snmp demo_dump = demo_snmp" by (simp add: demo_dump_def)
  have u: "copy_entry demo_big_um 50 = Some ?u"
    and rd: "readable demo_big_um (oidVal ?u) 128" "readable demo_big_um (resVal ?u) 132"
    by (simp_all add: copy_entry_def demo_big_um_def demo_snmp_um_def readable_def)
  have ends: "oid_ends demo_big_um 50"
    unfolding oid_ends_def u by (simp add: demo_big_um_def demo_snmp_um_def has_nul_def)
  have mem: "request_memory demo_pick demo_big_um ?u (kmem (snmp demo_dump))"
    unfolding sn by (rule demo_request_memory)
  have "length (oid_view (snmp demo_dump)) < unat (ar_snmp_tblsize (snmp demo_dump))"
    unfolding sn demo_snmp_view by (simp add: demo_snmp_def)
  from oversized_entry_dump [OF demo_dump_sel(1-3) demo_pick_fresh mem u ends rd this] show ?thesis by auto
qed

end
