(* ===== verification/AR_Interleave.thy ===== *)
theory AR_Interleave
  imports AR_Dump
begin

text \<open>
  Storing a rule statement by statement.  The devices are opened once at a time, but their ioctls
  take no lock: while one call is between two statements the system can suspend, and threads that
  share the descriptor can be in the same function.  The steps are those of the UDP case of
  \<open>ar_wakeup_recv_config\<close> in \<open>armodule/source/arctrl_wakeup.c\<close>; a search counts as one step.
\<close>

section \<open>Storing a rule\<close>

text \<open>
  Where a call is: before the search for its rule, after it, after the search for a free slot,
  with some of the four fields of slot \<open>i\<close> assigned (in a new slot or in that of the same rule),
  and returned with its status.
\<close>

datatype rule_pc =
    Calling auto_res_port_filtering_e
  | Searched auto_res_port_filtering_e int
  | Slot_Searched auto_res_port_filtering_e int
  | Writing bool auto_res_port_filtering_e nat nat
  | Returned int

primrec set_field :: "nat \<Rightarrow> auto_res_port_filtering_e \<Rightarrow> auto_res_port_filtering_e \<Rightarrow> auto_res_port_filtering_e" where
  "set_field 0 pInfo e = e\<lparr>src_port := src_port pInfo\<rparr>"
| "set_field (Suc n) pInfo e =
     (if n = 0 then e\<lparr>dst_port := dst_port pInfo\<rparr>
      else if n = 1 then e\<lparr>src_port_mask := src_port_mask pInfo\<rparr>
      else e\<lparr>dst_port_mask := dst_port_mask pInfo\<rparr>)"

definition udp_assign :: "nat \<Rightarrow> auto_res_port_filtering_e \<Rightarrow> nat \<Rightarrow> wakeup_state \<Rightarrow> wakeup_state res" where
  "udp_assign n pInfo i s =
     rbind (tbl_get (ar_wakeup_udp_entity s) i) (\<lambda>e.
     rbind (tbl_set (ar_wakeup_udp_entity s) i (set_field n pInfo e)) (\<lambda>t.
     Inr (s\<lparr>ar_wakeup_udp_entity := t\<rparr>)))"

inductive rule_step :: "wakeup_state \<times> rule_pc \<Rightarrow> wakeup_state \<times> rule_pc \<Rightarrow> bool" where
  search: "ar_wakeup_get_index (ArgPort r) ''UDP'' s = Inr v \<Longrightarrow> rule_step (s, Calling r) (s, Searched r v)"
| known: "v \<noteq> - 1 \<Longrightarrow> rule_step (s, Searched r v) (s, Writing False r (nat v) 0)"
| search_slot: "ar_wakeup_get_free_index ''UDP'' s = Inr f \<Longrightarrow>
     rule_step (s, Searched r (- 1)) (s, Slot_Searched r f)"
| full: "rule_step (s, Slot_Searched r (- 1)) (s, Returned (- 1))"
| slot: "f \<noteq> - 1 \<Longrightarrow> rule_step (s, Slot_Searched r f) (s, Writing True r (nat f) 0)"
| assign: "n < 4 \<Longrightarrow> udp_assign n r i s = Inr s' \<Longrightarrow>
     rule_step (s, Writing new r i n) (s', Writing new r i (Suc n))"
| stored: "rule_step (s, Writing False r i 4) (s, Returned (ar_code AR_SUCCESS))"
| count: "rule_step (s, Writing True r i 4)
     (s\<lparr>ar_wakeup_db := (ar_wakeup_db s)\<lparr>udp_ports_table_size := udp_ports_table_size (ar_wakeup_db s) + 1\<rparr>\<rparr>,
      Returned (ar_code AR_SUCCESS))"

inductive_cases rule_stepE:
  "rule_step (s, Calling r) t" "rule_step (s, Searched r v) t" "rule_step (s, Slot_Searched r f) t"
  "rule_step (s, Writing new r i n) t" "rule_step (s, Returned x) t"

text \<open>Calls that share the database.\<close>

inductive calls_step :: "wakeup_state \<times> (nat \<Rightarrow> rule_pc) \<Rightarrow> wakeup_state \<times> (nat \<Rightarrow> rule_pc) \<Rightarrow> bool" where
  turn: "rule_step (s, pcs i) (s', pc) \<Longrightarrow> calls_step (s, pcs) (s', pcs(i := pc))"

section \<open>Changing a community string\<close>

text \<open>
  The states after each statement of a case of \<open>ar_snmp_config_comm_str\<close>: the old block released,
  the pointer set to NULL, to the new block, and the NUL stored.
\<close>

definition set_comm :: "u32 \<Rightarrow> addr \<Rightarrow> snmp_state \<Rightarrow> snmp_state" where
  "set_comm cmd p s = s\<lparr>ar_snmp_db :=
     (if cmd = snmp_cmd CONFIG_SNMP_PRIV_COMM then (ar_snmp_db s)\<lparr>community_read_write_string := p\<rparr>
      else (ar_snmp_db s)\<lparr>community_read_only_string := p\<rparr>)\<rparr>"

definition comm_statements :: "u32 \<Rightarrow> addr \<Rightarrow> snmp_state \<Rightarrow> snmp_state list res" where
  "comm_statements cmd pConfigStr s =
     (if comm_cmd cmd then
        rbind (if comm_ptr cmd s = 0 then Inr [s]
               else rbind (kfree (comm_ptr cmd s) (kmem s)) (\<lambda>h.
                    Inr [s\<lparr>kmem := h\<rparr>, set_comm cmd 0 (s\<lparr>kmem := h\<rparr>)])) (\<lambda>ss.
        let t = set_comm cmd pConfigStr (last ss) in
        rbind (terminate pConfigStr (kmem t)) (\<lambda>h. Inr (ss @ [t, t\<lparr>kmem := h\<rparr>])))
      else Inr [s])"

section \<open>Lemmas\<close>

text \<open>The slot with the first \<open>n\<close> fields assigned.\<close>

definition partly :: "nat \<Rightarrow> auto_res_port_filtering_e \<Rightarrow> auto_res_port_filtering_e \<Rightarrow> auto_res_port_filtering_e" where
  "partly n r e =
     \<lparr>src_port = src_port (if 0 < n then r else e), dst_port = dst_port (if 1 < n then r else e),
      src_port_mask = src_port_mask (if 2 < n then r else e), dst_port_mask = dst_port_mask (if 3 < n then r else e)\<rparr>"

lemma partly_0 [simp]: "partly 0 r e = e"
  by (simp add: partly_def)

lemma partly_4 [simp]: "partly 4 r e = r"
  by (simp add: partly_def)

lemma partly_same [simp]: "partly n r r = r"
  by (simp add: partly_def)

lemma partly_Suc: "n < 4 \<Longrightarrow> set_field n r (partly n r e) = partly (Suc n) r e"
  by (cases n) (auto simp: partly_def)

lemma udp_entity_same: "ar_wakeup_udp_entity s = t \<Longrightarrow> s\<lparr>ar_wakeup_udp_entity := t\<rparr> = s"
  by auto

lemma udp_assign_eq:
  assumes "ar_wakeup_udp_entity s = TArr xs" and "i < length xs"
  shows "udp_assign n r i s = Inr (s\<lparr>ar_wakeup_udp_entity := TArr (xs[i := set_field n r (xs ! i)])\<rparr>)"
  using assms by (simp add: udp_assign_def)

text \<open>What the searches find in a well-formed table.\<close>

lemma udp_searches:
  assumes "udp_wf s"
  obtains xs where "ar_wakeup_udp_entity s = TArr xs" and "length xs = unat (udptblsize s)"
    and "slots free_port xs (udp_ports_table_size (ar_wakeup_db s))"
    and "udp_rules s = take (length (udp_rules s)) xs"
    and "\<And>r. ar_wakeup_get_index (ArgPort r) ''UDP'' s = Inr (if r \<in> set (udp_rules s)
      then int (first_pos (\<lambda>e. e = r) (udp_rules s)) else - 1)"
    and "ar_wakeup_get_free_index ''UDP'' s = Inr (if length (udp_rules s) < length xs
      then int (length (udp_rules s)) else - 1)"
    and "udp_ports_table_size (ar_wakeup_db s) = length (udp_rules s)"
    and "\<And>r. recv_udp_rule (ArgPort r) s =
      (if r \<in> set (udp_rules s) then Inr (0, s)
       else if length (udp_rules s) < length xs then
         Inr (0, s\<lparr>ar_wakeup_udp_entity := TArr (xs[length (udp_rules s) := r]),
                   ar_wakeup_db := (ar_wakeup_db s)\<lparr>udp_ports_table_size := length (udp_rules s) + 1\<rparr>\<rparr>)
       else Inr (- 1, s))"
proof -
  obtain xs where xs: "ar_wakeup_udp_entity s = TArr xs" "length xs = unat (udptblsize s)"
    and sl: "slots free_port xs (udp_ports_table_size (ar_wakeup_db s))"
    using assms by (auto simp: udp_wf_def elim: table_wfE)
  let ?n = "udp_ports_table_size (ar_wakeup_db s)"
  have rules: "udp_rules s = take ?n xs" and n: "?n = length (udp_rules s)"
    using xs slots_le [OF sl] by (simp_all add: udp_rules_def)
  have "ar_wakeup_get_index (ArgPort r) ''UDP'' s = Inr (if r \<in> set (udp_rules s)
      then int (first_pos (\<lambda>e. e = r) (udp_rules s)) else - 1)" for r
    using scan_used [OF sl, of r] xs unfolding rules by (simp add: ar_wakeup_get_index_def)
  moreover have "ar_wakeup_get_free_index ''UDP'' s = Inr (if length (udp_rules s) < length xs
      then int (length (udp_rules s)) else - 1)"
    using scan_free [OF sl] xs n by (simp add: ar_wakeup_get_free_index_def)
  moreover have "recv_udp_rule (ArgPort r) s =
      (if r \<in> set (udp_rules s) then Inr (0, s)
       else if length (udp_rules s) < length xs then
         Inr (0, s\<lparr>ar_wakeup_udp_entity := TArr (xs[length (udp_rules s) := r]),
                   ar_wakeup_db := (ar_wakeup_db s)\<lparr>udp_ports_table_size := length (udp_rules s) + 1\<rparr>\<rparr>)
       else Inr (- 1, s))" for r
    using udp_store [OF _ refl xs(1), of r] assms unfolding rules [symmetric] by (simp add: udp_wf_def n)
  ultimately show ?thesis using that [OF xs sl _ _ _ n] rules unfolding n by blast
qed

lemma rule_found:
  assumes "udp_rules s = take n xs" and "r \<in> set (udp_rules s)"
  shows "first_pos (\<lambda>e. e = r) (udp_rules s) < length xs"
    and "xs ! first_pos (\<lambda>e. e = r) (udp_rules s) = r"
proof -
  have r: "r \<in> set (take n xs)" using assms by simp
  note f = first_pos_take_update [OF r]
  show lt: "first_pos (\<lambda>e. e = r) (udp_rules s) < length xs" unfolding assms(1) by (rule f(2))
  have "xs[first_pos (\<lambda>y. y = r) (take n xs) := r] ! first_pos (\<lambda>y. y = r) (take n xs) = r"
    using f(2) by simp
  then show "xs ! first_pos (\<lambda>e. e = r) (udp_rules s) = r" unfolding f(1) assms(1) .
qed

text \<open>The four assignments, one after the other.\<close>

lemma assign_run:
  assumes "ar_wakeup_udp_entity s = TArr xs" and "i < length xs"
  shows "rule_step\<^sup>*\<^sup>* (s, Writing new r i 0) (s\<lparr>ar_wakeup_udp_entity := TArr (xs[i := r])\<rparr>, Writing new r i 4)"
proof -
  let ?t = "\<lambda>n. s\<lparr>ar_wakeup_udp_entity := TArr (xs[i := partly n r (xs ! i)])\<rparr>"
  have one: "rule_step (?t n, Writing new r i n) (?t (Suc n), Writing new r i (Suc n))" if "n < 4" for n
  proof (rule rule_step.assign [OF that])
    show "udp_assign n r i (?t n) = Inr (?t (Suc n))"
      using assms(2) partly_Suc [OF that, of r "xs ! i"]
      by (simp add: udp_assign_eq [of "?t n" "xs[i := partly n r (xs ! i)]"])
  qed
  have "rule_step\<^sup>*\<^sup>* (?t 0, Writing new r i 0) (?t n, Writing new r i n)" if "n \<le> 4" for n
    using that
  proof (induction n)
    case (Suc n)
    then show ?case using one [of n] by (auto intro: rtranclp.rtrancl_into_rtrancl)
  qed simp
  from this [of 4] assms(1) show ?thesis by (simp add: udp_entity_same)
qed

text \<open>What is true of a call that runs alone, at each of its statements.\<close>

definition call_inv :: "wakeup_state \<Rightarrow> auto_res_port_filtering_e \<Rightarrow> wakeup_state \<times> rule_pc \<Rightarrow> bool" where
  "call_inv s0 r c = (let n = length (udp_rules s0); known = r \<in> set (udp_rules s0) in
     case snd c of
       Calling r' \<Rightarrow> r' = r \<and> fst c = s0
     | Searched r' v \<Rightarrow> r' = r \<and> fst c = s0 \<and> ar_wakeup_get_index (ArgPort r) ''UDP'' s0 = Inr v
     | Slot_Searched r' f \<Rightarrow> r' = r \<and> fst c = s0 \<and> \<not> known \<and> ar_wakeup_get_free_index ''UDP'' s0 = Inr f
     | Writing new r' i k \<Rightarrow> r' = r \<and> k \<le> 4 \<and>
         (if new then \<not> known \<and> i = n \<and> n < length (arr (ar_wakeup_udp_entity s0)) \<and>
            fst c = s0\<lparr>ar_wakeup_udp_entity := TArr ((arr (ar_wakeup_udp_entity s0))[n :=
              partly k r (arr (ar_wakeup_udp_entity s0) ! n)])\<rparr>
          else known \<and> fst c = s0 \<and> i < length (arr (ar_wakeup_udp_entity s0)) \<and>
            arr (ar_wakeup_udp_entity s0) ! i = r)
     | Returned x \<Rightarrow> recv_udp_rule (ArgPort r) s0 = Inr (x, fst c))"

lemma call_inv_step:
  assumes wf: "udp_wf s0" and inv: "call_inv s0 r c" and step: "rule_step c c'"
  shows "call_inv s0 r c'"
proof -
  obtain xs where xs: "ar_wakeup_udp_entity s0 = TArr xs" "length xs = unat (udptblsize s0)"
    and rules: "udp_rules s0 = take (length (udp_rules s0)) xs"
    and index: "\<And>r. ar_wakeup_get_index (ArgPort r) ''UDP'' s0 = Inr (if r \<in> set (udp_rules s0)
      then int (first_pos (\<lambda>e. e = r) (udp_rules s0)) else - 1)"
    and free: "ar_wakeup_get_free_index ''UDP'' s0 = Inr (if length (udp_rules s0) < length xs
      then int (length (udp_rules s0)) else - 1)"
    and n: "udp_ports_table_size (ar_wakeup_db s0) = length (udp_rules s0)"
    and call: "\<And>r. recv_udp_rule (ArgPort r) s0 =
      (if r \<in> set (udp_rules s0) then Inr (0, s0)
       else if length (udp_rules s0) < length xs then
         Inr (0, s0\<lparr>ar_wakeup_udp_entity := TArr (xs[length (udp_rules s0) := r]),
                    ar_wakeup_db := (ar_wakeup_db s0)\<lparr>udp_ports_table_size := length (udp_rules s0) + 1\<rparr>\<rparr>)
       else Inr (- 1, s0))"
    by (rule udp_searches [OF wf]) blast
  note found = rule_found [OF rules]
  from step inv show ?thesis
  proof (cases rule: rule_step.cases)
    case (assign k r' i s s' new)
    show ?thesis
    proof (cases new)
      case True
      let ?e = "xs ! length (udp_rules s0)" and ?n = "length (udp_rules s0)"
      from True inv assign xs(1) have st: "r' = r" "i = ?n" "r \<notin> set (udp_rules s0)" "?n < length xs"
        "s = s0\<lparr>ar_wakeup_udp_entity := TArr (xs[?n := partly k r ?e])\<rparr>"
        by (simp_all add: call_inv_def Let_def)
      from st assign(4) have "s' = s0\<lparr>ar_wakeup_udp_entity := TArr (xs[?n := partly (Suc k) r ?e])\<rparr>"
        using partly_Suc [OF assign(3), of r ?e] udp_assign_eq [of s "xs[?n := partly k r ?e]" ?n k r] by simp
      with True st assign xs(1) show ?thesis by (simp add: call_inv_def Let_def)
    next
      case False
      from False inv assign xs(1) have st: "r' = r" "r \<in> set (udp_rules s0)" "s = s0" "i < length xs" "xs ! i = r"
        by (simp_all add: call_inv_def Let_def)
      have "set_field k r r = r" using partly_Suc [OF assign(3), of r r] by simp
      with st assign(4) udp_assign_eq [OF xs(1), of i k r] have "s' = s0"
        using xs(1) list_update_id [of xs i] by (simp add: udp_entity_same)
      with False st assign xs(1) show ?thesis by (simp add: call_inv_def Let_def)
    qed
  next
    case (search r' s v)
    with inv show ?thesis by (simp add: call_inv_def)
  next
    case (known v s r')
    with inv have st: "r' = r" "s = s0" "r \<in> set (udp_rules s0)" "nat v = first_pos (\<lambda>e. e = r) (udp_rules s0)"
      by (auto simp: call_inv_def index split: if_splits)
    with known found [OF st(3)] xs(1) show ?thesis by (simp add: call_inv_def Let_def)
  next
    case (search_slot s f r')
    with inv have "r' = r" "s = s0" "r \<notin> set (udp_rules s0)" by (auto simp: call_inv_def index split: if_splits)
    with search_slot show ?thesis by (simp add: call_inv_def)
  next
    case (full s r')
    with inv have "r' = r" "s = s0" "r \<notin> set (udp_rules s0)" "\<not> length (udp_rules s0) < length xs"
      by (auto simp: call_inv_def free Let_def split: if_splits)
    with full show ?thesis by (simp add: call_inv_def call)
  next
    case (slot f s r')
    with inv have "r' = r" "s = s0" "r \<notin> set (udp_rules s0)" "length (udp_rules s0) < length xs"
      "nat f = length (udp_rules s0)"
      by (auto simp: call_inv_def free Let_def split: if_splits)
    with slot xs(1) show ?thesis by (simp add: call_inv_def Let_def udp_entity_same)
  next
    case (stored s r' i)
    with inv have "r' = r" "s = s0" "r \<in> set (udp_rules s0)" by (simp_all add: call_inv_def Let_def)
    with stored show ?thesis by (simp add: call_inv_def call)
  next
    case (count s r' i)
    with inv xs(1) have "r \<notin> set (udp_rules s0)" "length (udp_rules s0) < length xs"
      "s = s0\<lparr>ar_wakeup_udp_entity := TArr (xs[length (udp_rules s0) := r])\<rparr>" by (simp_all add: call_inv_def Let_def)
    with count n show ?thesis by (simp add: call_inv_def call)
  qed
qed

text \<open>A call alone: what its readers see, what it returns, and that it returns.\<close>

lemma call_inv_run:
  assumes "udp_wf s0" and "rule_step\<^sup>*\<^sup>* (s0, Calling r) c"
  shows "call_inv s0 r c"
  using assms(2)
proof (induction rule: rtranclp_induct)
  case base
  then show ?case by (simp add: call_inv_def)
next
  case (step c d)
  from call_inv_step [OF assms(1) step.IH step.hyps(2)] show ?case .
qed

lemma call_inv_view:
  assumes "udp_wf s0" and "call_inv s0 r (s, pc)"
  shows "udp_rules s =
    (case pc of Returned x \<Rightarrow> upsert (unat (udptblsize s0)) (udp_rules s0) r | _ \<Rightarrow> udp_rules s0)"
proof -
  obtain xs where xs: "ar_wakeup_udp_entity s0 = TArr xs" "length xs = unat (udptblsize s0)"
    and rules: "udp_rules s0 = take (length (udp_rules s0)) xs"
    and n: "udp_ports_table_size (ar_wakeup_db s0) = length (udp_rules s0)"
    and call: "recv_udp_rule (ArgPort r) s0 =
      (if r \<in> set (udp_rules s0) then Inr (0, s0)
       else if length (udp_rules s0) < length xs then
         Inr (0, s0\<lparr>ar_wakeup_udp_entity := TArr (xs[length (udp_rules s0) := r]),
                    ar_wakeup_db := (ar_wakeup_db s0)\<lparr>udp_ports_table_size := length (udp_rules s0) + 1\<rparr>\<rparr>)
       else Inr (- 1, s0))"
    by (rule udp_searches [OF assms(1)]) blast
  have new: "udp_rules (s0\<lparr>ar_wakeup_udp_entity := TArr (xs[length (udp_rules s0) := e])\<rparr>) = udp_rules s0" for e
    unfolding n [symmetric] by (simp add: udp_rules_def xs(1))
  show ?thesis
  proof (cases pc)
    case (Returned x)
    then have "recv_udp_rule (ArgPort r) s0 = Inr (x, s)" using assms(2) by (simp add: call_inv_def)
    with call show ?thesis
      using xs(2) Returned rules [symmetric]
      by (auto simp: upsert_def udp_rules_def [of s] take_Suc_update n xs(1) split: if_splits)
  next
    case (Writing b r' i k)
    with assms(2) new [of "partly k r (xs ! length (udp_rules s0))"] xs(1) show ?thesis
      by (cases b) (simp_all add: call_inv_def Let_def)
  qed (use assms(2) in \<open>simp_all add: call_inv_def Let_def\<close>)
qed

lemma call_returns:
  assumes "udp_wf s"
  shows "\<exists>x s'. rule_step\<^sup>*\<^sup>* (s, Calling r) (s', Returned x)"
proof -
  obtain xs where xs: "ar_wakeup_udp_entity s = TArr xs"
    and rules: "udp_rules s = take (length (udp_rules s)) xs"
    and index: "\<And>r. ar_wakeup_get_index (ArgPort r) ''UDP'' s = Inr (if r \<in> set (udp_rules s)
      then int (first_pos (\<lambda>e. e = r) (udp_rules s)) else - 1)"
    and free: "ar_wakeup_get_free_index ''UDP'' s = Inr (if length (udp_rules s) < length xs
      then int (length (udp_rules s)) else - 1)"
    by (rule udp_searches [OF assms]) blast
  show ?thesis
  proof (cases "r \<in> set (udp_rules s)")
    case True
    let ?i = "first_pos (\<lambda>e. e = r) (udp_rules s)"
    have "rule_step (s, Calling r) (s, Searched r (int ?i))" using True index by (intro rule_step.search) simp
    moreover have "rule_step (s, Searched r (int ?i)) (s, Writing False r ?i 0)"
      using rule_step.known [of "int ?i" s r] by simp
    moreover note assign_run [OF xs rule_found(1) [OF rules True], of False r] rule_step.stored
    ultimately show ?thesis
      by (meson converse_rtranclp_into_rtranclp rtranclp.rtrancl_into_rtrancl)
  next
    case False
    have "rule_step (s, Calling r) (s, Searched r (- 1))" using False index by (intro rule_step.search) simp
    moreover note slot = rule_step.search_slot [OF free, of r]
    show ?thesis
    proof (cases "length (udp_rules s) < length xs")
      case True
      let ?n = "length (udp_rules s)"
      have "rule_step (s, Searched r (- 1)) (s, Slot_Searched r (int ?n))" using slot True by simp
      moreover have "rule_step (s, Slot_Searched r (int ?n)) (s, Writing True r ?n 0)"
        using rule_step.slot [of "int ?n" s r] by simp
      moreover note assign_run [OF xs True, of True r] rule_step.count
      ultimately show ?thesis
        using \<open>rule_step (s, Calling r) (s, Searched r (- 1))\<close>
        by (meson converse_rtranclp_into_rtranclp rtranclp.rtrancl_into_rtrancl)
    next
      case full: False
      have "rule_step (s, Searched r (- 1)) (s, Slot_Searched r (- 1))" using slot full by simp
      with \<open>rule_step (s, Calling r) (s, Searched r (- 1))\<close> show ?thesis
        by (meson converse_rtranclp_into_rtranclp rtranclp.rtrancl_refl rule_step.full)
    qed
  qed
qed

text \<open>The run of one call among others.\<close>

lemma thread_run:
  assumes "rule_step\<^sup>*\<^sup>* (s, pc) (s', pc')" and "pcs i = pc"
  shows "calls_step\<^sup>*\<^sup>* (s, pcs) (s', pcs(i := pc'))"
  using assms
proof (induction "(s', pc')" arbitrary: s' pc' rule: rtranclp_induct)
  case base
  then show ?case by auto
next
  case (step c s' pc')
  obtain t q where c: "c = (t, q)" by (cases c)
  from step.hyps(3) [OF c step.prems] have "calls_step\<^sup>*\<^sup>* (s, pcs) (t, pcs(i := q))" .
  moreover from calls_step.turn [of t "pcs(i := q)" i s' pc'] step.hyps(2) c
  have "calls_step (t, pcs(i := q)) (s', pcs(i := pc'))" by simp
  ultimately show ?case by (rule rtranclp.rtrancl_into_rtrancl)
qed

section \<open>Properties\<close>

text \<open>
  Claim C17.  Storing a rule statement by statement, with one call at a time: whatever statement
  the call has reached, a reader of the table finds the old rules, and the new ones once it has
  returned (the fields are assigned before the count is raised); the call returns, with the
  status and state of the function as a whole.  So a suspend may fall between any two statements.
\<close>

theorem rule_call_atomic:
  assumes "udp_wf s"
  shows "(\<forall>s' pc. rule_step\<^sup>*\<^sup>* (s, Calling r) (s', pc) \<longrightarrow>
      udp_rules s' = (case pc of Returned x \<Rightarrow> upsert (unat (udptblsize s)) (udp_rules s) r | _ \<Rightarrow> udp_rules s) \<and>
      (\<forall>x. pc = Returned x \<longrightarrow> recv_udp_rule (ArgPort r) s = Inr (x, s'))) \<and>
    (\<exists>x s'. rule_step\<^sup>*\<^sup>* (s, Calling r) (s', Returned x))"
proof (intro conjI allI impI)
  fix s' pc
  assume "rule_step\<^sup>*\<^sup>* (s, Calling r) (s', pc)"
  from call_inv_run [OF assms this] have inv: "call_inv s r (s', pc)" .
  then show "udp_rules s' = (case pc of Returned x \<Rightarrow> upsert (unat (udptblsize s)) (udp_rules s) r | _ \<Rightarrow> udp_rules s)"
    by (rule call_inv_view [OF assms])
  fix x
  assume "pc = Returned x"
  with inv show "recv_udp_rule (ArgPort r) s = Inr (x, s')" by (simp add: call_inv_def)
qed (rule call_returns [OF assms])

theorem rule_call_atomic_witness:
  "\<exists>s'. rule_step\<^sup>*\<^sup>* (demo_wakeup, Calling (demo_rule 5 6)) (s', Returned 0) \<and> udp_rules s' = [demo_rule 5 6]"
proof -
  have wf: "udp_wf demo_wakeup" using demo_wakeup_wf by (simp add: wakeup_wf_def)
  from rule_call_atomic [OF wf, of "demo_rule 5 6"] obtain x s' where
    run: "rule_step\<^sup>*\<^sup>* (demo_wakeup, Calling (demo_rule 5 6)) (s', Returned x)"
    and s': "udp_rules s' = upsert 2 [] (demo_rule 5 6)" "recv_udp_rule (ArgPort (demo_rule 5 6)) demo_wakeup = Inr (x, s')"
    by (auto simp: demo_wakeup_empty)
  from udp_step [OF wf, of "demo_rule 5 6"] s'(2) have "x = 0" by (auto simp: demo_wakeup_empty add_udp_eq)
  with run s'(1) show ?thesis by (auto simp: upsert_def)
qed

text \<open>
  Claim C25.  Two calls at once, by threads that share the descriptor: for two new rules and a
  table with room there is an interleaving in which both calls report success and the second rule
  overwrites the first, while the count is raised twice.  The first rule is lost, and the table
  is no longer well-formed: its last listed row is an empty slot, or beyond the table.
\<close>

theorem shared_descriptor_loses_rule:
  assumes "udp_wf s" and "r1 \<notin> set (udp_rules s)" and "r2 \<notin> set (udp_rules s)" and "r1 \<noteq> r2"
    and "\<not> free_port r1" and "length (udp_rules s) < unat (udptblsize s)"
    and "pcs i = Calling r1" and "pcs j = Calling r2" and "i \<noteq> j"
  shows "\<exists>s'. calls_step\<^sup>*\<^sup>* (s, pcs) (s', pcs(i := Returned 0, j := Returned 0)) \<and>
    udp_ports_table_size (ar_wakeup_db s') = length (udp_rules s) + 2 \<and>
    r1 \<notin> set (udp_rules s') \<and> \<not> udp_wf s'"
proof -
  obtain xs where xs: "ar_wakeup_udp_entity s = TArr xs" "length xs = unat (udptblsize s)"
    and sl: "slots free_port xs (udp_ports_table_size (ar_wakeup_db s))"
    and rules: "udp_rules s = take (length (udp_rules s)) xs"
    and index: "\<And>r. ar_wakeup_get_index (ArgPort r) ''UDP'' s = Inr (if r \<in> set (udp_rules s)
      then int (first_pos (\<lambda>e. e = r) (udp_rules s)) else - 1)"
    and free: "ar_wakeup_get_free_index ''UDP'' s = Inr (if length (udp_rules s) < length xs
      then int (length (udp_rules s)) else - 1)"
    and n: "udp_ports_table_size (ar_wakeup_db s) = length (udp_rules s)"
    by (rule udp_searches [OF assms(1)]) blast
  let ?n = "length (udp_rules s)"
  have room: "?n < length xs" using assms(6) xs(2) by simp
  have find: "rule_step\<^sup>*\<^sup>* (s, Calling r) (s, Writing True r ?n 0)" if "r \<notin> set (udp_rules s)" for r
  proof -
    have "rule_step (s, Calling r) (s, Searched r (- 1))" using that index by (intro rule_step.search) simp
    moreover have "rule_step (s, Searched r (- 1)) (s, Slot_Searched r (int ?n))"
      using rule_step.search_slot [OF free, of r] room by simp
    moreover have "rule_step (s, Slot_Searched r (int ?n)) (s, Writing True r ?n 0)"
      using rule_step.slot [of "int ?n" s r] by simp
    ultimately show ?thesis by (meson converse_rtranclp_into_rtranclp rtranclp.rtrancl_refl)
  qed
  define up where "up t k = t\<lparr>ar_wakeup_db := (ar_wakeup_db t)\<lparr>udp_ports_table_size := k\<rparr>\<rparr>" for t :: wakeup_state and k
  let ?s1 = "up (s\<lparr>ar_wakeup_udp_entity := TArr (xs[?n := r1])\<rparr>) (Suc ?n)"
  let ?s2 = "up (s\<lparr>ar_wakeup_udp_entity := TArr (xs[?n := r2])\<rparr>) (Suc (Suc ?n))"
  have store: "rule_step\<^sup>*\<^sup>* (t, Writing True r ?n 0) (up (t\<lparr>ar_wakeup_udp_entity := TArr (ys[?n := r])\<rparr>) (Suc k), Returned 0)"
    if "ar_wakeup_udp_entity t = TArr ys" "length ys = length xs" "udp_ports_table_size (ar_wakeup_db t) = k" for t ys k r
    using assign_run [OF that(1), of ?n True r] room that(2,3)
      rule_step.count [of "t\<lparr>ar_wakeup_udp_entity := TArr (ys[?n := r])\<rparr>" r ?n]
    by (auto simp: up_def intro: rtranclp.rtrancl_into_rtrancl)
  let ?p1 = "pcs(i := Writing True r1 ?n 0)" and ?p2 = "pcs(i := Writing True r1 ?n 0, j := Writing True r2 ?n 0)"
  let ?p3 = "?p2(i := Returned 0)"
  have a: "calls_step\<^sup>*\<^sup>* (s, pcs) (s, ?p1)" by (rule thread_run [where pcs = pcs and i = i, OF find [OF assms(2)] assms(7)])
  have b: "calls_step\<^sup>*\<^sup>* (s, ?p1) (s, ?p2)"
    by (rule thread_run [where pcs = ?p1 and i = j, OF find [OF assms(3)]]) (use assms(8,9) in simp)
  have c: "calls_step\<^sup>*\<^sup>* (s, ?p2) (?s1, ?p3)"
    by (rule thread_run [where pcs = ?p2 and i = i, OF store [OF xs(1) refl n]]) (use assms(9) in simp)
  have d: "calls_step\<^sup>*\<^sup>* (?s1, ?p3) (?s2, ?p3(j := Returned 0))"
  proof -
    have "?s2 = up (?s1\<lparr>ar_wakeup_udp_entity := TArr ((xs[?n := r1])[?n := r2])\<rparr>) (Suc (Suc ?n))" by (simp add: up_def)
    moreover have "ar_wakeup_udp_entity ?s1 = TArr (xs[?n := r1])" "udp_ports_table_size (ar_wakeup_db ?s1) = Suc ?n"
      by (simp_all add: up_def)
    ultimately show ?thesis
      using thread_run [where pcs = ?p3 and i = j, OF store [of ?s1 "xs[?n := r1]" "Suc ?n" r2]] assms(9) by simp
  qed
  have "?p3(j := Returned 0) = pcs(i := Returned 0, j := Returned 0)" using assms(9) by (simp add: fun_upd_twist)
  with rtranclp_trans [OF rtranclp_trans [OF rtranclp_trans [OF a b] c] d]
  have run: "calls_step\<^sup>*\<^sup>* (s, pcs) (?s2, pcs(i := Returned 0, j := Returned 0))" by simp
  have new: "udp_rules ?s2 = take (Suc (Suc ?n)) (xs[?n := r2])" by (simp add: up_def udp_rules_def)
  have empty: "free_port e" if "e \<in> set (drop ?n xs)" for e
    using sl that by (simp add: slots_def n list_all_iff)
  have rest: "set (drop (Suc ?n) xs) \<subseteq> set (drop ?n xs)" by (rule set_drop_subset_set_drop) simp
  have "xs[?n := r2] = udp_rules s @ r2 # drop (Suc ?n) xs" using room rules by (simp add: upd_conv_take_nth_drop)
  then have split: "udp_rules ?s2 = udp_rules s @ r2 # take 1 (drop (Suc ?n) xs)" unfolding new by simp
  have "r1 \<notin> set (take 1 (drop (Suc ?n) xs))"
    using empty rest assms(5) in_set_takeD [of r1 1] by blast
  then have lost: "r1 \<notin> set (udp_rules ?s2)" unfolding split using assms(2,4) by simp
  have "\<not> udp_wf ?s2"
  proof (cases "drop (Suc ?n) xs")
    case Nil
    then have "length xs < Suc (Suc ?n)" using room by simp
    then show ?thesis by (simp add: udp_wf_def up_def table_wf_def slots_def)
  next
    case (Cons e es)
    then have "e \<in> set (udp_rules ?s2)" and "free_port e"
      unfolding split using empty rest by auto
    then show ?thesis by (auto simp: udp_wf_def up_def table_wf_def udp_rules_def dest: slots_used)
  qed
  with run lost show ?thesis by (intro exI [of _ ?s2]) (simp add: up_def)
qed

theorem shared_descriptor_loses_rule_witness:
  "\<exists>s'. calls_step\<^sup>*\<^sup>* (demo_wakeup, \<lambda>k. if k = 0 then Calling (demo_rule 1 2) else Calling (demo_rule 3 4))
      (s', (\<lambda>k. if k = 0 then Calling (demo_rule 1 2) else Calling (demo_rule 3 4))(0 := Returned 0, 1 := Returned 0)) \<and>
     udp_ports_table_size (ar_wakeup_db s') = 2 \<and> demo_rule 1 2 \<notin> set (udp_rules s')"
proof -
  have wf: "udp_wf demo_wakeup" using demo_wakeup_wf by (simp add: wakeup_wf_def)
  show ?thesis
    using shared_descriptor_loses_rule [OF wf, of "demo_rule 1 2" "demo_rule 3 4"
        "\<lambda>k. if k = 0 then Calling (demo_rule 1 2) else Calling (demo_rule 3 4)" 0 1]
    by (auto simp: demo_wakeup_empty)
qed

text \<open>The rows of objects are printed from the blocks of the entries only.\<close>

lemma dump_oids_frame:
  assumes "snmp_wf s" and "ar_snmp_entity t = ar_snmp_entity s"
    and "oid_table_size (ar_snmp_db t) = oid_table_size (ar_snmp_db s)" and "oid_table (ar_snmp_db t) = oid_table (ar_snmp_db s)"
    and same: "\<And>e. e \<in> set (entries s) \<Longrightarrow> kmem t (oidVal e) = kmem s (oidVal e) \<and> kmem t (resVal e) = kmem s (resVal e)"
  shows "dump_oids t = dump_oids s"
proof -
  obtain es where es: "ar_snmp_entity s = TArr es" "oid_table_size (ar_snmp_db s) \<le> length es"
    using snmp_wfE [OF assms(1)] by metis
  have row: "snmp_row (kmem t) i e = snmp_row (kmem s) i e" if "e \<in> set (entries s)" for i e
    using same [OF that] by (simp add: snmp_row_def print_bytes_def kread_def)
  have "es ! i \<in> set (entries s)" if "i < oid_table_size (ar_snmp_db s)" for i
    using that es by (auto simp: entries_def in_set_conv_nth intro!: exI [of _ i])
  with row es have one: "rbind (tbl_get (ar_snmp_entity s) i) (snmp_row (kmem t) i)
      = rbind (tbl_get (ar_snmp_entity s) i) (snmp_row (kmem s) i)"
    if "i < oid_table_size (ar_snmp_db s)" for i
    using that by simp
  have "rmap (\<lambda>i. if oid_table (ar_snmp_db s) = None then Inl NullDeref
        else rbind (tbl_get (ar_snmp_entity s) i) (snmp_row (kmem t) i)) [0..<oid_table_size (ar_snmp_db s)]
    = rmap (\<lambda>i. if oid_table (ar_snmp_db s) = None then Inl NullDeref
        else rbind (tbl_get (ar_snmp_entity s) i) (snmp_row (kmem s) i)) [0..<oid_table_size (ar_snmp_db s)]"
    by (rule rmap_cong [OF refl]) (simp add: one)
  then show ?thesis by (simp only: dump_oids_def assms(2-4))
qed

text \<open>
  Claim C26.  Changing a community string is not safe against a reader in the same way: the old
  block is released before the pointer is changed, so a reader that comes after the first
  statement (the dump here, the FMAN driver at a suspend) reads a released block, after the
  second a NULL pointer, and only after the assignment a live string again.
\<close>

theorem community_change_dangles:
  assumes core: "core_dumpable (core m)" "counts_fit (core m)"
    and snmp: "snmp_dumpable (snmp m)" "list_all (sizes_fit (kmem (snmp m))) (entries (snmp m))"
    and p: "kmem (snmp m) p = None" "p \<noteq> 0" and nul: "has_nul b" and cmd: "comm_cmd cmd"
  defines "s \<equiv> (snmp m)\<lparr>kmem := (kmem (snmp m))(p \<mapsto> b)\<rparr>"
  shows "\<exists>s1 s2 s3 s4. comm_statements cmd p s = Inr [s1, s2, s3, s4] \<and> ar_snmp_config_comm_str cmd p s = Inr s4 \<and>
    ar_interface_info_dump (m\<lparr>snmp := s1\<rparr>) = Inl UseAfterFree \<and>
    ar_interface_info_dump (m\<lparr>snmp := s2\<rparr>) = Inl NullDeref \<and>
    block (kmem s3) (comm_ptr cmd s3) = b \<and> snmp_wf s4"
proof -
  let ?old = "comm_ptr cmd (snmp m)" and ?s4 = "comm_swapped cmd p b (snmp m)"
  let ?h = "(kmem (snmp m))(p \<mapsto> b, ?old := None)"
  let ?s1 = "s\<lparr>kmem := ?h\<rparr>"
  have wf: "snmp_wf (snmp m)" using snmp(1) by (simp add: snmp_dumpable_def)
  have old: "live (kmem (snmp m)) ?old" using snmp_wfD(3,4) [OF wf] by (simp add: comm_ptr_def)
  then have po: "?old \<noteq> p" "?old \<noteq> 0" using p by (auto simp: live_def)
  have fr: "kfree ?old (kmem s) = Inr ?h" unfolding s_def using old po by (simp add: kfree_def live_def)
  have tm: "terminate p ?h = Inr ?h" using p po nul by (intro terminate_id) (simp_all add: live_def block_def)
  have ptr: "comm_ptr cmd s = ?old" by (simp add: s_def comm_ptr_def)
  have st: "comm_statements cmd p s = Inr [?s1, set_comm cmd 0 ?s1, set_comm cmd p ?s1, ?s4]"
    using cmd fr tm po(2)
    by (simp add: comm_statements_def ptr set_comm_def) (simp add: comm_swapped_def s_def)
  have run: "ar_snmp_config_comm_str cmd p s = Inr ?s4"
    unfolding s_def by (rule config_comm_run [OF wf p nul cmd])
  have own: "oidVal e \<notin> {p, ?old} \<and> resVal e \<notin> {p, ?old}" if "e \<in> set (entries (snmp m))" for e
  proof -
    have "?old \<notin> oidVal ` set (entries (snmp m)) \<union> resVal ` set (entries (snmp m))"
      using snmp_wfD(5) [OF wf] by (simp add: owned_def comm_ptr_def del: image_iff)
    moreover have "p \<notin> set (owned (snmp m))" using unowned_new [OF wf p(1)] by blast
    then have "p \<notin> oidVal ` set (entries (snmp m)) \<union> resVal ` set (entries (snmp m))"
      by (simp add: owned_def del: image_iff)
    ultimately show ?thesis
      using imageI [OF that, of oidVal] imageI [OF that, of resVal] by (simp del: image_eqI) metis
  qed
  have oids: "dump_oids t = dump_oids (snmp m)" if "t = ?s1 \<or> t = set_comm cmd 0 ?s1" for t
    by (rule dump_oids_frame [OF wf]) (use that own in \<open>auto simp: s_def set_comm_def\<close>)
  have ok: "\<exists>x. dump_arp (core m) = Inr x" "\<exists>x. dump_ndp (core m) = Inr x" "\<exists>x. dump_oids (snmp m) = Inr x"
    using dump_arp_text [OF core(1)] dump_ndp_text [OF core(1)] core(2) dump_oids_text [OF snmp(1)] snmp(2)
    by (simp_all add: counts_fit_def)
  have upto: "ar_interface_info_dump (m\<lparr>snmp := t\<rparr>) = Inl f"
    if "dump_community t = Inl f" "dump_oids t = dump_oids (snmp m)" for t f
    using that ok by (auto simp: ar_interface_info_dump_def)
  have ne: "community_read_write_string (ar_snmp_db (snmp m)) \<noteq> community_read_only_string (ar_snmp_db (snmp m))"
    using snmp_wfD(5) [OF wf] by (simp add: owned_def)
  have lv: "kread a (kmem ?s1) = (if a = ?old then Inl UseAfterFree else Inr (block (kmem (snmp m)) a))"
    if "live (kmem (snmp m)) a" for a
    using that p by (auto simp: kread_def live_def block_def)
  have d1: "dump_community ?s1 = Inl UseAfterFree"
    using lv snmp_wfD(3,4) [OF wf] ne cmd
    by (auto simp: dump_community_def s_def comm_ptr_def comm_cmd_def)
  have "kread 0 (kmem ?s1) = Inl NullDeref" by (simp add: kread_def)
  then have d2: "dump_community (set_comm cmd 0 ?s1) = Inl NullDeref"
    using lv snmp_wfD(3,4) [OF wf] ne cmd
    by (auto simp: dump_community_def s_def set_comm_def comm_ptr_def comm_cmd_def)
  have b3: "block (kmem (set_comm cmd p ?s1)) (comm_ptr cmd (set_comm cmd p ?s1)) = b"
    using po(1) by (auto simp: set_comm_def comm_ptr_def block_def split: if_splits)
  show ?thesis
    using st run upto [OF d1 oids] upto [OF d2 oids] b3 comm_swapped_wf(1) [OF wf p cmd] by blast
qed

theorem community_change_dangles_witness:
  "\<exists>s1 s2 s3 s4. comm_statements (snmp_cmd CONFIG_SNMP_PUB_COMM) 9
      ((snmp demo_dump)\<lparr>kmem := (kmem (snmp demo_dump))(9 \<mapsto> cstr ''secret'')\<rparr>) = Inr [s1, s2, s3, s4] \<and>
     ar_interface_info_dump (demo_dump\<lparr>snmp := s1\<rparr>) = Inl UseAfterFree \<and>
     ar_interface_info_dump (demo_dump\<lparr>snmp := s2\<rparr>) = Inl NullDeref"
proof -
  have free: "kmem (snmp demo_dump) 9 = None" using demo_free(1) by (simp add: demo_dump_def)
  have nul: "has_nul (cstr ''secret'')" by (simp add: cstr_def)
  have cmd: "comm_cmd (snmp_cmd CONFIG_SNMP_PUB_COMM)" by (simp add: comm_cmd_def)
  have "(9 :: addr) \<noteq> 0" by simp
  from community_change_dangles [OF demo_dump_sel(1,4,2,5) free this nul cmd] show ?thesis by blast
qed

end
