(* ===== verification/AR_Leak.thy ===== *)
theory AR_Leak
  imports AR_System
begin

text \<open>
  The memory of the SNMP database.  The module allocates blocks for every request of
  \<open>armodule/source/arctrl_snmptool.c\<close> and releases one only when a community string is changed
  and when the unreachable \<open>DELETE_SNMP_ENTRY\<close> is served.  Here the blocks are counted: those
  the database points to (\<open>owned\<close>), and the rest, which nothing can release any more.
\<close>

section \<open>Reachable and unreachable blocks\<close>

definition unreachable :: "snmp_state \<Rightarrow> addr set" where
  "unreachable s = blocks (kmem s) - set (owned s)"

text \<open>A well-formed database owns two blocks for each entry and the two community strings.\<close>

lemma owned_card:
  assumes "snmp_wf s"
  shows "card (set (owned s)) = 2 * length (oid_view s) + 2" and "set (owned s) \<subseteq> blocks (kmem s)"
proof -
  have "length (owned s) = 2 * length (oid_view s) + 2" by (simp add: owned_def oid_view_def)
  then show "card (set (owned s)) = 2 * length (oid_view s) + 2"
    using distinct_card [OF snmp_wfD(5) [OF assms]] by simp
  show "set (owned s) \<subseteq> blocks (kmem s)" using owned_live [OF assms] by (auto simp: blocks_def)
qed

lemma unreachable_card:
  assumes "snmp_wf s" and "finite (blocks (kmem s))"
  shows "card (blocks (kmem s)) = card (unreachable s) + 2 * length (oid_view s) + 2"
proof -
  note own = owned_card [OF assms(1)]
  have "card (unreachable s) = card (blocks (kmem s)) - card (set (owned s))"
    unfolding unreachable_def using own(2) finite_subset [OF own(2) assms(2)] by (simp add: card_Diff_subset)
  moreover have "card (set (owned s)) \<le> card (blocks (kmem s))" using own(2) assms(2) by (simp add: card_mono)
  ultimately show ?thesis using own(1) by simp
qed

section \<open>What a request adds\<close>

text \<open>The blocks a request allocates, by its status.\<close>

definition taken_blocks :: "'z snmp_user_mem_scheme \<Rightarrow> u32 \<Rightarrow> nat \<Rightarrow> int \<Rightarrow> nat" where
  "taken_blocks um cmd arg r =
     (if cmd = snmp_cmd CREATE_SNMP_ENTRY then create_blocks um arg r
      else if comm_cmd cmd then comm_blocks r
      else 0)"

lemma request_blocks:
  assumes wf: "snmp_wf s" and fin: "finite (blocks (kmem s))" and pick: "alloc_fresh pick"
    and ends: "request_ends um cmd arg" and run: "ar_interface_ioctl um pick cmd arg s = Inr (r, s')"
  shows "finite (blocks (kmem s'))"
    and "card (blocks (kmem s')) = card (blocks (kmem s)) + (if comm_cmd cmd \<and> r = 0 then 0 else taken_blocks um cmd arg r)"
proof -
  have "finite (blocks (kmem s')) \<and>
    card (blocks (kmem s')) = card (blocks (kmem s)) + (if comm_cmd cmd \<and> r = 0 then 0 else taken_blocks um cmd arg r)"
  proof (cases "cmd = snmp_cmd CREATE_SNMP_ENTRY")
    case True
    with run have "ioctl_create um pick (snmp_cmd CREATE_SNMP_ENTRY) arg s = Inr (r, s')"
      by (simp add: ar_interface_ioctl_def)
    from heap_grows_card [OF create_grows [OF pick this] fin] True show ?thesis
      by (simp add: taken_blocks_def comm_cmd_def)
  next
    case nc: False
    show ?thesis
    proof (cases "comm_cmd cmd")
      case True
      have io: "ioctl_comm um pick cmd arg s = Inr (r, s')" and
        en: "has_nul (take 16 (um_bytes um arg)) \<or> \<not> readable um arg 16"
        using run ends nc True by (auto simp: ar_interface_ioctl_def request_ends_def comm_cmd_def)
      show ?thesis
      proof (rule ioctl_comm_cases [OF wf pick True en])
        fix r' h
        assume "ioctl_comm um pick cmd arg s = Inr (r', s\<lparr>kmem := h\<rparr>)" and "r' \<noteq> 0"
          and "heap_grows (kmem s) (comm_blocks r') h"
        with io heap_grows_card [of "kmem s" "comm_blocks r'" h] fin True nc show ?thesis
          by (auto simp: taken_blocks_def)
      next
        fix p
        let ?t = "comm_swapped cmd p (take 16 (um_bytes um arg)) s" and ?old = "comm_ptr cmd s"
        assume "ioctl_comm um pick cmd arg s = Inr (0, ?t)" and p: "kmem s p = None" "p \<noteq> 0"
        with io have r: "r = 0" "s' = ?t" by simp_all
        have "?old \<in> blocks (kmem s)" and "p \<notin> blocks (kmem s)"
          using snmp_wfD(3,4) [OF wf] p(1) by (simp_all add: blocks_def comm_ptr_def live_def)
        moreover have "blocks (kmem s') = insert p (blocks (kmem s)) - {?old}"
          using p(2) by (simp add: r comm_swapped_def blocks_del blocks_upd)
        ultimately show ?thesis using fin True r(1) by (simp add: card_Diff_singleton)
      qed
    next
      case False
      with nc run ends fin show ?thesis
        by (auto simp: ar_interface_ioctl_def request_ends_def comm_cmd_def taken_blocks_def)
    qed
  qed
  then show "finite (blocks (kmem s'))"
    and "card (blocks (kmem s')) = card (blocks (kmem s)) + (if comm_cmd cmd \<and> r = 0 then 0 else taken_blocks um cmd arg r)"
    by simp_all
qed

lemma length_put: "length (put room m kv) = length m + (if fst kv \<in> fst ` set m \<or> room \<le> length m then 0 else 1)"
proof (cases "fst kv \<in> fst ` set m")
  case True
  then show ?thesis by (simp add: put_def update_known)
next
  case False
  then show ?thesis by (simp add: put_def update_new)
qed

section \<open>What the other calls leave\<close>

lemma comm_store_blocks: "comm_store p len src h = Inr h' \<Longrightarrow> blocks h' = blocks h"
  by (auto simp: comm_store_def rbind_eq_Inr kread_def blocks_def live_def split: if_splits option.splits)

lemma sysfs_store_blocks:
  "sysfs_store attr kz buf n m = Inr (r, m') \<Longrightarrow> blocks (kmem (snmp m')) = blocks (kmem (snmp m))"
  by (cases attr)
    (auto simp: lift_snmp_def lift_wakeup_def lift_core_def rbind_eq_Inr ar_snmp_flag_store_def
      ar_snmp_pvt_string_store_def ar_snmp_pub_string_store_def Let_def comm_store_blocks split: if_splits)

lemma deep_sleep_snmp:
  assumes "ar_process_deep_sleep_event net port handle m = Inr (r, m', calls)"
  shows "snmp m' = snmp m"
proof -
  obtain rx tx where p: "ar_get_fm_port net port = Inr (rx, tx)"
    using assms by (auto simp: ar_process_deep_sleep_event_def rbind_eq_Inr)
  show ?thesis
  proof (cases "rx = None \<or> tx = None")
    case True
    with deep_sleep_down [OF p, of handle m] assms show ?thesis by simp
  next
    case False
    then obtain q t where qt: "rx = Some q" "tx = Some t" by (cases rx; cases tx) auto
    obtain ret c where "ar_get_interface_info net (ar_get_device net port) (core m) = Inr (ret, c)"
      using assms p qt by (auto simp: ar_process_deep_sleep_event_def Let_def rbind_eq_Inr)
    with assms p qt show ?thesis
      by (auto simp: ar_process_deep_sleep_event_def Let_def split: if_splits option.splits)
  qed
qed

text \<open>The blocks a call adds, by its status.\<close>

fun entry_blocks :: "entry \<Rightarrow> int \<Rightarrow> nat" where
  "entry_blocks (Snmp_Ioctl um pick cmd arg) r = (if comm_cmd cmd \<and> r = 0 then 0 else taken_blocks um cmd arg r)"
| "entry_blocks _ r = 0"

lemma entry_call_blocks:
  assumes run: "running_ok m" and ok: "entry_ok R port e" and fin: "finite (blocks (kmem (snmp m)))"
    and call: "entry_call port handle e m = Inr (r, m', calls)"
  shows "finite (blocks (kmem (snmp m')))"
    and "card (blocks (kmem (snmp m'))) = card (blocks (kmem (snmp m))) + entry_blocks e r"
proof -
  have "finite (blocks (kmem (snmp m'))) \<and>
    card (blocks (kmem (snmp m'))) = card (blocks (kmem (snmp m))) + entry_blocks e r"
  proof (cases e)
    case (Snmp_Ioctl um pick cmd arg)
    have wf: "snmp_wf (snmp m)" using run by (simp add: running_ok_def)
    obtain s' where s': "ar_interface_ioctl um pick cmd arg (snmp m) = Inr (r, s')" "snmp m' = s'"
      using call by (auto simp: Snmp_Ioctl rbind_eq_Inr)
    from request_blocks [OF wf fin _ _ s'(1)] ok show ?thesis by (simp add: Snmp_Ioctl s'(2))
  qed (use call fin in \<open>auto simp: rbind_eq_Inr ar_handle_deep_sleep_event_def ar_handle_pm_event_def
      ar_suspend_noirq_def dest!: sysfs_store_blocks deep_sleep_snmp split: if_splits\<close>)
  then show "finite (blocks (kmem (snmp m')))"
    and "card (blocks (kmem (snmp m'))) = card (blocks (kmem (snmp m))) + entry_blocks e r" by simp_all
qed

lemma run_entries_blocks:
  assumes "running_ok m" and "list_all (entry_ok (rooms_of m) port) es" and "finite (blocks (kmem (snmp m)))"
  shows "\<exists>os m'. run_entries port handle es m = Inr (os, m') \<and> running_ok m' \<and> rooms_of m' = rooms_of m \<and>
    length os = length es \<and>
    card (blocks (kmem (snmp m'))) =
      card (blocks (kmem (snmp m))) + sum_list (map2 entry_blocks es (map fst os))"
  using assms
proof (induction es arbitrary: m)
  case Nil
  then show ?case by (simp add: run_entries_def)
next
  case (Cons e es)
  have ok: "entry_ok (rooms_of m) port e" using Cons.prems(2) by simp
  obtain r m1 calls where 1: "entry_call port handle e m = Inr (r, m1, calls)" "running_ok m1" "rooms_of m1 = rooms_of m"
    using entry_refines [OF Cons.prems(1) ok, of handle] by (auto simp: call_refines_def)
  note b = entry_call_blocks [OF Cons.prems(1) ok Cons.prems(3) 1(1)]
  have es: "list_all (entry_ok (rooms_of m1) port) es" using Cons.prems(2) 1(3) by simp
  from Cons.IH [OF 1(2) es b(1)] obtain os m' where
    "run_entries port handle es m1 = Inr (os, m')" "running_ok m'" "rooms_of m' = rooms_of m1" "length os = length es"
    "card (blocks (kmem (snmp m'))) = card (blocks (kmem (snmp m1))) + sum_list (map2 entry_blocks es (map fst os))"
    by blast
  with 1(1,3) b(2) show ?case
    by (intro exI [of _ "(r, calls) # os"] exI [of _ m']) (simp add: run_entries_def)
qed

section \<open>Properties\<close>

text \<open>An accepted request to create an entry has taken two blocks.\<close>

lemma create_takes_two:
  assumes "alloc_fresh pick" and "ar_interface_ioctl um pick (snmp_cmd CREATE_SNMP_ENTRY) arg s = Inr (0, s')"
  shows "create_blocks um arg 0 = 2"
proof (rule ioctl_create_cases [OF assms(1), of um "snmp_cmd CREATE_SNMP_ENTRY" arg s])
  fix r h
  assume "ioctl_create um pick (snmp_cmd CREATE_SNMP_ENTRY) arg s = Inr (r, s\<lparr>kmem := h\<rparr>)" and "r \<noteq> 0"
  with assms(2) show ?thesis by (simp add: ar_interface_ioctl_def)
next
  fix u :: auto_res_snmp_e
  assume "copy_entry um arg = Some u" and "readable um (oidVal u) 128"
  then show ?thesis by (simp add: create_blocks_def)
qed

text \<open>
  Claim C28.  What a request leaves behind.  A new entry and a change of a community string leave
  no block that the database does not point to; but a request that renews the response of a
  stored identifier, or finds the table full, reports success and makes two blocks unreachable,
  and one that fails makes unreachable every block it has allocated by then.
\<close>

theorem request_leaks:
  assumes "snmp_wf s" and "finite (blocks (kmem s))" and "alloc_fresh pick" and "request_ends um cmd arg"
  shows "\<exists>r s'. ar_interface_ioctl um pick cmd arg s = Inr (r, s') \<and> snmp_wf s' \<and>
    card (unreachable s') = card (unreachable s) +
      (if r \<noteq> 0 then taken_blocks um cmd arg r
       else if cmd = snmp_cmd CREATE_SNMP_ENTRY \<and> length (oid_view s') = length (oid_view s) then 2 else 0)"
proof -
  obtain r s' where run: "ar_interface_ioctl um pick cmd arg s = Inr (r, s')" and wf: "snmp_wf s'"
    using ioctl_step [OF assms(1,3,4)] by blast
  note view = ioctl_view [OF assms(1,3,4) run] and b = request_blocks [OF assms run]
  note count = unreachable_card [OF assms(1,2)] unreachable_card [OF wf b(1)]
  have ok: "comm_cmd cmd \<or> cmd = snmp_cmd CREATE_SNMP_ENTRY" if "r = 0"
    using run that assms(4) by (auto simp: ar_interface_ioctl_def request_ends_def comm_cmd_def split: if_splits)
  have two: "create_blocks um arg 0 = 2" if "r = 0" "cmd = snmp_cmd CREATE_SNMP_ENTRY"
    using create_takes_two [OF assms(3)] run that by simp
  have "card (unreachable s') = card (unreachable s) +
      (if r \<noteq> 0 then taken_blocks um cmd arg r
       else if cmd = snmp_cmd CREATE_SNMP_ENTRY \<and> length (oid_view s') = length (oid_view s) then 2 else 0)"
    using count b(2) ok two view
      length_put [of "unat (ar_snmp_tblsize s)" "oid_view s" "user_item um arg"]
    by (auto simp: taken_blocks_def comm_cmd_def split: if_splits)
  with run wf show ?thesis by blast
qed

text \<open>A process that renews the response of the first entry of the demonstration database.\<close>

definition renew_um :: snmp_user_mem where
  "renew_um = demo_snmp_um\<lparr>um_bytes := (\<lambda>p. if p = 100 then [1, 3, 6] @ replicate 125 0 else um_bytes demo_snmp_um p)\<rparr>"

lemma renew_request:
  "\<exists>s'. ar_interface_ioctl renew_um demo_pick (snmp_cmd CREATE_SNMP_ENTRY) 50 demo_snmp = Inr (0, s') \<and>
     length (oid_view s') = length (oid_view demo_snmp)"
proof -
  have u: "copy_entry renew_um 50 = Some \<lparr>oidSize = 3, oidVal = 100, resSize = 3, resVal = 200\<rparr>"
    "readable renew_um 100 128" "readable renew_um 200 132"
    by (simp_all add: renew_um_def copy_entry_def demo_snmp_um_def readable_def)
  then have "oid_ends renew_um 50"
    by (simp add: oid_ends_def renew_um_def has_nul_def)
  moreover have "fst (user_item renew_um 50) = [1, 3, 6]"
    by (simp add: renew_um_def user_item_def demo_snmp_um_def cstr_val_def)
  moreover have "[1, 3, 6] \<in> fst ` set (oid_view demo_snmp)" by (simp add: demo_snmp_view)
  ultimately have known: "fst (user_item renew_um 50) \<in> fst ` set (oid_view demo_snmp)" by simp
  from demo_create [OF u \<open>oid_ends renew_um 50\<close>] obtain s' where
    s': "ar_interface_ioctl renew_um demo_pick (snmp_cmd CREATE_SNMP_ENTRY) 50 demo_snmp = Inr (0, s')"
      "oid_view s' = put 3 (oid_view demo_snmp) (user_item renew_um 50)" by auto
  from s'(2) known have "length (oid_view s') = length (oid_view demo_snmp)" by (simp only: length_put if_True simp_thms add_0_right)
  with s'(1) show ?thesis by blast
qed

theorem request_leaks_witness:
  "\<exists>s'. ar_interface_ioctl renew_um demo_pick (snmp_cmd CREATE_SNMP_ENTRY) 50 demo_snmp = Inr (0, s') \<and>
     card (unreachable s') = card (unreachable demo_snmp) + 2"
proof -
  have "blocks (kmem demo_snmp) \<subseteq> {1, 2, 3, 4, 5, 6, 7, 8}"
    by (auto simp: blocks_def live_def demo_snmp_def demo_heap_def split: if_splits)
  then have "finite (blocks (kmem demo_snmp))" by (rule finite_subset) simp
  moreover have "request_ends renew_um (snmp_cmd CREATE_SNMP_ENTRY) 50"
    by (simp add: request_ends_def oid_ends_def renew_um_def copy_entry_def demo_snmp_um_def has_nul_def)
  ultimately show ?thesis
    using request_leaks [OF demo_snmp_wf _ demo_pick_fresh] renew_request by fastforce
qed

text \<open>Every table of the module is still pointed to, at the size the FMAN driver announced.\<close>

definition held :: "'a tblptr \<Rightarrow> nat \<Rightarrow> bool" where
  "held p n \<longleftrightarrow> (case p of TArr xs \<Rightarrow> length xs = n | _ \<Rightarrow> False)"

definition tables_held :: "ar_rooms \<Rightarrow> ar_module \<Rightarrow> bool" where
  "tables_held R m \<longleftrightarrow>
     held (ar_arp_tbl (core m)) (rm_arp R) \<and> held (ar_ndp_tem_tbl (core m)) (rm_ndp R) \<and>
     held (ar_ndp_tgt_tbl (core m)) (rm_ndp R) \<and> held (ar_snmp_entity (snmp m)) (rm_oid R) \<and>
     held (ar_wakeup_udp_entity (wakeup m)) (rm_udp R) \<and> held (ar_wakeup_tcp_entity (wakeup m)) (rm_tcp R) \<and>
     held (ar_wakeup_ip_prot_tbl (wakeup m)) (rm_prot R)"

lemma running_tables: "running_ok m \<Longrightarrow> tables_held (rooms_of m) m"
  by (auto simp: running_ok_def tables_held_def held_def rooms_of_def core_ready_def snmp_wf_def wakeup_wf_def
      udp_wf_def tcp_wf_def ip_wf_def table_wf_def split: tblptr.splits)

text \<open>
  Claim C29.  Unloading gives no memory back.  The module is loaded with everything it asks for,
  given any sequence of the calls it is made for (\<open>entry_ok\<close>), and unloaded: nothing is
  registered any more, but the seven tables (three of addresses, three of rules, that of the
  SNMP objects) are all still allocated at their sizes, and so are the two community blocks and
  every block the calls have taken, on top of those in use before.  (Only a changed community
  string has released one block for the one it took.)
\<close>

theorem unload_keeps_memory:
  assumes "env_grants env h m" and "alloc_fresh (env_pick env)" and "max_num_of_arp_entries m \<noteq> 0"
    and "finite (blocks h)" and "list_all (entry_ok (rooms_for m) (env_port env)) es"
  shows "\<exists>s os m' t. ar_init env (system_boot h) = Inr (0, s) \<and>
    run_entries (env_port env) handle es (md s) = Inr (os, m') \<and>
    ar_exit (s\<lparr>md := m'\<rparr>) = Inr t \<and> none_registered t \<and> tables_held (rooms_for m) (md t) \<and>
    card (blocks (kmem (snmp (md t)))) = card (blocks h) + 2 + sum_list (map2 entry_blocks es (map fst os))"
proof -
  obtain s where s: "ar_init env (system_boot h) = Inr (0, s)" "all_registered s" "running_ok (md s)"
    "rooms_of (md s) = rooms_for m" "heap_grows h 2 (kmem (snmp (md s)))"
    using load_running [OF assms(1-3)] by blast
  note grown = heap_grows_card [OF s(5) assms(4)]
  have es: "list_all (entry_ok (rooms_of (md s)) (env_port env)) es" using assms(5) s(4) by simp
  obtain os m' where run: "run_entries (env_port env) handle es (md s) = Inr (os, m')" "running_ok m'"
    "rooms_of m' = rooms_for m" "card (blocks (kmem (snmp m'))) = card (blocks (kmem (snmp (md s)))) + sum_list (map2 entry_blocks es (map fst os))"
    using run_entries_blocks [OF s(3) es conjunct1 [OF grown], of handle] unfolding s(4) by blast
  have "all_registered (s\<lparr>md := m'\<rparr>)" using s(2) by (simp add: all_registered_def)
  from exit_clean [OF this] obtain t where "ar_exit (s\<lparr>md := m'\<rparr>) = Inr t" "none_registered t" "md t = m'" by auto
  with s(1) run grown running_tables [OF run(2)] show ?thesis
    by (intro exI [of _ s] exI [of _ os] exI [of _ m'] exI [of _ t]) simp
qed

theorem unload_keeps_memory_witness:
  "\<exists>s os m' t. ar_init demo_env (system_boot Map.empty) = Inr (0, s) \<and>
     run_entries ''fm1-mac5'' (\<lambda>p. 100 + p) demo_entries (md s) = Inr (os, m') \<and>
     ar_exit (s\<lparr>md := m'\<rparr>) = Inr t \<and> chrdevs t = {} \<and> tables_held (rooms_for demo_sizes) (md t) \<and>
     card (blocks (kmem (snmp (md t)))) = 2"
proof -
  have sz: "max_num_of_arp_entries demo_sizes \<noteq> 0" "3 \<le> rm_arp (rooms_for demo_sizes)" "2 < rm_ndp (rooms_for demo_sizes)"
    by (simp_all add: rooms_for_def demo_sizes_def)
  have pick: "alloc_fresh (env_pick demo_env)" using demo_pick_fresh by simp
  have e: "blocks Map.empty = {}" by (simp add: blocks_def live_def)
  then have fin: "finite (blocks Map.empty)" by simp
  have ok: "list_all (entry_ok (rooms_for demo_sizes) (env_port demo_env)) demo_entries"
    using demo_entries_ok [OF sz(2,3)] by simp
  have none: "sum_list (map2 entry_blocks demo_entries rs) = 0" for rs
  proof -
    have "entry_blocks e r = 0" if "(e, r) \<in> set (zip demo_entries rs)" for e r
      using set_zip_leftD [OF that] by (auto simp: demo_entries_def)
    then show ?thesis by (auto simp: sum_list_eq_0_iff)
  qed
  from unload_keeps_memory [OF demo_env_grants pick sz(1) fin ok, of "\<lambda>p. 100 + p"] show ?thesis
    by (auto simp: e none none_registered_def)
qed

end
