(* ===== verification/Usr_Libc.thy ===== *)
theory Usr_Libc
  imports AR_Prelude
begin

text \<open>
  The functions of the C library the two configuration tools call, over byte lists: \<open>fgets\<close>,
  \<open>memcmp\<close>, \<open>atoi\<close> and the conversions of \<open>sscanf\<close> the tools use (\<open>%hu\<close>, \<open>%hx\<close>, \<open>%s\<close>, \<open>%c\<close>).
  What the C standard leaves undefined (a number its type cannot hold) is a fault.  The last
  section has the texts of numbers, which these functions read back.
\<close>

section \<open>Reading lines\<close>

definition newline :: u8 where
  "newline = 0x0A"

text \<open>At most \<open>k\<close> bytes, up to a newline included; what is left of the file.\<close>

fun read_line :: "nat \<Rightarrow> u8 list \<Rightarrow> u8 list \<times> u8 list" where
  "read_line 0 fp = ([], fp)"
| "read_line (Suc k) [] = ([], [])"
| "read_line (Suc k) (b # fp) =
     (if b = newline then ([b], fp) else let (l, r) = read_line k fp in (b # l, r))"

text \<open>\<open>fgets (line, n, fp)\<close>: the buffer with its NUL and the rest of the file, or NULL at its end.\<close>

definition fgets :: "nat \<Rightarrow> u8 list \<Rightarrow> (u8 list \<times> u8 list) option" where
  "fgets n fp = (if fp = [] then None else let (l, r) = read_line (n - 1) fp in Some (l @ [0], r))"

lemma read_line_split: "read_line k fp = (l, r) \<Longrightarrow> l @ r = fp"
  by (induction k fp arbitrary: l r rule: read_line.induct) (auto split: if_splits prod.splits)

lemma read_line_length: "read_line k fp = (l, r) \<Longrightarrow> length l \<le> k"
  by (induction k fp arbitrary: l r rule: read_line.induct) (auto split: if_splits prod.splits)

lemma read_line_whole:
  "newline \<notin> set l \<Longrightarrow> length l < k \<Longrightarrow> read_line k (l @ newline # r) = (l @ [newline], r)"
proof (induction l arbitrary: k)
  case Nil
  then show ?case by (cases k) auto
next
  case (Cons b l)
  then show ?case by (cases k) auto
qed

lemma fgets_shorter:
  assumes "fgets n fp = Some (l, r)" and "2 \<le> n"
  shows "length r < length fp"
proof -
  obtain b fp' where fp: "fp = b # fp'" using assms(1) by (cases fp) (auto simp: fgets_def)
  obtain k where k: "n - 1 = Suc k" using assms(2) by (cases "n - 1") auto
  obtain l' where "read_line (Suc k) fp = (l', r)"
    using assms(1) k by (auto simp: fgets_def split: if_splits prod.splits)
  then have "l' @ r = fp" and "l' \<noteq> []"
    using read_line_split [of "Suc k" fp l' r] by (auto simp: fp split: if_splits prod.splits)
  then show ?thesis by (metis length_append length_greater_0_conv less_add_same_cancel2)
qed

lemma fgets_whole:
  assumes "newline \<notin> set l" and "length l < n - 1"
  shows "fgets n (l @ newline # r) = Some (l @ [newline, 0], r)"
  using read_line_whole [OF assms, of r] by (simp add: fgets_def)

text \<open>A file as the pieces the loop \<open>while (fgets (line, n, fp) != NULL)\<close> sees.\<close>

function file_lines :: "nat \<Rightarrow> u8 list \<Rightarrow> u8 list list" where
  "file_lines n fp =
     (if n < 2 then []
      else case fgets n fp of None \<Rightarrow> [] | Some (l, r) \<Rightarrow> butlast l # file_lines n r)"
  by pat_completeness auto
termination
  by (relation "measure (length \<circ> snd)") (auto dest: fgets_shorter)

declare file_lines.simps [simp del]

lemma read_line_newline: "read_line k fp = (l, r) \<Longrightarrow> newline \<notin> set (butlast l)"
  by (induction k fp arbitrary: l r rule: read_line.induct) (auto split: if_splits prod.splits)

lemma file_lines_shape:
  "2 \<le> n \<Longrightarrow> concat (file_lines n fp) = fp \<and> length (file_lines n fp) \<le> length fp \<and>
     list_all (\<lambda>l. l \<noteq> [] \<and> length l \<le> n - 1 \<and> newline \<notin> set (butlast l)) (file_lines n fp)"
proof (induction n fp rule: file_lines.induct)
  case (1 n fp)
  show ?case
  proof (cases "fgets n fp")
    case None
    then show ?thesis by (subst (1 2 3) file_lines.simps) (auto simp: fgets_def split: if_splits prod.splits)
  next
    case (Some lr)
    obtain l r where lr: "fgets n fp = Some (l @ [0], r)" "read_line (n - 1) fp = (l, r)"
      using Some by (auto simp: fgets_def split: if_splits prod.splits)
    have l: "l @ r = fp" "length l \<le> n - 1" "newline \<notin> set (butlast l)"
      using read_line_split [OF lr(2)] read_line_length [OF lr(2)] read_line_newline [OF lr(2)] by auto
    have len: "length r < length fp" using fgets_shorter [OF lr(1) "1.prems"] .
    then have "l \<noteq> []" and "1 \<le> length l" using l(1) by (auto simp: Suc_le_eq)
    moreover have "file_lines n fp = l # file_lines n r"
      using "1.prems" by (subst file_lines.simps) (simp add: lr)
    ultimately show ?thesis using 1 lr(1) l len by fastforce
  qed
qed

section \<open>Comparing memory\<close>

text \<open>The comparison stops at the first difference.\<close>

fun c_memcmp :: "u8 list \<Rightarrow> u8 list \<Rightarrow> nat \<Rightarrow> int res" where
  "c_memcmp as bs 0 = Inr 0"
| "c_memcmp (a # as) (b # bs) (Suc n) =
     (if a \<noteq> b then Inr (uint a - uint b) else c_memcmp as bs n)"
| "c_memcmp _ _ (Suc n) = Inl OutOfBounds"

text \<open>Comparing a string with a literal over the length of the string tests for a prefix.\<close>

lemma c_memcmp_prefix:
  "0 \<notin> set s \<Longrightarrow> 0 \<notin> set t \<Longrightarrow>
     \<exists>d. c_memcmp (s @ q) (t @ 0 # r) (length s) = Inr d \<and> (d = 0 \<longleftrightarrow> prefix s t)"
proof (induction s arbitrary: t)
  case Nil
  then show ?case by simp
next
  case (Cons b s)
  then show ?case by (cases t) auto
qed

section \<open>Numbers\<close>

definition is_space :: "u8 \<Rightarrow> bool" where
  "is_space b \<longleftrightarrow> b = 0x20 \<or> (9 \<le> b \<and> b \<le> 13)"

definition digit_val :: "nat \<Rightarrow> u8 \<Rightarrow> nat option" where
  "digit_val base b =
     (let d = if 0x30 \<le> b \<and> b \<le> 0x39 then unat b - 0x30
              else if 0x41 \<le> b \<and> b \<le> 0x46 then unat b - 0x41 + 10
              else if 0x61 \<le> b \<and> b \<le> 0x66 then unat b - 0x61 + 10
              else base
      in if d < base then Some d else None)"

fun scan_digits :: "nat \<Rightarrow> nat \<Rightarrow> u8 list \<Rightarrow> nat \<times> u8 list" where
  "scan_digits base acc [] = (acc, [])"
| "scan_digits base acc (b # bs) =
     (case digit_val base b of
        None \<Rightarrow> (acc, b # bs)
      | Some d \<Rightarrow> scan_digits base (base * acc + d) bs)"

definition scan_sign :: "u8 list \<Rightarrow> bool \<times> u8 list" where
  "scan_sign bs =
     (case bs of
        [] \<Rightarrow> (False, [])
      | b # r \<Rightarrow> if b = 0x2D then (True, r) else if b = 0x2B then (False, r) else (False, bs))"

definition skip_0x :: "u8 list \<Rightarrow> u8 list" where
  "skip_0x bs =
     (case bs of a # b # r \<Rightarrow> if a = 0x30 \<and> (b = 0x78 \<or> b = 0x58) then r else bs | _ \<Rightarrow> bs)"

definition at_digit :: "nat \<Rightarrow> u8 list \<Rightarrow> bool" where
  "at_digit base bs = (case bs of [] \<Rightarrow> False | b # r \<Rightarrow> digit_val base b \<noteq> None)"

text \<open>One numeric conversion: the sign, the value and what follows it; \<open>None\<close> when it fails.\<close>

definition scan_num :: "nat \<Rightarrow> u8 list \<Rightarrow> (bool \<times> nat \<times> u8 list) option" where
  "scan_num base bs =
     (let (neg, bs) = scan_sign (dropWhile is_space bs);
          bs = (if base = 16 then skip_0x bs else bs)
      in if at_digit base bs then let (v, r) = scan_digits base 0 bs in Some (neg, v, r) else None)"

definition to_u16 :: "bool \<Rightarrow> nat \<Rightarrow> u16 res" where
  "to_u16 neg v = (if neg \<and> v \<noteq> 0 \<or> 65536 \<le> v then Inl IntRange else Inr (word_of_nat v))"

text \<open>The values assigned by a sequence of \<open>%hu\<close> (10) and \<open>%hx\<close> (16), up to the first failure.\<close>

fun scan_u16s :: "nat list \<Rightarrow> u8 list \<Rightarrow> u16 list res" where
  "scan_u16s [] bs = Inr []"
| "scan_u16s (base # bases) bs =
     (case scan_num base bs of
        None \<Rightarrow> Inr []
      | Some (neg, v, r) \<Rightarrow>
          rbind (to_u16 neg v) (\<lambda>x. rbind (scan_u16s bases r) (\<lambda>xs. Inr (x # xs))))"

definition c_atoi :: "u8 list \<Rightarrow> int res" where
  "c_atoi buf = rbind (c_strlen buf) (\<lambda>n.
     case scan_num 10 (take n buf) of
       None \<Rightarrow> Inr 0
     | Some (neg, v, r) \<Rightarrow>
         let x = (if neg then - int v else int v) in
         if - (2 ^ 31) \<le> x \<and> x < 2 ^ 31 then Inr x else Inl IntRange)"

section \<open>Words of a line\<close>

text \<open>\<open>%s\<close>: white space is skipped, then at least one other character is taken.\<close>

definition scan_word :: "u8 list \<Rightarrow> (u8 list \<times> u8 list) option" where
  "scan_word bs =
     (let bs = dropWhile is_space bs in
      if bs = [] then None
      else Some (takeWhile (\<lambda>b. \<not> is_space b) bs, dropWhile (\<lambda>b. \<not> is_space b) bs))"

lemma scan_word_eq:
  assumes "list_all is_space sp" and "list_all (\<lambda>b. \<not> is_space b) w" and "w \<noteq> []"
    and "r = [] \<or> is_space (hd r)"
  shows "scan_word (sp @ w @ r) = Some (w, r)"
proof -
  have sp: "dropWhile is_space (sp @ x) = dropWhile is_space x" for x
    using assms(1) by (induction sp) auto
  have "dropWhile is_space (w @ r) = w @ r"
    using assms(2,3) by (cases w) auto
  moreover have "takeWhile (\<lambda>b. \<not> is_space b) (w @ r) = w" "dropWhile (\<lambda>b. \<not> is_space b) (w @ r) = r"
    using assms(2,4) by (induction w) (cases r; auto)+
  ultimately show ?thesis using assms(3) by (simp add: scan_word_def sp)
qed

section \<open>The system\<close>

text \<open>What the system answers to a tool: \<open>mknod\<close>, \<open>open\<close> and \<open>close\<close> of the device, and the files.\<close>

record tool_host =
  host_mknod :: int
  host_open :: int
  host_close :: int
  host_fopen :: "string \<Rightarrow> u8 list option"

text \<open>White space inside a line.\<close>

definition gap :: "u8 list \<Rightarrow> bool" where
  "gap g \<longleftrightarrow> g \<noteq> [] \<and> list_all (\<lambda>b. is_space b \<and> b \<noteq> newline) g"

definition demo_tool_host :: "u8 list \<Rightarrow> tool_host" where
  "demo_tool_host fp = \<lparr>host_mknod = 0, host_open = 3, host_close = 0,
     host_fopen = (\<lambda>name. if name = ''file'' then Some fp else None)\<rparr>"

section \<open>The text of a number\<close>

definition digit_char :: "nat \<Rightarrow> u8" where
  "digit_char d = word_of_nat (if d < 10 then 0x30 + d else 0x37 + d)"

function number_text :: "nat \<Rightarrow> nat \<Rightarrow> u8 list" where
  "number_text base n =
     (if n < base \<or> base < 2 then [digit_char n]
      else number_text base (n div base) @ [digit_char (n mod base)])"
  by pat_completeness auto
termination by (relation "measure snd") auto

declare number_text.simps [simp del]

lemma digit_val_char:
  assumes "d < base" and "base \<le> 16"
  shows "digit_val base (digit_char d) = Some d"
proof -
  have "d < 16" using assms by simp
  then have "d \<in> set [0..<16]" by simp
  then have "digit_val 16 (digit_char d) = Some d"
    by (auto simp: upt_rec [of _ 16] digit_val_def digit_char_def word_le_nat_alt)
  moreover have "digit_val base b = Some d" if "digit_val 16 b = Some d" for b
    using that assms by (auto simp: digit_val_def Let_def split: if_splits)
  ultimately show ?thesis by blast
qed

lemma number_text_nonempty [simp]: "number_text base n \<noteq> []"
  by (subst number_text.simps) simp

text \<open>Every character of a number's text is a digit of the base.\<close>

lemma number_text_digits:
  "2 \<le> base \<Longrightarrow> base \<le> 16 \<Longrightarrow> b \<in> set (number_text base n) \<Longrightarrow> \<exists>d < base. b = digit_char d"
proof (induction base n rule: number_text.induct)
  case (1 base n)
  show ?case
  proof (cases "n < base")
    case True
    with 1 show ?thesis by (subst (asm) (2) number_text.simps) auto
  next
    case False
    with "1.prems" have "b \<in> set (number_text base (n div base)) \<or> b = digit_char (n mod base)"
      by (subst (asm) (1) number_text.simps) auto
    with 1 False show ?thesis by (metis mod_less_divisor not_less zero_less_numeral order_less_le_trans)
  qed
qed

lemma number_text_vals:
  "2 \<le> base \<Longrightarrow> base \<le> 16 \<Longrightarrow> list_all (\<lambda>b. digit_val base b \<noteq> None) (number_text base n)"
  unfolding list_all_iff using number_text_digits [of base] digit_val_char [of _ base]
  by (metis option.distinct(1))

lemma scan_digits_append:
  "list_all (\<lambda>b. digit_val base b \<noteq> None) xs \<Longrightarrow>
     scan_digits base acc (xs @ r) = scan_digits base (fst (scan_digits base acc xs)) r"
  by (induction xs arbitrary: acc) (auto split: option.split)

lemma scan_digits_text:
  assumes "2 \<le> base" and "base \<le> 16"
  shows "scan_digits base acc (number_text base n) = (acc * base ^ length (number_text base n) + n, [])"
  using assms
proof (induction base n arbitrary: acc rule: number_text.induct)
  case (1 base n)
  show ?case
  proof (cases "n < base")
    case True
    then have "number_text base n = [digit_char n]" by (subst number_text.simps) simp
    then show ?thesis using digit_val_char [OF True "1.prems"(2)] by (simp add: mult.commute)
  next
    case False
    then have nt: "number_text base n = number_text base (n div base) @ [digit_char (n mod base)]"
      using "1.prems"(1) by (subst number_text.simps) simp
    have md: "n mod base < base" using "1.prems"(1) by simp
    have dig: "list_all (\<lambda>b. digit_val base b \<noteq> None) (number_text base (n div base))"
      using "1.prems" by (rule number_text_vals)
    have "scan_digits base acc (number_text base n)
        = (base * (acc * base ^ length (number_text base (n div base)) + n div base) + n mod base, [])"
      using "1.IH" [of acc] False "1.prems" digit_val_char [OF md "1.prems"(2)]
      by (simp add: nt scan_digits_append [OF dig])
    also have "base * (acc * base ^ length (number_text base (n div base)) + n div base) + n mod base
        = acc * base ^ length (number_text base n) + n"
      by (simp add: nt algebra_simps)
    finally show ?thesis .
  qed
qed

text \<open>A character of a number's text is neither white space, nor a sign, nor the \<open>x\<close> of a prefix.\<close>

lemma digit_char_other:
  assumes "d < 16"
  shows "\<not> is_space (digit_char d)" and "digit_char d \<notin> {0, 0x2D, 0x2B, 0x78, 0x58, 0x2E, 0x23, newline}"
proof -
  have "d \<in> set [0..<16]" using assms by simp
  then show "\<not> is_space (digit_char d)" and "digit_char d \<notin> {0, 0x2D, 0x2B, 0x78, 0x58, 0x2E, 0x23, newline}"
    by (auto simp: upt_rec [of _ 16] is_space_def digit_char_def word_le_nat_alt newline_def)
qed

lemma number_text_other:
  assumes "2 \<le> base" and "base \<le> 16" and "b \<in> set (number_text base n)"
  shows "\<not> is_space b \<and> b \<notin> {0, 0x2D, 0x2B, 0x78, 0x58, 0x2E, 0x23, newline}"
  using number_text_digits [OF assms] digit_char_other assms(2) by fastforce

lemma space_not_digit: "is_space b \<Longrightarrow> digit_val base b = None"
  by (auto simp: is_space_def digit_val_def word_le_nat_alt)

lemma scan_digits_stop: "r = [] \<or> digit_val base (hd r) = None \<Longrightarrow> scan_digits base acc r = (acc, r)"
  by (cases r) auto

text \<open>Reading the text of a number, behind white space and up to what cannot continue it.\<close>

lemma scan_num_text:
  assumes "list_all is_space sp" and "2 \<le> base" and "base \<le> 16"
    and "r = [] \<or> digit_val base (hd r) = None \<and> hd r \<notin> {0x78, 0x58}"
  shows "scan_num base (sp @ number_text base n @ r) = Some (False, n, r)"
proof -
  obtain b bs where nt: "number_text base n = b # bs"
    using number_text_nonempty [of base n] by (cases "number_text base n") auto
  have in_nt: "\<not> is_space c \<and> c \<notin> {0, 0x2D, 0x2B, 0x78, 0x58, 0x2E, 0x23, newline}"
    if "c \<in> set (b # bs)" for c
    using number_text_other [OF assms(2,3), of c n] that nt by simp
  have sp: "dropWhile is_space (sp @ x) = dropWhile is_space x" for x
    using assms(1) by (induction sp) auto
  have drop: "dropWhile is_space (sp @ number_text base n @ r) = number_text base n @ r"
    using in_nt [of b] by (simp add: sp nt)
  have sign: "scan_sign (number_text base n @ r) = (False, number_text base n @ r)"
    using in_nt [of b] by (simp add: scan_sign_def nt)
  have "c \<noteq> 0x78 \<and> c \<noteq> 0x58" if "bs @ r = c # q" for c q
    using that in_nt assms(4) by (cases bs) auto
  then have hex: "skip_0x (number_text base n @ r) = number_text base n @ r"
    by (simp add: skip_0x_def nt split: list.split)
  let ?x = "number_text base n @ r"
  have "list_all (\<lambda>b. digit_val base b \<noteq> None) (number_text base n)"
    by (rule number_text_vals [OF assms(2,3)])
  moreover have "scan_digits base n r = (n, r)"
    using assms(4) by (intro scan_digits_stop) auto
  ultimately have "scan_digits base 0 (number_text base n @ r) = (n, r)"
    using scan_digits_append [of base "number_text base n" 0 r] scan_digits_text [OF assms(2,3), of 0 n]
    by simp
  moreover have "at_digit base (number_text base n @ r)"
    using number_text_vals [OF assms(2,3), of n] by (simp add: at_digit_def nt)
  moreover have "(if base = 16 then skip_0x ?x else ?x) = ?x" by (simp only: hex if_cancel)
  ultimately show ?thesis unfolding scan_num_def drop sign Let_def prod.case by (simp only: if_True prod.case)
qed

lemma number_text_length: "n < base ^ k \<Longrightarrow> 2 \<le> base \<Longrightarrow> 0 < k \<Longrightarrow> length (number_text base n) \<le> k"
proof (induction base n arbitrary: k rule: number_text.induct)
  case (1 base n)
  show ?case
  proof (cases "n < base")
    case True
    then have "number_text base n = [digit_char n]" by (subst number_text.simps) simp
    with "1.prems"(3) show ?thesis by simp
  next
    case False
    then have nt: "number_text base n = number_text base (n div base) @ [digit_char (n mod base)]"
      using "1.prems"(2) by (subst number_text.simps) simp
    obtain j where j: "k = Suc j" using "1.prems"(3) by (cases k) auto
    have "0 < j" using False "1.prems"(1) j by (cases j) auto
    moreover have "n div base < base ^ j"
      using "1.prems"(1,2) by (simp add: j less_mult_imp_div_less mult.commute)
    ultimately have "length (number_text base (n div base)) \<le> j"
      using "1.IH" [of j] False "1.prems"(2) by simp
    then show ?thesis by (simp add: nt j)
  qed
qed

lemma number_text_longer: "base ^ k \<le> n \<Longrightarrow> 2 \<le> base \<Longrightarrow> k < length (number_text base n)"
proof (induction base n arbitrary: k rule: number_text.induct)
  case (1 base n)
  show ?case
  proof (cases k)
    case 0
    then show ?thesis by simp
  next
    case (Suc j)
    then have big: "base * base ^ j \<le> n" and "base \<le> n"
      using "1.prems" one_le_power [of base j] by (simp_all add: order_trans [of base "base * base ^ j" n])
    then have nt: "number_text base n = number_text base (n div base) @ [digit_char (n mod base)]"
      using "1.prems"(2) by (subst number_text.simps) simp
    have "base ^ j \<le> n div base"
      using big "1.prems"(2) by (simp add: less_eq_div_iff_mult_less_eq mult.commute)
    then show ?thesis using "1.IH" [of j] \<open>base \<le> n\<close> "1.prems"(2) by (simp add: nt Suc)
  qed
qed

lemma u16_text_length: "length (number_text 10 (unat (w :: u16))) \<le> 5" "length (number_text 16 (unat (w :: u16))) \<le> 4"
  using unsigned_less [of w, where ?'a = nat]
  by (intro number_text_length; simp)+

lemma to_u16_text [simp]: "to_u16 False (unat w) = Inr w"
  using unsigned_less [of w, where ?'a = nat] by (simp add: to_u16_def)

end
