(* ===== verification/Usr_WakeupTool.thy ===== *)
theory Usr_WakeupTool
  imports Usr_Libc AR_WakeupIoctl
begin

text \<open>
  The tool that reads a file of wake-up rules and sends them to the wake-up device,
  \<open>usr/ar-wakeup-lib/ar_wakeup_tool.c\<close>.  The device is a parameter of the definitions: the
  locale \<open>rule_device\<close> states what the tool needs of it, and the interpretation at the end
  puts the kernel's \<open>ar_wakeup_interface_ioctl\<close> there.
\<close>

section \<open>State\<close>

text \<open>The global variables of the tool, its output, and the state of the device behind it.\<close>

record 'k wakeup_tool =
  RuleToConfig :: ar_wakeup_tool_e
  udp_param :: auto_res_port_filtering_e
  tcp_param :: auto_res_port_filtering_e
  ar_wakeup_devfd :: int
  console :: "string list"
  device :: 'k

type_synonym 'k ioctl_fn = "u32 \<Rightarrow> wakeup_arg \<Rightarrow> 'k \<Rightarrow> (int \<times> 'k) res"

text \<open>What local variables hold before they are assigned.\<close>

record stack_junk =
  junk_prot :: "nat \<Rightarrow> u8"
  junk_rule :: auto_res_port_filtering_e

definition wakeup_tool_start :: "'k \<Rightarrow> 'k wakeup_tool" where
  "wakeup_tool_start k = \<lparr>RuleToConfig = CONFIG_WAKEUP_NULL, udp_param = zero_port, tcp_param = zero_port,
     ar_wakeup_devfd = - 1, console = [], device = k\<rparr>"

section \<open>Sending to the device\<close>

text \<open>A negative result is only reported on the console.\<close>

definition wakeup_send :: "'k ioctl_fn \<Rightarrow> u32 \<Rightarrow> wakeup_arg \<Rightarrow> string \<Rightarrow> 'k wakeup_tool \<Rightarrow> 'k wakeup_tool res" where
  "wakeup_send dev cmd arg msg st =
     rbind (dev cmd arg (device st)) (\<lambda>(r, k).
     let st = st\<lparr>device := k\<rparr> in
     Inr (if r < 0 then st\<lparr>console := console st @ [msg]\<rparr> else st))"

definition ar_wakeup_process_ip_prot ::
    "'k ioctl_fn \<Rightarrow> stack_junk \<Rightarrow> u8 list \<Rightarrow> 'k wakeup_tool \<Rightarrow> 'k wakeup_tool res" where
  "ar_wakeup_process_ip_prot dev junk line st =
     (let ip_prot = map (junk_prot junk) [0..<10] in
      rbind (c_strlen line) (\<lambda>n.
      rbind (buf_copy ip_prot 0 (take n line)) (\<lambda>ip_prot.
      rbind (buf_set ip_prot n 0) (\<lambda>ip_prot.
      wakeup_send dev (wakeup_cmd CONFIG_WAKEUP_IP_PROTO) (ArgName ip_prot)
        ''Error in sending IP protocol configuration to FM ucode\<newline>'' st))))"

text \<open>The four numbers of a rule; those the line does not give keep what the variables held.\<close>

definition scanned_rule :: "auto_res_port_filtering_e \<Rightarrow> u16 list \<Rightarrow> auto_res_port_filtering_e" where
  "scanned_rule junk xs =
     \<lparr>src_port = (if 0 < length xs then xs ! 0 else src_port junk),
      dst_port = (if 1 < length xs then xs ! 1 else dst_port junk),
      src_port_mask = (if 2 < length xs then xs ! 2 else src_port_mask junk),
      dst_port_mask = (if 3 < length xs then xs ! 3 else dst_port_mask junk)\<rparr>"

definition sscanf_rule :: "auto_res_port_filtering_e \<Rightarrow> u8 list \<Rightarrow> auto_res_port_filtering_e res" where
  "sscanf_rule junk line =
     rbind (c_strlen line) (\<lambda>n.
     rbind (scan_u16s [10, 10, 16, 16] (take n line)) (\<lambda>xs.
     Inr (scanned_rule junk xs)))"

definition ar_wakeup_process_tcp_param ::
    "'k ioctl_fn \<Rightarrow> stack_junk \<Rightarrow> u8 list \<Rightarrow> 'k wakeup_tool \<Rightarrow> 'k wakeup_tool res" where
  "ar_wakeup_process_tcp_param dev junk line st =
     rbind (sscanf_rule (junk_rule junk) line) (\<lambda>r.
     let st = st\<lparr>tcp_param := r\<rparr> in
     wakeup_send dev (wakeup_cmd CONFIG_WAKEUP_TCP_RULE) (ArgPort (tcp_param st))
       ''Error in sending TCP configuration to FM ucode\<newline>'' st)"

definition ar_wakeup_process_udp_param ::
    "'k ioctl_fn \<Rightarrow> stack_junk \<Rightarrow> u8 list \<Rightarrow> 'k wakeup_tool \<Rightarrow> 'k wakeup_tool res" where
  "ar_wakeup_process_udp_param dev junk line st =
     rbind (sscanf_rule (junk_rule junk) line) (\<lambda>r.
     let st = st\<lparr>udp_param := r\<rparr> in
     wakeup_send dev (wakeup_cmd CONFIG_WAKEUP_UDP_RULE) (ArgPort (udp_param st))
       ''Error in sending UDP configuration to FM ucode\<newline>'' st)"

section \<open>Lines and files\<close>

text \<open>The lines that open a section are compared over the length of the line read.\<close>

definition line_is :: "u8 list \<Rightarrow> string \<Rightarrow> bool res" where
  "line_is line header =
     rbind (c_strlen line) (\<lambda>n. rbind (c_memcmp line (cstr header) n) (\<lambda>d. Inr (d = 0)))"

definition ar_wakeup_process_line ::
    "'k ioctl_fn \<Rightarrow> stack_junk \<Rightarrow> u8 list \<Rightarrow> 'k wakeup_tool \<Rightarrow> 'k wakeup_tool res" where
  "ar_wakeup_process_line dev junk line st =
     rbind (line_is line ''#Protocol list\<newline>'') (\<lambda>is_prot.
     if is_prot then Inr (st\<lparr>RuleToConfig := CONFIG_WAKEUP_IP_PROTO\<rparr>)
     else rbind (line_is line ''#TCP rules\<newline>'') (\<lambda>is_tcp.
     if is_tcp then Inr (st\<lparr>RuleToConfig := CONFIG_WAKEUP_TCP_RULE\<rparr>)
     else rbind (line_is line ''#UDP rules\<newline>'') (\<lambda>is_udp.
     if is_udp then Inr (st\<lparr>RuleToConfig := CONFIG_WAKEUP_UDP_RULE\<rparr>)
     else rbind (buf_get line 0) (\<lambda>c.
     if c = 0x23 then Inr st
     else case RuleToConfig st of
            CONFIG_WAKEUP_IP_PROTO \<Rightarrow> ar_wakeup_process_ip_prot dev junk line st
          | CONFIG_WAKEUP_TCP_RULE \<Rightarrow> ar_wakeup_process_tcp_param dev junk line st
          | CONFIG_WAKEUP_UDP_RULE \<Rightarrow> ar_wakeup_process_udp_param dev junk line st
          | _ \<Rightarrow> Inr (st\<lparr>console := console st @ [''File reached End of the file\<newline>'']\<rparr>)))))"

text \<open>
  The loop over the file: \<open>fp\<close> is what is left of it, and what the stack holds may differ from
  line to line.  Every turn reads at least one byte.
\<close>

function ar_wakeup_process_file ::
    "'k ioctl_fn \<Rightarrow> (nat \<Rightarrow> stack_junk) \<Rightarrow> u8 list \<Rightarrow> 'k wakeup_tool \<Rightarrow> 'k wakeup_tool res" where
  "ar_wakeup_process_file dev junk fp st =
     (case fgets 100 fp of
        None \<Rightarrow> Inr st
      | Some (line, fp') \<Rightarrow>
          rbind (ar_wakeup_process_line dev (junk (length fp')) line st) (\<lambda>st.
          ar_wakeup_process_file dev junk fp' st))"
  by pat_completeness auto
termination
  by (relation "measure (\<lambda>(dev, junk, fp, st). length fp)") (auto dest: fgets_shorter)

declare ar_wakeup_process_file.simps [simp del]

section \<open>The program\<close>

definition ar_wakeup_dev_open :: "tool_host \<Rightarrow> 'k wakeup_tool \<Rightarrow> int \<times> 'k wakeup_tool" where
  "ar_wakeup_dev_open host st =
     (if host_mknod host < 0 then
        (- 1, st\<lparr>console := console st @ [''ar_wakeup_tool.c:ar_wakeup_dev_open: Unable to create device node\<newline>'']\<rparr>)
      else let st = st\<lparr>ar_wakeup_devfd := host_open host\<rparr> in
           if ar_wakeup_devfd st < 0 then
             (ar_wakeup_devfd st,
              st\<lparr>console := console st @ [''ar_wakeup_tool.c:ar_wakeup_dev_open: Unable to open device\<newline>'']\<rparr>)
           else (0, st))"

definition ar_wakeup_dev_close :: "tool_host \<Rightarrow> int" where
  "ar_wakeup_dev_close host = host_close host"

text \<open>The result of \<open>fopen\<close> is not looked at: a file that cannot be read is a NULL stream.\<close>

definition ar_wakeup_main ::
    "tool_host \<Rightarrow> 'k ioctl_fn \<Rightarrow> (nat \<Rightarrow> stack_junk) \<Rightarrow> string list \<Rightarrow> 'k wakeup_tool \<Rightarrow> (int \<times> 'k wakeup_tool) res" where
  "ar_wakeup_main host dev junk argv st =
     (if length argv = 1 then Inr (- 1, st\<lparr>console := console st @ [''Input file required\<newline>'']\<rparr>)
      else if 2 < length argv then Inr (- 1, st\<lparr>console := console st @ [''Entered more than one file\<newline>'']\<rparr>)
      else let (retcode, st) = ar_wakeup_dev_open host st in
        if retcode < 0 then
          Inr (retcode, st\<lparr>console := console st @ [''Error in opening the device ar_wakeup_devfd\<newline>'']\<rparr>)
        else rbind (buf_get argv 1) (\<lambda>name.
          case host_fopen host name of
            None \<Rightarrow> Inl NullDeref
          | Some fp \<Rightarrow>
              rbind (ar_wakeup_process_file dev junk fp st) (\<lambda>st.
              let retcode = ar_wakeup_dev_close host in
              if retcode < 0 then
                Inr (retcode, st\<lparr>console := console st @ [''Error in closing the device\<newline>'']\<rparr>)
              else Inr (0, st))))"

section \<open>What a rule file means\<close>

text \<open>
  The lines of a rule file: the opening of a section, a comment, a protocol name, and a rule
  with the white space between its numbers.
\<close>

datatype cfg_line =
    Section ar_wakeup_tool_e
  | Note "u8 list"
  | Name "u8 list"
  | Rule "u8 list" "u8 list" "u8 list" auto_res_port_filtering_e

primrec section_text :: "ar_wakeup_tool_e \<Rightarrow> string" where
  "section_text CONFIG_WAKEUP_NULL = []"
| "section_text CONFIG_WAKEUP_UDP_RULE = ''#UDP rules''"
| "section_text CONFIG_WAKEUP_TCP_RULE = ''#TCP rules''"
| "section_text CONFIG_WAKEUP_TCP_MASK = []"
| "section_text CONFIG_WAKEUP_IP_PROTO = ''#Protocol list''"

primrec cfg_text :: "cfg_line \<Rightarrow> u8 list" where
  "cfg_text (Section k) = bytes_of (section_text k)"
| "cfg_text (Note s) = 0x23 # s"
| "cfg_text (Name s) = s"
| "cfg_text (Rule g1 g2 g3 r) =
     number_text 10 (unat (src_port r)) @ g1 @ number_text 10 (unat (dst_port r)) @ g2 @
     number_text 16 (unat (src_port_mask r)) @ g3 @ number_text 16 (unat (dst_port_mask r))"

definition cfg_file :: "cfg_line list \<Rightarrow> u8 list" where
  "cfg_file ls = concat (map (\<lambda>l. cfg_text l @ [newline]) ls)"

definition sections :: "ar_wakeup_tool_e list" where
  "sections = [CONFIG_WAKEUP_IP_PROTO, CONFIG_WAKEUP_TCP_RULE, CONFIG_WAKEUP_UDP_RULE]"

text \<open>Lines the tool reads whole and takes for what they are, in the section \<open>k\<close>.\<close>

definition cfg_line_ok :: "ar_wakeup_tool_e \<Rightarrow> cfg_line \<Rightarrow> bool" where
  "cfg_line_ok k l \<longleftrightarrow>
     length (cfg_text l) < 99 \<and> newline \<notin> set (cfg_text l) \<and> 0 \<notin> set (cfg_text l) \<and>
     (case l of
        Section k' \<Rightarrow> k' \<in> set sections
      | Note s \<Rightarrow> 0x23 # s \<notin> (\<lambda>k. bytes_of (section_text k)) ` set sections
      | Name s \<Rightarrow> k = CONFIG_WAKEUP_IP_PROTO \<and> length s < 9 \<and> (s = [] \<or> hd s \<noteq> 0x23)
      | Rule g1 g2 g3 r \<Rightarrow> k \<in> {CONFIG_WAKEUP_TCP_RULE, CONFIG_WAKEUP_UDP_RULE} \<and> gap g1 \<and> gap g2 \<and> gap g3)"

primrec cfg_section :: "ar_wakeup_tool_e \<Rightarrow> cfg_line \<Rightarrow> ar_wakeup_tool_e" where
  "cfg_section k (Section k') = k'"
| "cfg_section k (Note s) = k"
| "cfg_section k (Name s) = k"
| "cfg_section k (Rule g1 g2 g3 r) = k"

primrec cfg_cmd :: "ar_wakeup_tool_e \<Rightarrow> cfg_line \<Rightarrow> (u32 \<times> wakeup_arg) list" where
  "cfg_cmd k (Section k') = []"
| "cfg_cmd k (Note s) = []"
| "cfg_cmd k (Name s) = [(wakeup_cmd CONFIG_WAKEUP_IP_PROTO, ArgName (s @ [newline, 0]))]"
| "cfg_cmd k (Rule g1 g2 g3 r) = [(wakeup_cmd k, ArgPort r)]"

fun cfg_ok :: "ar_wakeup_tool_e \<Rightarrow> cfg_line list \<Rightarrow> bool" where
  "cfg_ok k [] \<longleftrightarrow> True"
| "cfg_ok k (l # ls) \<longleftrightarrow> cfg_line_ok k l \<and> cfg_ok (cfg_section k l) ls"

fun cfg_cmds :: "ar_wakeup_tool_e \<Rightarrow> cfg_line list \<Rightarrow> (u32 \<times> wakeup_arg) list" where
  "cfg_cmds k [] = []"
| "cfg_cmds k (l # ls) = cfg_cmd k l @ cfg_cmds (cfg_section k l) ls"

section \<open>Reading one line\<close>

lemma line_is_prefix:
  assumes "0 \<notin> set s" and "CHR 0x00 \<notin> set h"
  shows "line_is (s @ 0 # r) h = Inr (prefix s (bytes_of h))"
proof -
  have "0 \<notin> set (bytes_of h)" using assms(2) by simp
  from c_memcmp_prefix [OF assms(1) this, of "0 # r" "[]"] assms(1) show ?thesis
    by (auto simp: line_is_def cstr_def)
qed

text \<open>A whole line is the prefix of a header only when it is the header.\<close>

lemma prefix_header:
  assumes "newline \<notin> set s" and "newline \<notin> set h"
  shows "prefix (s @ [newline]) (h @ [newline]) \<longleftrightarrow> s = h"
proof
  assume "prefix (s @ [newline]) (h @ [newline])"
  then obtain r where "h @ [newline] = s @ newline # r" by (auto elim: prefixE)
  then show "s = h" using assms by (auto simp: append_eq_append_conv2 append_eq_Cons_conv Cons_eq_append_conv)
qed simp

lemma section_text_plain:
  "k \<in> set sections \<Longrightarrow> newline \<notin> set (bytes_of (section_text k)) \<and> CHR 0x00 \<notin> set (section_text k) \<and>
     hd (bytes_of (section_text k)) = 0x23 \<and> section_text k \<noteq> []"
  by (auto simp: sections_def bytes_of_def newline_def)

lemma line_is_section:
  assumes "newline \<notin> set s" and "0 \<notin> set s" and "k \<in> set sections"
  shows "line_is (s @ [newline, 0]) (section_text k @ ''\<newline>'') = Inr (s = bytes_of (section_text k))"
proof -
  have "bytes_of (section_text k @ ''\<newline>'') = bytes_of (section_text k) @ [newline]"
    by (simp add: bytes_of_def newline_def)
  then show ?thesis
    using line_is_prefix [of "s @ [newline]" "section_text k @ ''\<newline>''" "[]"] section_text_plain [OF assms(3)]
      assms prefix_header [OF assms(1), of "bytes_of (section_text k)"]
    by (simp add: newline_def)
qed

text \<open>The four numbers of a rule come back.\<close>

lemma scan_rule_text:
  assumes "gap g1" and "gap g2" and "gap g3"
  shows "scan_u16s [10, 10, 16, 16] (cfg_text (Rule g1 g2 g3 r) @ [newline]) =
    Inr [src_port r, dst_port r, src_port_mask r, dst_port_mask r]"
proof -
  have sp: "list_all is_space g" if "gap g" for g
    using that by (auto simp: gap_def list_all_iff)
  have stop: "digit_val b (hd (g @ x)) = None \<and> hd (g @ x) \<notin> {0x78, 0x58}" if "gap g" for g x b
    using that space_not_digit [of "hd g"] by (cases g) (auto simp: gap_def is_space_def)
  have nl: "digit_val b newline = None" "newline \<noteq> 0x78" "newline \<noteq> 0x58" for b
    using space_not_digit [of newline b] by (simp_all add: newline_def is_space_def)
  note [simp] = scan_num_text [of "[]", simplified]
  show ?thesis
    using scan_num_text [OF sp] stop assms by (simp add: nl)
qed

lemma line_headers:
  assumes "newline \<notin> set s" and "0 \<notin> set s"
  shows "line_is (s @ [newline, 0]) ''#Protocol list\<newline>'' = Inr (s = bytes_of ''#Protocol list'')"
    and "line_is (s @ [newline, 0]) ''#TCP rules\<newline>'' = Inr (s = bytes_of ''#TCP rules'')"
    and "line_is (s @ [newline, 0]) ''#UDP rules\<newline>'' = Inr (s = bytes_of ''#UDP rules'')"
  using line_is_section [OF assms, of CONFIG_WAKEUP_IP_PROTO] line_is_section [OF assms, of CONFIG_WAKEUP_TCP_RULE]
    line_is_section [OF assms, of CONFIG_WAKEUP_UDP_RULE]
  by (simp_all add: sections_def)

lemma headers_differ:
  "bytes_of ''#TCP rules'' \<noteq> bytes_of ''#Protocol list''" "bytes_of ''#UDP rules'' \<noteq> bytes_of ''#Protocol list''"
  "bytes_of ''#UDP rules'' \<noteq> bytes_of ''#TCP rules''"
  by (simp_all add: bytes_of_def)

lemma process_section_line:
  assumes "cfg_line_ok k (Section k')"
  shows "ar_wakeup_process_line dev junk (cfg_text (Section k') @ [newline, 0]) st = Inr (st\<lparr>RuleToConfig := k'\<rparr>)"
  using assms line_headers [of "bytes_of (section_text k')"] headers_differ
  by (auto simp: cfg_line_ok_def ar_wakeup_process_line_def sections_def)

lemma process_note_line:
  assumes "cfg_line_ok k (Note s)"
  shows "ar_wakeup_process_line dev junk (cfg_text (Note s) @ [newline, 0]) st = Inr st"
  using assms line_headers [of "0x23 # s"]
  by (auto simp: cfg_line_ok_def ar_wakeup_process_line_def sections_def)

text \<open>A line that is neither a header nor a comment goes to the section's function.\<close>

lemma process_other_line:
  assumes "newline \<notin> set s" and "0 \<notin> set s" and "s = [] \<or> hd s \<noteq> 0x23"
  shows "ar_wakeup_process_line dev junk (s @ [newline, 0]) st =
    (case RuleToConfig st of
       CONFIG_WAKEUP_IP_PROTO \<Rightarrow> ar_wakeup_process_ip_prot dev junk (s @ [newline, 0]) st
     | CONFIG_WAKEUP_TCP_RULE \<Rightarrow> ar_wakeup_process_tcp_param dev junk (s @ [newline, 0]) st
     | CONFIG_WAKEUP_UDP_RULE \<Rightarrow> ar_wakeup_process_udp_param dev junk (s @ [newline, 0]) st
     | _ \<Rightarrow> Inr (st\<lparr>console := console st @ [''File reached End of the file\<newline>'']\<rparr>))"
proof -
  have ne: "s \<noteq> bytes_of ''#Protocol list''" "s \<noteq> bytes_of ''#TCP rules''" "s \<noteq> bytes_of ''#UDP rules''"
    using assms(3) by (auto simp: bytes_of_def)
  have hd: "(s @ [newline, 0]) ! 0 \<noteq> 0x23" using assms(3) by (cases s) (auto simp: newline_def)
  have "buf_get (s @ [newline, 0]) 0 = Inr ((s @ [newline, 0]) ! 0)" by (rule buf_get_in) simp
  with hd show ?thesis
    unfolding ar_wakeup_process_line_def line_headers [OF assms(1,2)]
    by (simp add: ne del: buf_get_in)
qed

text \<open>The ten bytes of \<open>ip_prot\<close> hold the line and its NUL when the line has at most nine.\<close>

lemma process_ip_prot_short:
  assumes "0 \<notin> set l" and "length l < 10"
  shows "\<exists>buf. has_nul buf \<and> cstr_val buf = l \<and>
    ar_wakeup_process_ip_prot dev junk (l @ [0]) st =
      wakeup_send dev (wakeup_cmd CONFIG_WAKEUP_IP_PROTO) (ArgName buf)
        ''Error in sending IP protocol configuration to FM ucode\<newline>'' st"
proof -
  define old where "old = map (junk_prot junk) [0..<10]"
  have [simp]: "length old = 10" by (simp add: old_def)
  let ?b = "l @ drop (length l) old"
  have cp: "buf_copy old 0 (take (length l) (l @ [0])) = Inr ?b"
    using assms(2) by (simp add: buf_copy_def)
  have st: "buf_set ?b (length l) 0 = Inr (?b[length l := 0])"
    using assms(2) by (intro buf_set_in) simp
  obtain x xs where "drop (length l) old = x # xs"
    using assms(2) by (cases "drop (length l) old") auto
  then have upd: "?b[length l := 0] = l @ 0 # xs" by (simp add: list_update_append)
  show ?thesis
    using assms(1) cp st
    by (intro exI [of _ "l @ 0 # xs"]) (simp add: ar_wakeup_process_ip_prot_def old_def [symmetric] Let_def upd)
qed

lemma process_ip_prot_long:
  assumes "0 \<notin> set l" and "10 \<le> length l"
  shows "ar_wakeup_process_ip_prot dev junk (l @ [0]) st = Inl OutOfBounds"
proof -
  have "rbind (buf_copy (map (junk_prot junk) [0..<10]) 0 l) (\<lambda>b. rbind (buf_set b (length l) 0) f) = Inl OutOfBounds" for f
    using assms(2) by (cases "length l = 10") (auto simp: buf_copy_def)
  then show ?thesis using assms(1) by (simp add: ar_wakeup_process_ip_prot_def Let_def)
qed

lemma sscanf_rule_text:
  assumes "cfg_line_ok k (Rule g1 g2 g3 r)"
  shows "sscanf_rule junk (cfg_text (Rule g1 g2 g3 r) @ [newline, 0]) = Inr r"
proof -
  let ?l = "cfg_text (Rule g1 g2 g3 r) @ [newline]"
  have g: "gap g1" "gap g2" "gap g3" and z: "0 \<notin> set ?l"
    using assms by (auto simp: cfg_line_ok_def newline_def)
  have "c_strlen (?l @ [0]) = Inr (length ?l)" using z by (rule c_strlen_append_nul)
  moreover have "scan_u16s [10, 10, 16, 16] (take (length ?l) (?l @ [0]))
      = Inr [src_port r, dst_port r, src_port_mask r, dst_port_mask r]"
    using scan_rule_text [OF g, of r] by (simp del: cfg_text.simps scan_u16s.simps)
  ultimately show ?thesis
    by (simp add: sscanf_rule_def scanned_rule_def del: cfg_text.simps scan_u16s.simps)
qed

lemma rule_text_hd: "cfg_text (Rule g1 g2 g3 r) = [] \<or> hd (cfg_text (Rule g1 g2 g3 r)) \<noteq> 0x23"
proof -
  obtain b bs where nt: "number_text 10 (unat (src_port r)) = b # bs"
    using number_text_nonempty by (cases "number_text 10 (unat (src_port r))") auto
  then show ?thesis using number_text_other [of 10 b "unat (src_port r)"] by simp
qed

section \<open>The device, as the tool needs it\<close>

text \<open>
  A request the device accepts is carried out: \<open>follows k cs k'\<close> says that \<open>k'\<close> is what the
  requests \<open>cs\<close> make of \<open>k\<close>.  Of a name only the characters before the NUL matter.
\<close>

locale rule_device =
  fixes dev :: "u32 \<Rightarrow> wakeup_arg \<Rightarrow> 'k \<Rightarrow> (int \<times> 'k) res"
    and wf :: "'k \<Rightarrow> bool"
    and follows :: "'k \<Rightarrow> (u32 \<times> wakeup_arg) list \<Rightarrow> 'k \<Rightarrow> bool"
    and accepts :: "u32 \<times> wakeup_arg \<Rightarrow> bool"
  assumes step: "wf k \<Longrightarrow> accepts (cmd, arg) \<Longrightarrow>
      \<exists>r k'. dev cmd arg k = Inr (r, k') \<and> wf k' \<and> follows k [(cmd, arg)] k'"
    and until_nul: "has_nul a \<Longrightarrow> has_nul b \<Longrightarrow> cstr_val a = cstr_val b \<Longrightarrow>
      dev cmd (ArgName a) k = dev cmd (ArgName b) k"
    and follows_none: "wf k \<Longrightarrow> follows k [] k"
    and follows_then: "follows k cs k1 \<Longrightarrow> follows k1 ds k2 \<Longrightarrow> follows k (cs @ ds) k2"
begin

lemma send_follows:
  assumes "wf (device st)" and "accepts (cmd, arg)"
  shows "\<exists>st'. wakeup_send dev cmd arg msg st = Inr st' \<and> wf (device st') \<and>
    follows (device st) [(cmd, arg)] (device st') \<and> RuleToConfig st' = RuleToConfig st"
  using step [OF assms] by (auto simp: wakeup_send_def Let_def)

lemma process_name_line:
  assumes ok: "cfg_line_ok (RuleToConfig st) (Name s)" and wf: "wf (device st)"
    and acc: "list_all accepts (cfg_cmd (RuleToConfig st) (Name s))"
  shows "\<exists>st'. ar_wakeup_process_line dev junk (cfg_text (Name s) @ [newline, 0]) st = Inr st' \<and>
    wf (device st') \<and> follows (device st) (cfg_cmd (RuleToConfig st) (Name s)) (device st') \<and>
    RuleToConfig st' = RuleToConfig st"
proof -
  let ?msg = "''Error in sending IP protocol configuration to FM ucode\<newline>''" and ?c = "wakeup_cmd CONFIG_WAKEUP_IP_PROTO"
  have s: "newline \<notin> set s" "0 \<notin> set s" "s = [] \<or> hd s \<noteq> 0x23" "length s < 9"
    "RuleToConfig st = CONFIG_WAKEUP_IP_PROTO"
    using ok by (auto simp: cfg_line_ok_def)
  have l: "0 \<notin> set (s @ [newline])" using s(2) by (simp add: newline_def)
  obtain buf where buf: "has_nul buf" "cstr_val buf = s @ [newline]"
    "ar_wakeup_process_ip_prot dev junk ((s @ [newline]) @ [0]) st = wakeup_send dev ?c (ArgName buf) ?msg st"
    using process_ip_prot_short [OF l, of dev junk st] s(4) by auto
  have "cstr_val (s @ [newline, 0]) = s @ [newline]" and "has_nul (s @ [newline, 0])"
    using cstr_val_append_nul [OF l, of "[]"] by simp_all
  then have "dev ?c (ArgName buf) = dev ?c (ArgName (s @ [newline, 0]))"
    using until_nul [of buf "s @ [newline, 0]"] buf(1,2) by (intro ext) simp
  then have "ar_wakeup_process_line dev junk (cfg_text (Name s) @ [newline, 0]) st
      = wakeup_send dev ?c (ArgName (s @ [newline, 0])) ?msg st"
    using buf(3) process_other_line [OF s(1-3), of dev junk st] s(5) by (simp add: wakeup_send_def)
  with send_follows [OF wf, of ?c "ArgName (s @ [newline, 0])"] acc show ?thesis by simp
qed

lemma process_rule_line:
  assumes ok: "cfg_line_ok (RuleToConfig st) (Rule g1 g2 g3 r)" and wf: "wf (device st)"
    and acc: "list_all accepts (cfg_cmd (RuleToConfig st) (Rule g1 g2 g3 r))"
  shows "\<exists>st'. ar_wakeup_process_line dev junk (cfg_text (Rule g1 g2 g3 r) @ [newline, 0]) st = Inr st' \<and>
    wf (device st') \<and> follows (device st) (cfg_cmd (RuleToConfig st) (Rule g1 g2 g3 r)) (device st') \<and>
    RuleToConfig st' = RuleToConfig st"
proof -
  let ?s = "cfg_text (Rule g1 g2 g3 r)"
  have s: "newline \<notin> set ?s" "0 \<notin> set ?s"
    "RuleToConfig st = CONFIG_WAKEUP_TCP_RULE \<or> RuleToConfig st = CONFIG_WAKEUP_UDP_RULE"
    using ok by (simp_all add: cfg_line_ok_def del: cfg_text.simps)
  note line = process_other_line [OF s(1,2) rule_text_hd, of dev junk st]
  note [simp] = sscanf_rule_text [OF ok]
  note upd = send_follows [of "st\<lparr>tcp_param := r\<rparr>"] send_follows [of "st\<lparr>udp_param := r\<rparr>"]
  from s(3) show ?thesis
  proof
    assume "RuleToConfig st = CONFIG_WAKEUP_TCP_RULE"
    then show ?thesis
      using line upd(1) wf acc by (simp add: ar_wakeup_process_tcp_param_def del: cfg_text.simps)
  next
    assume "RuleToConfig st = CONFIG_WAKEUP_UDP_RULE"
    then show ?thesis
      using line upd(2) wf acc by (simp add: ar_wakeup_process_udp_param_def del: cfg_text.simps)
  qed
qed

lemma process_cfg_line:
  assumes "cfg_line_ok (RuleToConfig st) l" and "wf (device st)"
    and "list_all accepts (cfg_cmd (RuleToConfig st) l)"
  shows "\<exists>st'. ar_wakeup_process_line dev junk (cfg_text l @ [newline, 0]) st = Inr st' \<and>
    wf (device st') \<and> follows (device st) (cfg_cmd (RuleToConfig st) l) (device st') \<and>
    RuleToConfig st' = cfg_section (RuleToConfig st) l"
proof (cases l)
  case (Section k')
  with assms show ?thesis using process_section_line follows_none by fastforce
next
  case (Note s)
  with assms show ?thesis using process_note_line follows_none by fastforce
next
  case (Name s)
  with assms show ?thesis using process_name_line by simp
next
  case (Rule g1 g2 g3 r)
  with assms show ?thesis using process_rule_line by simp
qed

text \<open>The whole file: the requests of its lines, in order.\<close>

lemma process_cfg_file:
  assumes "cfg_ok (RuleToConfig st) ls" and "wf (device st)"
    and "list_all accepts (cfg_cmds (RuleToConfig st) ls)"
  shows "\<exists>st'. ar_wakeup_process_file dev junk (cfg_file ls) st = Inr st' \<and> wf (device st') \<and>
    follows (device st) (cfg_cmds (RuleToConfig st) ls) (device st')"
  using assms
proof (induction ls arbitrary: st)
  case Nil
  then show ?case using follows_none
    by (subst ar_wakeup_process_file.simps) (simp add: cfg_file_def fgets_def)
next
  case (Cons l ls)
  let ?k = "RuleToConfig st"
  have ok: "cfg_line_ok ?k l" "cfg_ok (cfg_section ?k l) ls" using Cons.prems(1) by auto
  then have "newline \<notin> set (cfg_text l)" and "length (cfg_text l) < 100 - 1"
    by (auto simp: cfg_line_ok_def)
  from fgets_whole [OF this, of "cfg_file ls"]
  have read: "fgets 100 (cfg_file (l # ls)) = Some (cfg_text l @ [newline, 0], cfg_file ls)"
    by (simp add: cfg_file_def)
  obtain st1 where st1: "ar_wakeup_process_line dev (junk (length (cfg_file ls))) (cfg_text l @ [newline, 0]) st = Inr st1"
    "wf (device st1)" "follows (device st) (cfg_cmd ?k l) (device st1)" "RuleToConfig st1 = cfg_section ?k l"
    using process_cfg_line [OF ok(1) Cons.prems(2)] Cons.prems(3) by auto
  obtain st2 where "ar_wakeup_process_file dev junk (cfg_file ls) st1 = Inr st2" "wf (device st2)"
    "follows (device st1) (cfg_cmds (cfg_section ?k l) ls) (device st2)"
    using Cons.IH [of st1] st1(2,4) ok(2) Cons.prems(3) by auto
  with st1 read follows_then [OF st1(3)] show ?case
    by (subst ar_wakeup_process_file.simps) auto
qed

end

section \<open>The kernel's device\<close>

text \<open>The memory of the tool during the call: the argument at one address.\<close>

definition tool_mem :: "wakeup_arg \<Rightarrow> wakeup_user_mem" where
  "tool_mem arg = \<lparr>um_bytes = (\<lambda>p. case arg of ArgName b \<Rightarrow> b | _ \<Rightarrow> []), um_access = (\<lambda>p. True),
     um_port = (\<lambda>p. case arg of ArgPort r \<Rightarrow> Some r | _ \<Rightarrow> None)\<rparr>"

text \<open>The call reaches the kernel, which has memory for its buffer.\<close>

definition wakeup_device :: "wakeup_state ioctl_fn" where
  "wakeup_device cmd arg s = ar_wakeup_interface_ioctl (tool_mem arg) (\<lambda>i. True) cmd 0x1000 s"

text \<open>Requests of the tool the kernel's contract covers.\<close>

definition tool_accepts :: "u32 \<times> wakeup_arg \<Rightarrow> bool" where
  "tool_accepts ca \<longleftrightarrow> config_ok ca \<and>
     (case snd ca of
        ArgNull \<Rightarrow> False
      | ArgName b \<Rightarrow> fst ca = wakeup_cmd CONFIG_WAKEUP_IP_PROTO \<and> length (cstr_val b) < 10
      | ArgPort r \<Rightarrow> fst ca \<in> {wakeup_cmd CONFIG_WAKEUP_UDP_RULE, wakeup_cmd CONFIG_WAKEUP_TCP_RULE})"

lemma bytes_of_surj: "\<exists>s. b = bytes_of s"
proof -
  have "(of_char (char_of (unat x)) :: u8) = x" for x :: u8
  proof -
    have "(of_char (char_of (unat x)) :: u8) = word_of_nat (of_char (char_of (unat x) :: char))"
      by (simp only: of_nat_of_char)
    also have "\<dots> = word_of_nat (unat x mod 256)" by simp
    also have "\<dots> = x" using unsigned_less [of x, where ?'a = nat] by simp
    finally show ?thesis .
  qed
  then have "b = bytes_of (map (\<lambda>x. char_of (unat x)) b)" by (simp add: bytes_of_def comp_def)
  then show ?thesis by blast
qed

lemma cstr_val_split: "has_nul b \<Longrightarrow> \<exists>r. b = cstr_val b @ 0 # r"
  by (induction b) auto

lemma take_cstr_val: "has_nul b \<Longrightarrow> take (length (cstr_val b)) b = cstr_val b"
  by (induction b) auto

lemma kernel_name:
  assumes "has_nul b" and "length (cstr_val b) < 10"
  shows "wakeup_device (wakeup_cmd CONFIG_WAKEUP_IP_PROTO) (ArgName b) s =
    ar_wakeup_recv_config (wakeup_cmd CONFIG_WAKEUP_IP_PROTO) (ArgName b) s"
proof -
  obtain l where l: "cstr_val b = bytes_of l" using bytes_of_surj by blast
  obtain r where r: "b = bytes_of l @ 0 # r" using cstr_val_split [OF assms(1)] l by auto
  have z: "CHR 0x00 \<notin> set l" using nul_notin_cstr_val [of b] by (simp add: l)
  have len: "length l < 10" using assms(2) l by simp
  have "ioctl_ip_proto (tool_mem (ArgName b)) (\<lambda>i. True) (wakeup_cmd CONFIG_WAKEUP_IP_PROTO) 0x1000 s
      = ar_wakeup_recv_config (wakeup_cmd CONFIG_WAKEUP_IP_PROTO) (ArgName (cstr l)) s"
    by (rule ip_proto_short [where r = r]) (simp_all add: tool_mem_def r z len)
  then have "wakeup_device (wakeup_cmd CONFIG_WAKEUP_IP_PROTO) (ArgName b) s =
      ar_wakeup_recv_config (wakeup_cmd CONFIG_WAKEUP_IP_PROTO) (ArgName (cstr l)) s"
    by (simp add: wakeup_device_def ar_wakeup_interface_ioctl_def)
  moreover have "cstr_val (cstr l) = cstr_val b" using z l by simp
  ultimately show ?thesis using recv_config_cstr [of "cstr l" b] assms(1) by simp
qed

lemma kernel_port:
  assumes "cmd \<in> {wakeup_cmd CONFIG_WAKEUP_UDP_RULE, wakeup_cmd CONFIG_WAKEUP_TCP_RULE}"
  shows "wakeup_device cmd (ArgPort r) s = ar_wakeup_recv_config cmd (ArgPort r) s"
  using assms
  by (auto simp: wakeup_device_def ar_wakeup_interface_ioctl_def ioctl_port_rule_def copy_port_def tool_mem_def)

lemma kernel_accepts:
  assumes "tool_accepts (cmd, arg)"
  shows "wakeup_device cmd arg s = ar_wakeup_recv_config cmd arg s"
proof (cases arg)
  case ArgNull
  with assms show ?thesis by (simp add: tool_accepts_def)
next
  case (ArgPort r)
  with assms show ?thesis by (simp add: tool_accepts_def kernel_port)
next
  case (ArgName b)
  with assms show ?thesis by (auto simp: tool_accepts_def config_ok_def prot_valid_def kernel_name [simplified])
qed

lemma kernel_until_nul:
  assumes "has_nul a" and "has_nul b" and "cstr_val a = cstr_val b"
  shows "wakeup_device cmd (ArgName a) s = wakeup_device cmd (ArgName b) s"
proof -
  have tk: "take (length (cstr_val a)) a = cstr_val a" "take (length (cstr_val a)) b = cstr_val a"
    using take_cstr_val [OF assms(1)] take_cstr_val [OF assms(2)] assms(3) by simp_all
  have len: "length (cstr_val a) \<le> length a" "length (cstr_val a) \<le> length b"
    using cstr_val_length [OF assms(1)] cstr_val_length [OF assms(2)] assms(3) by simp_all
  let ?n = "length (cstr_val a)"
  have sl: "c_strlen a = Inr ?n" "c_strlen b = Inr ?n"
    using c_strlen_eq [OF assms(1)] c_strlen_eq [OF assms(2)] assms(3) by simp_all
  have "copy_from_user (tool_mem (ArgName a)) buf p ?n = copy_from_user (tool_mem (ArgName b)) buf p ?n" for buf p
    using tk len by (simp add: copy_from_user_def tool_mem_def)
  then have "ioctl_ip_proto (tool_mem (ArgName a)) kz cmd p s = ioctl_ip_proto (tool_mem (ArgName b)) kz cmd p s" for kz cmd p
    using sl by (simp add: ioctl_ip_proto_def tool_mem_def [THEN arg_cong [of _ _ um_bytes]])
  moreover have "ioctl_port_rule (tool_mem (ArgName a)) cmd p s = ioctl_port_rule (tool_mem (ArgName b)) cmd p s" for cmd p
    by (simp add: ioctl_port_rule_def copy_port_def tool_mem_def)
  ultimately show ?thesis by (simp add: wakeup_device_def ar_wakeup_interface_ioctl_def)
qed

interpretation wakeup_rules_dev: rule_device wakeup_device wakeup_wf wakeup_follows tool_accepts
proof
  fix k cmd arg assume wf: "wakeup_wf k" and acc: "tool_accepts (cmd, arg)"
  then have "config_ok (cmd, arg)" by (simp add: tool_accepts_def)
  from config_step [OF wf this] show "\<exists>r k'. wakeup_device cmd arg k = Inr (r, k') \<and> wakeup_wf k' \<and>
      wakeup_follows k [(cmd, arg)] k'"
    by (auto simp: kernel_accepts [OF acc] wakeup_follows_def)
qed (auto intro: kernel_until_nul follows_Nil follows_append)

section \<open>Properties\<close>

lemma main_run:
  assumes "host_mknod host \<ge> 0" and "host_open host \<ge> 0" and "host_fopen host name = Some fp"
    and "ar_wakeup_process_file dev junk fp (st\<lparr>ar_wakeup_devfd := host_open host\<rparr>) = Inr st'"
  shows "\<exists>st''. ar_wakeup_main host dev junk [tool, name] st =
      Inr (if host_close host < 0 then host_close host else 0, st'') \<and> device st'' = device st'"
  using assms by (auto simp: ar_wakeup_main_def ar_wakeup_dev_open_def ar_wakeup_dev_close_def Let_def)

text \<open>The tool on a rule file, from opening the device to closing it.\<close>

lemma rule_file_run:
  assumes "host_mknod host \<ge> 0" and "host_open host \<ge> 0" and "host_close host \<ge> 0"
    and "host_fopen host name = Some (cfg_file ls)" and "wakeup_wf s"
    and "cfg_ok CONFIG_WAKEUP_NULL ls" and "list_all tool_accepts (cfg_cmds CONFIG_WAKEUP_NULL ls)"
  defines "cs \<equiv> cfg_cmds CONFIG_WAKEUP_NULL ls"
  shows "\<exists>st. ar_wakeup_main host wakeup_device junk [tool, name] (wakeup_tool_start s) = Inr (0, st) \<and>
    wakeup_wf (device st) \<and>
    udp_rules (device st) = upserts (unat (udptblsize s)) (udp_rules s) (ports_of CONFIG_WAKEUP_UDP_RULE cs) \<and>
    tcp_rules (device st) = upserts (unat (tcptblsize s)) (tcp_rules s) (ports_of CONFIG_WAKEUP_TCP_RULE cs) \<and>
    ip_protos (device st) = upserts (unat (iptblsize s)) (ip_protos s) (protos_of cs)"
proof -
  let ?st = "(wakeup_tool_start s)\<lparr>ar_wakeup_devfd := host_open host\<rparr>"
  have "RuleToConfig ?st = CONFIG_WAKEUP_NULL" and "device ?st = s" by (simp_all add: wakeup_tool_start_def)
  with wakeup_rules_dev.process_cfg_file [of ?st ls junk] assms(5-7) obtain st' where
    "ar_wakeup_process_file wakeup_device junk (cfg_file ls) ?st = Inr st'" "wakeup_follows s cs (device st')"
    unfolding cs_def by auto
  moreover from main_run [OF assms(1,2,4) this(1)] assms(3) obtain st where
    "ar_wakeup_main host wakeup_device junk [tool, name] (wakeup_tool_start s) = Inr (0, st)"
    "device st = device st'" by auto
  ultimately show ?thesis by (simp add: wakeup_follows_def)
qed

text \<open>
  Claim C4.  The tool and the kernel together: for a rule file of sections, comments, protocol
  names and rules the tool accepts (\<open>tool_accepts\<close>: names of less than ten characters
  whose code is not 0, rules whose ports are not both 0), any white space between the numbers,
  whatever the stack held before, the tool ends with status 0 and the kernel's tables hold what
  they held before and then the rules of the file: each section's in its table, in order, without
  repetition, up to the size of the table.
\<close>

theorem rule_file_configures_kernel:
  assumes "host_mknod host \<ge> 0" and "host_open host \<ge> 0" and "host_close host \<ge> 0"
    and "host_fopen host name = Some (cfg_file ls)" and "wakeup_wf s"
    and "cfg_ok CONFIG_WAKEUP_NULL ls" and "list_all tool_accepts (cfg_cmds CONFIG_WAKEUP_NULL ls)"
  defines "cs \<equiv> cfg_cmds CONFIG_WAKEUP_NULL ls"
  shows "\<exists>st. ar_wakeup_main host wakeup_device junk [tool, name] (wakeup_tool_start s) = Inr (0, st) \<and>
    wakeup_wf (device st) \<and>
    udp_rules (device st) = upserts (unat (udptblsize s)) (udp_rules s) (ports_of CONFIG_WAKEUP_UDP_RULE cs) \<and>
    tcp_rules (device st) = upserts (unat (tcptblsize s)) (tcp_rules s) (ports_of CONFIG_WAKEUP_TCP_RULE cs) \<and>
    ip_protos (device st) = upserts (unat (iptblsize s)) (ip_protos s) (protos_of cs)"
  unfolding cs_def using assms(1-7) by (rule rule_file_run)

text \<open>The rule file that comes with the tool.\<close>

definition shipped_rules :: string where
  "shipped_rules =
     ''#Protocol list\<newline>#Protocol\<newline>ICMP\<newline>IGMP\<newline>TCP\<newline>UDP\<newline>'' @
     ''#TCP rules\<newline>#srcport'' @ [CHR 0x09] @ ''dstport'' @ [CHR 0x09, CHR 0x09] @ ''srcportmask'' @ [CHR 0x09] @ ''dstportmask\<newline>'' @
     concat (map (\<lambda>(a, b). a @ [CHR 0x09, CHR 0x09] @ b @ [CHR 0x09, CHR 0x09] @ ''FFFF'' @ [CHR 0x09, CHR 0x09] @ ''FFFF\<newline>'')
       [(''10000'', ''11000''), (''10001'', ''11001''), (''10002'', ''11002'')]) @
     ''#UDP rules\<newline>#srcport        dstport         srcportmask     dstportmask\<newline>'' @
     concat (map (\<lambda>(a, b). a @ [CHR 0x09, CHR 0x09] @ b @ [CHR 0x09, CHR 0x09] @ ''FFFF'' @ [CHR 0x09, CHR 0x09] @ ''FFFF\<newline>'')
       [(''10240'', ''10250''), (''10241'', ''10251''), (''10242'', ''10252'')])"

definition shipped_lines :: "cfg_line list" where
  "shipped_lines =
     [Section CONFIG_WAKEUP_IP_PROTO, Note (bytes_of ''Protocol''),
      Name (bytes_of ''ICMP''), Name (bytes_of ''IGMP''), Name (bytes_of ''TCP''), Name (bytes_of ''UDP''),
      Section CONFIG_WAKEUP_TCP_RULE,
      Note (bytes_of (''srcport'' @ [CHR 0x09] @ ''dstport'' @ [CHR 0x09, CHR 0x09] @ ''srcportmask'' @ [CHR 0x09] @ ''dstportmask'')),
      Rule [9, 9] [9, 9] [9, 9] (demo_rule 10000 11000), Rule [9, 9] [9, 9] [9, 9] (demo_rule 10001 11001),
      Rule [9, 9] [9, 9] [9, 9] (demo_rule 10002 11002),
      Section CONFIG_WAKEUP_UDP_RULE,
      Note (bytes_of ''srcport        dstport         srcportmask     dstportmask''),
      Rule [9, 9] [9, 9] [9, 9] (demo_rule 10240 10250), Rule [9, 9] [9, 9] [9, 9] (demo_rule 10241 10251),
      Rule [9, 9] [9, 9] [9, 9] (demo_rule 10242 10252)]"

text \<open>A rule whose gaps are not too long is a line of its section.\<close>

lemma rule_line_ok:
  assumes "k \<in> {CONFIG_WAKEUP_TCP_RULE, CONFIG_WAKEUP_UDP_RULE}" and "gap g1" and "gap g2" and "gap g3"
    and "length g1 + length g2 + length g3 \<le> 80"
  shows "cfg_line_ok k (Rule g1 g2 g3 r)"
proof -
  have "newline \<notin> set g" "0 \<notin> set g" if "gap g" for g
    using that by (auto simp: gap_def list_all_iff is_space_def)
  moreover have "newline \<notin> set (number_text b n)" "0 \<notin> set (number_text b n)" if "2 \<le> b" "b \<le> 16" for b n
    using number_text_other [OF that, of _ n] by auto
  moreover have "length (cfg_text (Rule g1 g2 g3 r)) < 99"
    using u16_text_length(1) [of "src_port r"] u16_text_length(1) [of "dst_port r"]
      u16_text_length(2) [of "src_port_mask r"] u16_text_length(2) [of "dst_port_mask r"] assms(5)
    by simp
  ultimately show ?thesis using assms(1-4) by (simp add: cfg_line_ok_def)
qed

lemma shipped_file: "bytes_of shipped_rules = cfg_file shipped_lines"
  by (simp add: shipped_rules_def shipped_lines_def cfg_file_def bytes_of_def newline_def number_text.simps
      digit_char_def demo_rule_def)

lemma shipped_ok: "cfg_ok CONFIG_WAKEUP_NULL shipped_lines"
proof -
  have "gap [9, 9]" by (simp add: gap_def is_space_def newline_def)
  then have "cfg_line_ok k (Rule [9, 9] [9, 9] [9, 9] r)"
    if "k = CONFIG_WAKEUP_TCP_RULE \<or> k = CONFIG_WAKEUP_UDP_RULE" for k r
    using that by (intro rule_line_ok) auto
  note [simp] = this
  show ?thesis
    by (simp add: shipped_lines_def) (simp add: cfg_line_ok_def bytes_of_def newline_def sections_def)
qed

lemma shipped_cmds:
  "cfg_cmds CONFIG_WAKEUP_NULL shipped_lines =
     map (\<lambda>s. (4, ArgName (cstr s))) [''ICMP\<newline>'', ''IGMP\<newline>'', ''TCP\<newline>'', ''UDP\<newline>''] @
     map (\<lambda>i. (2, ArgPort (demo_rule (10000 + i) (11000 + i)))) [0, 1, 2] @
     map (\<lambda>i. (1, ArgPort (demo_rule (10240 + i) (10250 + i)))) [0, 1, 2]"
  by (simp add: shipped_lines_def cstr_def bytes_of_def newline_def)

lemma shipped_keys:
  "prot_key (cstr ''ICMP\<newline>'') = 1" "prot_key (cstr ''IGMP\<newline>'') = 2" "prot_key (cstr ''TCP\<newline>'') = 6"
  "prot_key (cstr ''UDP\<newline>'') = 17"
  by (simp_all add: prot_key_line is_line_def prot_init_def)

lemma shipped_accepts: "list_all tool_accepts (cfg_cmds CONFIG_WAKEUP_NULL shipped_lines)"
  by (simp add: shipped_cmds tool_accepts_def config_ok_def prot_valid_def shipped_keys)

theorem rule_file_configures_kernel_witness:
  "\<exists>s st. ar_wakeup_init_db (Some demo_sizes) (\<lambda>i. True) wakeup_boot = Inr (0, s) \<and>
     ar_wakeup_main (demo_tool_host (bytes_of shipped_rules)) wakeup_device (\<lambda>n. \<lparr>junk_prot = (\<lambda>i. 85), junk_rule = zero_port\<rparr>)
       [''ar_wakeup_tool'', ''file''] (wakeup_tool_start s) = Inr (0, st) \<and>
     ip_protos (device st) = [1, 2, 6, 17] \<and>
     tcp_rules (device st) = [demo_rule 10000 11000, demo_rule 10001 11001, demo_rule 10002 11002] \<and>
     udp_rules (device st) = [demo_rule 10240 10250, demo_rule 10241 10251, demo_rule 10242 10252]"
proof -
  obtain s where s: "ar_wakeup_init_db (Some demo_sizes) (\<lambda>i. True) wakeup_boot = Inr (0, s)" "wakeup_wf s"
    "udp_rules s = []" "tcp_rules s = []" "ip_protos s = []" "udptblsize s = 8" "tcptblsize s = 8" "iptblsize s = 8"
    using wakeup_init_result [of demo_sizes "\<lambda>i. True"] by (auto simp: demo_sizes_def)
  have host: "host_mknod (demo_tool_host fp) \<ge> 0" "host_open (demo_tool_host fp) \<ge> 0" "host_close (demo_tool_host fp) \<ge> 0"
    "host_fopen (demo_tool_host fp) ''file'' = Some fp" for fp
    by (simp_all add: demo_tool_host_def)
  from rule_file_configures_kernel [OF host(1-3) host(4) [of "cfg_file shipped_lines"] s(2) shipped_ok shipped_accepts,
      of "\<lambda>n. \<lparr>junk_prot = (\<lambda>i. 85), junk_rule = zero_port\<rparr>" "''ar_wakeup_tool''"]
  show ?thesis
    by (intro exI [of _ s])
      (auto simp: s shipped_file [symmetric] shipped_cmds ports_of_def protos_of_def shipped_keys upsert_def)
qed

text \<open>
  The loop over a file is a fold over its lines: it ends for every file, reading the
  file exactly once, in nonempty pieces of at most 99 bytes with no newline but at their end.
\<close>

fun run_lines ::
    "'k ioctl_fn \<Rightarrow> (nat \<Rightarrow> stack_junk) \<Rightarrow> u8 list list \<Rightarrow> 'k wakeup_tool \<Rightarrow> 'k wakeup_tool res" where
  "run_lines dev junk [] st = Inr st"
| "run_lines dev junk (l # ls) st =
     rbind (ar_wakeup_process_line dev (junk (length (concat ls))) (l @ [0]) st) (run_lines dev junk ls)"

theorem rule_file_by_lines:
  "ar_wakeup_process_file dev junk fp st = run_lines dev junk (file_lines 100 fp) st \<and>
   concat (file_lines 100 fp) = fp \<and> length (file_lines 100 fp) \<le> length fp \<and>
   list_all (\<lambda>l. l \<noteq> [] \<and> length l \<le> 99 \<and> newline \<notin> set (butlast l)) (file_lines 100 fp)"
proof -
  have "ar_wakeup_process_file dev junk fp st = run_lines dev junk (file_lines 100 fp) st" for st
  proof (induction "length fp" arbitrary: fp st rule: less_induct)
    case less
    show ?case
    proof (cases "fgets 100 fp")
      case None
      then show ?thesis by (subst ar_wakeup_process_file.simps, subst file_lines.simps) simp
    next
      case (Some lr)
      then obtain l r where lr: "fgets 100 fp = Some (l @ [0], r)" and len: "length r < length fp"
        using fgets_shorter [of 100 fp] by (auto simp: fgets_def split: if_splits prod.splits)
      have fl: "file_lines 100 fp = l # file_lines 100 r"
        by (subst file_lines.simps) (simp add: lr)
      have cat: "concat (file_lines 100 r) = r" using file_lines_shape [of 100 r] by simp
      have "ar_wakeup_process_file dev junk r = run_lines dev junk (file_lines 100 r)"
        by (rule ext) (rule less [OF len])
      then show ?thesis
        by (subst ar_wakeup_process_file.simps) (simp add: lr fl cat)
    qed
  qed
  with file_lines_shape [of 100 fp] show ?thesis by simp
qed

text \<open>
  A rule with ports but no masks, the rest of the line empty: the tool sends the two
  ports with the masks that happen to be in its local variables.
\<close>

theorem short_rule_sends_stale:
  fixes src dst :: u16 and junk :: stack_junk
  assumes "RuleToConfig st = CONFIG_WAKEUP_TCP_RULE" and "gap g"
  defines "line \<equiv> number_text 10 (unat src) @ g @ number_text 10 (unat dst) @ [newline, 0]"
    and "r \<equiv> (junk_rule junk)\<lparr>src_port := src, dst_port := dst\<rparr>"
  shows "ar_wakeup_process_line dev junk line st =
    wakeup_send dev (wakeup_cmd CONFIG_WAKEUP_TCP_RULE) (ArgPort r)
      ''Error in sending TCP configuration to FM ucode\<newline>'' (st\<lparr>tcp_param := r\<rparr>)"
proof -
  let ?s = "number_text 10 (unat src) @ g @ number_text 10 (unat dst)"
  have g: "list_all is_space g" "newline \<notin> set g" "0 \<notin> set g" "\<exists>a g'. g = a # g' \<and> is_space a"
    using assms(2) by (cases g; auto simp: gap_def list_all_iff is_space_def)+
  have num: "newline \<notin> set (number_text 10 (unat w))" "0 \<notin> set (number_text 10 (unat w))" for w :: u16
    using number_text_other [of 10 _ "unat w"] by auto
  obtain b bs where nt: "number_text 10 (unat src) = b # bs"
    using number_text_nonempty by (cases "number_text 10 (unat src)") auto
  then have hd: "?s = [] \<or> hd ?s \<noteq> 0x23" using number_text_other [of 10 b "unat src"] by simp
  have s: "newline \<notin> set ?s" "0 \<notin> set ?s" using num g by auto
  have z: "0 \<notin> set (?s @ [newline])" using s(2) by (simp add: newline_def)
  have nl: "is_space newline" by (simp add: newline_def is_space_def)
  have end_num: "scan_num 16 [newline] = None"
    by (simp add: scan_num_def newline_def is_space_def scan_sign_def skip_0x_def at_digit_def)
  have stop: "digit_val 10 (hd (g @ x)) = None \<and> hd (g @ x) \<notin> {0x78, 0x58}" for x
    using g(4) space_not_digit by (auto simp: is_space_def)
  have "scan_u16s [10, 10, 16, 16] (?s @ [newline]) = Inr [src, dst]"
    using scan_num_text [of "[]" 10 "g @ number_text 10 (unat dst) @ [newline]" "unat src"] stop
      scan_num_text [OF g(1), of 10 "[newline]" "unat dst"] space_not_digit [OF nl] end_num
    by (simp add: newline_def)
  moreover have "c_strlen ((?s @ [newline]) @ [0]) = Inr (length (?s @ [newline]))"
    using z by (rule c_strlen_append_nul)
  ultimately have "sscanf_rule (junk_rule junk) ((?s @ [newline]) @ [0]) = Inr r"
    unfolding r_def sscanf_rule_def by (simp add: scanned_rule_def del: scan_u16s.simps)
  then show ?thesis
    using process_other_line [OF s hd, of dev junk st] assms(1)
    by (simp add: line_def ar_wakeup_process_tcp_param_def)
qed

theorem short_rule_sends_stale_witness:
  "\<exists>st'. ar_wakeup_process_line wakeup_device \<lparr>junk_prot = (\<lambda>i. 85), junk_rule = demo_rule 7 9\<rparr>
      (cstr ''80 443\<newline>'') ((wakeup_tool_start demo_wakeup)\<lparr>RuleToConfig := CONFIG_WAKEUP_TCP_RULE\<rparr>) = Inr st' \<and>
     tcp_rules (device st') = [demo_rule 80 443]"
proof -
  let ?st = "(wakeup_tool_start demo_wakeup)\<lparr>RuleToConfig := CONFIG_WAKEUP_TCP_RULE\<rparr>"
  let ?j = "\<lparr>junk_prot = (\<lambda>i. 85), junk_rule = demo_rule 7 9\<rparr>" and ?r = "demo_rule 80 443"
  have line: "number_text 10 (unat (80 :: u16)) @ [0x20] @ number_text 10 (unat (443 :: u16)) @ [newline, 0]
      = cstr ''80 443\<newline>''" by code_simp
  have "gap [0x20]" by (simp add: gap_def is_space_def newline_def)
  from short_rule_sends_stale [OF _ this, of ?st wakeup_device ?j 80 443] line
  have "ar_wakeup_process_line wakeup_device ?j (cstr ''80 443\<newline>'') ?st = wakeup_send wakeup_device 2 (ArgPort ?r)
      ''Error in sending TCP configuration to FM ucode\<newline>'' (?st\<lparr>tcp_param := ?r\<rparr>)"
    by (simp add: demo_rule_def)
  moreover obtain x s' where "wakeup_device 2 (ArgPort ?r) demo_wakeup = Inr (x, s')" "tcp_rules s' = [?r]"
    using recv_tcp_cases [OF demo_wakeup_wf, of ?r] kernel_port [of 2 ?r demo_wakeup]
    by (auto simp: add_tcp_def demo_wakeup_empty upsert_def)
  ultimately show ?thesis by (simp add: wakeup_send_def wakeup_tool_start_def Let_def)
qed

end
