(* ===== verification/Usr_SnmpCodec.thy ===== *)
theory Usr_SnmpCodec
  imports Usr_Libc AR_Slots
begin

text \<open>
  The conversions of \<open>usr/ar-snmp-lib/lib-tool/ar_snmp_tool.c\<close>: the texts of a line of the SNMP
  file are turned, in place, into the bytes the kernel keeps.  A buffer is its list of bytes.
\<close>

section \<open>ASN.1 types\<close>

datatype asn_type =
    ASN_INTEGER | ASN_BITSTR | ASN_OCTETSTR | ASN_OBJECTID | ASN_IPADDRESS | ASN_UNSIGNED | ASN_TIMETICKS

definition ASN_APPLICATION :: u8 where
  "ASN_APPLICATION = 0x40"

primrec asn_code :: "asn_type \<Rightarrow> u8" where
  "asn_code ASN_INTEGER = 0x02"
| "asn_code ASN_BITSTR = 0x03"
| "asn_code ASN_OCTETSTR = 0x04"
| "asn_code ASN_OBJECTID = 0x06"
| "asn_code ASN_IPADDRESS = ASN_APPLICATION OR 0x0"
| "asn_code ASN_UNSIGNED = ASN_APPLICATION OR 0x2"
| "asn_code ASN_TIMETICKS = ASN_APPLICATION OR 0x3"

text \<open>The letters that name the types in a line.\<close>

definition ch :: "char \<Rightarrow> u8" where
  "ch c = of_char c"

definition ar_snmp_get_type :: "u8 \<Rightarrow> u8" where
  "ar_snmp_get_type type =
     (if type = ch (CHR ''i'') then asn_code ASN_INTEGER
      else if type = ch (CHR ''u'') \<or> type = ch (CHR ''g'') then asn_code ASN_UNSIGNED
      else if type = ch (CHR ''t'') then asn_code ASN_TIMETICKS
      else if type = ch (CHR ''a'') then asn_code ASN_IPADDRESS
      else if type = ch (CHR ''s'') \<or> type = ch (CHR ''x'') \<or> type = ch (CHR ''d'') then asn_code ASN_OCTETSTR
      else if type = ch (CHR ''b'') then asn_code ASN_BITSTR
      else if type = ch (CHR ''o'') then asn_code ASN_OBJECTID
      else 0)"

section \<open>Integers\<close>

text \<open>
  The loop of \<open>ar_snmp_get_size\<close> over the bits of the value, with its two 16-bit counters.
\<close>

lemma unat_drop_bit: "unat (drop_bit j (t :: u32)) = unat t div 2 ^ j"
  unfolding unat_drop_bit_eq by (simp add: drop_bit_eq_div)

lemma unat_drop_bit_1: "unat (drop_bit 1 (t :: u32)) = unat t div 2"
  unfolding unat_drop_bit by simp

lemma unat_pos: "t \<noteq> 0 \<Longrightarrow> 0 < unat (t :: u32)"
  by (simp add: unat_gt_0)

function size_loop :: "u32 \<Rightarrow> u16 \<Rightarrow> u16 \<Rightarrow> u16" where
  "size_loop tempvalue bit_count byte_size =
     (if tempvalue = 0 then byte_size
      else let tempvalue = drop_bit 1 tempvalue; bit_count = bit_count + 1 in
           if bit_count > 8 then size_loop tempvalue (bit_count - 8) (byte_size + 1)
           else size_loop tempvalue bit_count byte_size)"
  by pat_completeness auto
termination
  by (relation "measure (\<lambda>(t, b, s). unat t)") (simp_all only: in_measure wf_measure prod.case unat_drop_bit_1, auto dest: unat_pos)

declare size_loop.simps [simp del]

definition ar_snmp_get_size :: "u8 list \<Rightarrow> u16 res" where
  "ar_snmp_get_size value = rbind (c_atoi value) (\<lambda>n. Inr (size_loop (word_of_int n) 0 1))"

text \<open>
  The bytes of a \<open>uint32_t\<close> in memory, on the big-endian processors the module is made for and
  on little-endian ones.
\<close>

definition big_endian :: "u32 \<Rightarrow> u8 list" where
  "big_endian w = [ucast (drop_bit 24 w), ucast (drop_bit 16 w), ucast (drop_bit 8 w), ucast w]"

definition little_endian :: "u32 \<Rightarrow> u8 list" where
  "little_endian w = rev (big_endian w)"

text \<open>The bytes \<open>ar_snmp_get_val\<close> copies: the last \<open>sz\<close> bytes of the variable.\<close>

definition ar_snmp_get_val :: "(u32 \<Rightarrow> u8 list) \<Rightarrow> u8 \<Rightarrow> u8 list \<Rightarrow> u8 list res" where
  "ar_snmp_get_val order sz fvalue =
     rbind (c_atoi fvalue) (\<lambda>n.
     let tempval = order (word_of_int n) in
     if unat sz \<le> length tempval then Inr (drop (length tempval - unat sz) tempval)
     else Inl OutOfBounds)"

section \<open>Digits, hexadecimal texts and bit strings\<close>

definition atoi_char :: "u8 \<Rightarrow> u8" where
  "atoi_char c =
     (if 0x30 \<le> c \<and> c \<le> 0x39 then c - 0x30
      else if 0x41 \<le> c \<and> c \<le> 0x46 then c - 0x41 + 0x0a
      else if 0x61 \<le> c \<and> c \<le> 0x66 then c - 0x61 + 0x0a
      else c)"

text \<open>Every character up to the NUL, in place.\<close>

fun ar_snmp_atoi :: "u8 list \<Rightarrow> u8 list res" where
  "ar_snmp_atoi [] = Inl OutOfBounds"
| "ar_snmp_atoi (c # cs) =
     (if c = 0 then Inr (c # cs) else rbind (ar_snmp_atoi cs) (\<lambda>cs. Inr (atoi_char c # cs)))"

text \<open>
  Two digits at \<open>idx\<close> give the byte at \<open>out\<close>.  The loop counter has 8 bits, so on a buffer
  without end it would run for ever; here it runs out of the buffer.
\<close>

function hex_pairs :: "u32 \<Rightarrow> u8 \<Rightarrow> nat \<Rightarrow> u8 list \<Rightarrow> u8 list res" where
  "hex_pairs sz idx out buf =
     (if \<not> unat idx < unat (sz - 1) then buf_set buf out 0
      else rbind (buf_get buf (unat idx)) (\<lambda>a.
           rbind (buf_get buf (unat idx + 1)) (\<lambda>b.
           if out < length buf then hex_pairs sz (idx + 2) (out + 1) (buf[out := push_bit 4 a OR b])
           else Inl OutOfBounds)))"
  by pat_completeness auto
termination by (relation "measure (\<lambda>(sz, idx, out, buf). length buf - out)") auto

declare hex_pairs.simps [simp del]

definition ar_snmp_convert_value :: "u8 list \<Rightarrow> u8 list res" where
  "ar_snmp_convert_value value =
     rbind (c_strlen value) (\<lambda>sz.
     rbind (ar_snmp_atoi value) (\<lambda>buf.
     hex_pairs (word_of_nat sz) 0 0 buf))"

text \<open>
  Eight characters give a byte; the ninth turn stores it.  \<open>src\<close> is \<open>pvalue\<close>, \<open>out\<close> is \<open>value\<close>.
\<close>

function bit_groups :: "u32 \<Rightarrow> u8 \<Rightarrow> nat \<Rightarrow> nat \<Rightarrow> nat \<Rightarrow> u8 \<Rightarrow> u8 list \<Rightarrow> u8 list res" where
  "bit_groups sz idx bit_count src out tempval buf =
     (if \<not> unat idx < unat sz then buf_set buf out 0
      else if bit_count = 0 then
        if out < length buf then bit_groups sz (idx + 8) 8 src (out + 1) 0 (buf[out := tempval])
        else Inl OutOfBounds
      else rbind (buf_get buf src) (\<lambda>b.
           bit_groups sz idx (bit_count - 1) (src + 1) out
             (tempval OR push_bit (bit_count - 1) b) buf))"
  by pat_completeness auto
termination
  by (relation "measures [\<lambda>(sz, idx, bit_count, src, out, tempval, buf). length buf - out,
    \<lambda>(sz, idx, bit_count, src, out, tempval, buf). bit_count]") auto

declare bit_groups.simps [simp del]

definition ar_snmp_convert_bitvalue :: "u8 list \<Rightarrow> u8 list res" where
  "ar_snmp_convert_bitvalue value =
     rbind (c_strlen value) (\<lambda>sz.
     rbind (ar_snmp_atoi value) (\<lambda>buf.
     bit_groups (word_of_nat sz) 0 8 0 0 0 buf))"

section \<open>Dotted texts\<close>

text \<open>
  The loop of \<open>ar_snmp_process_string\<close> over the text and its NUL: the characters of a component
  are collected in \<open>temp_result\<close>, its number goes to \<open>oid_result\<close>.
\<close>

fun process_chars :: "u8 list \<Rightarrow> u8 list \<Rightarrow> nat \<Rightarrow> u8 list \<Rightarrow> nat \<Rightarrow> (u8 list \<times> nat) res" where
  "process_chars [] temp_result idx_temp oid_result idx_oid = Inr (oid_result, idx_oid)"
| "process_chars (c # cs) temp_result idx_temp oid_result idx_oid =
     (if c \<noteq> 0x2E \<and> c \<noteq> 0 then
        rbind (buf_set temp_result idx_temp c) (\<lambda>temp_result.
        process_chars cs temp_result (idx_temp + 1) oid_result idx_oid)
      else
        rbind (buf_set temp_result idx_temp 0) (\<lambda>temp_result.
        rbind (c_atoi temp_result) (\<lambda>n.
        rbind (buf_set oid_result idx_oid (word_of_int n)) (\<lambda>oid_result.
        process_chars cs temp_result 0 oid_result (idx_oid + 1)))))"

definition ar_snmp_process_string :: "u8 list \<Rightarrow> u8 list res" where
  "ar_snmp_process_string pString =
     rbind (c_strlen pString) (\<lambda>n.
     rbind (process_chars (take (n + 1) pString) (replicate 4 0) 0 (replicate 128 0) 0) (\<lambda>(oid_result, idx_oid).
     rbind (buf_set oid_result idx_oid 0) (\<lambda>oid_result.
     rbind (c_strlen oid_result) (\<lambda>m.
     rbind (buf_copy pString 0 (take m oid_result)) (\<lambda>pString.
     buf_set pString m 0)))))"

section \<open>Integers: the bytes are the shortest big-endian form\<close>

fun bits :: "nat \<Rightarrow> nat" where
  "bits n = (if n = 0 then 0 else Suc (bits (n div 2)))"

declare bits.simps [simp del]

lemma bits_0 [simp]: "bits 0 = 0"
  by (simp add: bits.simps)

lemma bits_pos: "0 < n \<Longrightarrow> bits n = Suc (bits (n div 2))"
  by (subst bits.simps) simp

lemma bits_upper: "n < 2 ^ bits n"
proof (induction n rule: bits.induct)
  case (1 n)
  then show ?case by (cases "n = 0") (auto simp: bits_pos)
qed

lemma bits_lower: "0 < n \<Longrightarrow> 2 ^ (bits n - 1) \<le> n"
proof (induction n rule: bits.induct)
  case (1 n)
  show ?case
  proof (cases "n < 2")
    case True
    with "1.prems" show ?thesis by (simp add: bits_pos)
  next
    case False
    then have h: "2 ^ (bits (n div 2) - 1) \<le> n div 2" using "1.IH" by simp
    have "0 < bits (n div 2)" using False by (simp add: bits_pos)
    then have "(2 :: nat) ^ bits (n div 2) = 2 * 2 ^ (bits (n div 2) - 1)"
      by (metis power_eq_if not_gr_zero)
    with h False show ?thesis by (simp add: bits_pos)
  qed
qed

lemma bits_le: "n < 2 ^ k \<Longrightarrow> bits n \<le> k"
proof (rule ccontr)
  assume n: "n < 2 ^ k" and "\<not> bits n \<le> k"
  then have "k \<le> bits n - 1" and "0 < n" by (auto intro: gr0I)
  then have "(2 :: nat) ^ k \<le> 2 ^ (bits n - 1)" by simp
  also have "\<dots> \<le> n" using \<open>0 < n\<close> by (rule bits_lower)
  finally show False using n by simp
qed

lemma u16_Suc: "unat (b :: u16) < 100 \<Longrightarrow> unat (b + 1) = Suc (unat b)"
  by (subst unat_add_lem [THEN iffD1]) auto

lemma u16_minus_8: "unat (b :: u16) = 9 \<Longrightarrow> unat (b - 8) = 1"
  by (simp add: unat_sub word_le_nat_alt)

lemma size_loop_bits:
  "unat b \<le> 8 \<Longrightarrow> unat s + unat b + bits (unat t) < 100 \<Longrightarrow>
     unat (size_loop t b s) = unat s + (unat b + bits (unat t) - 1) div 8"
proof (induction t b s rule: size_loop.induct)
  case (1 t b s)
  show ?case
  proof (cases "t = 0")
    case True
    with "1.prems" show ?thesis by (subst size_loop.simps) (simp add: div_eq_0_iff)
  next
    case False
    then have bt: "bits (unat t) = Suc (bits (unat (drop_bit 1 t)))"
      unfolding unat_drop_bit_1 by (intro bits_pos unat_pos)
    have sb: "unat (b + 1) = Suc (unat b)" using "1.prems" by (intro u16_Suc) simp
    have ss: "unat (s + 1) = Suc (unat s)" using "1.prems" by (intro u16_Suc) simp
    show ?thesis
    proof (cases "b + 1 > 8")
      case True
      then have "unat b = 8" using sb "1.prems"(1) by (simp add: word_less_nat_alt)
      moreover from this have "unat (b + 1 - 8) = 1" using sb by (intro u16_minus_8) simp
      ultimately show ?thesis
        using "1.IH"(1) [OF False refl refl True] True False "1.prems" bt ss
        by (subst size_loop.simps) (simp add: Let_def)
    next
      case F: False
      then have "unat b < 8" using sb by (simp add: word_less_nat_alt)
      then show ?thesis
        using "1.IH"(2) [OF False refl refl F] F False "1.prems" bt sb
        by (subst size_loop.simps) (simp add: Let_def)
    qed
  qed
qed

lemma size_loop_shortest:
  defines "k \<equiv> \<lambda>w. unat (size_loop w 0 1)"
  shows "1 \<le> k w" and "k w \<le> 4" and "unat w < 256 ^ k w" and "k w = 1 \<or> 256 ^ (k w - 1) \<le> unat w"
proof -
  have b: "bits (unat w) \<le> 32" using unsigned_less [of w, where ?'a = nat] by (intro bits_le) simp
  then have k: "k w = 1 + (bits (unat w) - 1) div 8"
    unfolding k_def by (subst size_loop_bits) simp_all
  show "1 \<le> k w" "k w \<le> 4" using b by (simp_all add: k)
  have p: "(256 :: nat) ^ j = 2 ^ (8 * j)" for j by (simp add: power_mult)
  have "bits (unat w) \<le> 8 * k w" by (simp add: k)
  then have "(2 :: nat) ^ bits (unat w) \<le> 256 ^ k w" by (simp only: p power_increasing_iff)
  with bits_upper [of "unat w"] show "unat w < 256 ^ k w" by simp
  show "k w = 1 \<or> 256 ^ (k w - 1) \<le> unat w"
  proof (rule disjCI)
    assume "\<not> 256 ^ (k w - 1) \<le> unat w"
    then have lt: "unat w < 2 ^ (8 * (k w - 1))" by (auto simp: p)
    show "k w = 1"
    proof (rule ccontr)
      assume "k w \<noteq> 1"
      then have "8 * (k w - 1) \<le> bits (unat w) - 1" and "0 < unat w"
        by (auto simp: k intro: gr0I)
      then have "(2 :: nat) ^ (8 * (k w - 1)) \<le> 2 ^ (bits (unat w) - 1)" by simp
      with bits_lower [OF \<open>0 < unat w\<close>] lt show False by linarith
    qed
  qed
qed

definition be_value :: "u8 list \<Rightarrow> nat" where
  "be_value bs = foldl (\<lambda>a b. 256 * a + unat b) 0 bs"

lemma big_endian_tail:
  assumes "k \<le> 4"
  shows "be_value (drop (4 - k) (big_endian w)) = unat w mod 256 ^ k"
proof -
  define n where "n = unat w"
  have byte: "unat (ucast (drop_bit j w) :: u8) = n div 2 ^ j mod 256" for j
    unfolding n_def unsigned_ucast_eq take_bit_eq_mod unat_drop_bit by simp
  have byte0: "unat (ucast w :: u8) = n mod 256" using byte [of 0] by simp
  obtain x3 x2 x1 x0 where xs: "big_endian w = [x3, x2, x1, x0]"
    and x: "unat x3 = n div 16777216 mod 256" "unat x2 = n div 65536 mod 256" "unat x1 = n div 256 mod 256"
      "unat x0 = n mod 256"
    using byte [of 24] byte [of 16] byte [of 8] byte0 by (auto simp: big_endian_def)
  have m2: "n mod 65536 = 256 * (n div 256 mod 256) + n mod 256"
    using mod_mult2_eq [of n 256 256] by simp
  have m3: "n mod 16777216 = 65536 * (n div 65536 mod 256) + n mod 65536"
    using mod_mult2_eq [of n 65536 256] by simp
  have m4: "n mod 4294967296 = 16777216 * (n div 16777216 mod 256) + n mod 16777216"
    using mod_mult2_eq [of n 16777216 256] by simp
  have "k = 0 \<or> k = 1 \<or> k = 2 \<or> k = 3 \<or> k = 4" using assms by auto
  then show ?thesis
    unfolding n_def [symmetric] xs by (elim disjE) (simp_all add: be_value_def x m2 m3 m4)
qed

section \<open>Dotted texts: one byte per component, up to the first zero\<close>

fun dotted :: "nat list \<Rightarrow> u8 list" where
  "dotted [] = []"
| "dotted [n] = number_text 10 n"
| "dotted (n # ns) = number_text 10 n @ 0x2E # dotted ns"

text \<open>Reading a number's text as C does.\<close>

lemma atoi_text: "n < 2 ^ 31 \<Longrightarrow> c_atoi (number_text 10 n @ 0 # r) = Inr (int n)"
proof -
  assume n: "n < 2 ^ 31"
  have "0 \<notin> set (number_text 10 n)" using number_text_other [of 10 _ n] by auto
  then have "c_strlen (number_text 10 n @ 0 # r) = Inr (length (number_text 10 n))"
    by (rule c_strlen_append_nul)
  moreover have "scan_num 10 (number_text 10 n) = Some (False, n, [])"
    using scan_num_text [of "[]" 10 "[]" n] by simp
  moreover have "int n < 2 ^ 31" using n by (metis of_nat_less_iff of_nat_numeral of_nat_power)
  ultimately show ?thesis by (simp add: c_atoi_def)
qed

definition plain :: "u8 list \<Rightarrow> bool" where
  "plain w \<longleftrightarrow> 0x2E \<notin> set w \<and> 0 \<notin> set w"

lemma plain_number: "plain (number_text 10 n)"
  using number_text_other [of 10 _ n] by (auto simp: plain_def)

text \<open>The characters of a component go to \<open>temp_result\<close>, as long as it has room.\<close>

lemma process_chars_plain:
  assumes "plain w" and "length w \<le> length q"
  shows "process_chars (w @ cs) (p @ q) (length p) o_res io =
    process_chars cs (p @ w @ drop (length w) q) (length p + length w) o_res io"
  using assms
proof (induction w arbitrary: p q)
  case Nil
  then show ?case by simp
next
  case (Cons c w)
  obtain x q' where q: "q = x # q'" using Cons.prems(2) by (cases q) auto
  have c: "c \<noteq> 0x2E" "c \<noteq> 0" and w: "plain w" using Cons.prems(1) by (auto simp: plain_def)
  have "buf_set (p @ q) (length p) c = Inr ((p @ [c]) @ q')"
    by (simp add: buf_set_def q list_update_append)
  with c Cons.IH [OF w, of q' "p @ [c]"] Cons.prems(2) show ?case by (simp add: q)
qed

lemma process_chars_full:
  assumes "plain w" and "length w = length q" and "c = 0x2E \<or> c = 0"
  shows "process_chars (w @ c # cs) q 0 o_res io = Inl OutOfBounds"
  using process_chars_plain [OF assms(1), of q "c # cs" "[]" o_res io] assms(2,3) by auto

lemma process_chars_overrun:
  assumes "plain w" and "length temp < length w"
  shows "process_chars (w @ cs) temp 0 o_res io = Inl OutOfBounds"
proof -
  let ?k = "length temp"
  obtain c w2 where w: "w = take ?k w @ c # w2"
    using assms(2) by (metis id_take_nth_drop)
  have "plain (take ?k w)" and c: "c \<noteq> 0x2E" "c \<noteq> 0"
    using assms(1) w by (auto simp: plain_def dest: in_set_takeD) (metis in_set_conv_decomp)+
  from process_chars_plain [OF this(1), of temp "c # w2 @ cs" "[]" o_res io] assms(2) c show ?thesis
    by (subst w) simp
qed

text \<open>One component and the dot or NUL behind it.\<close>

lemma process_component:
  assumes "n < 1000" and "length temp = 4" and "c = 0x2E \<or> c = 0" and "io < length o_res"
  shows "\<exists>temp'. length temp' = 4 \<and>
    process_chars (number_text 10 n @ c # cs) temp 0 o_res io =
      process_chars cs temp' 0 (o_res[io := word_of_nat n]) (Suc io)"
proof -
  let ?w = "number_text 10 n"
  have len: "length ?w \<le> 3" using assms(1) by (intro number_text_length) simp_all
  obtain x r where r: "drop (length ?w) temp = x # r"
    using len assms(2) by (cases "drop (length ?w) temp") auto
  have "length (drop (length ?w) temp) = 4 - length ?w" using assms(2) by simp
  then have lr: "length (?w @ 0 # r) = 4" using len r by simp
  have "buf_set (?w @ x # r) (length ?w) 0 = Inr (?w @ 0 # r)"
    by (simp add: buf_set_def list_update_append)
  moreover have "process_chars (?w @ c # cs) temp 0 o_res io = process_chars (c # cs) (?w @ x # r) (length ?w) o_res io"
    using process_chars_plain [OF plain_number, of n temp "c # cs" "[]" o_res io] len assms(2) r by simp
  moreover have "c_atoi (?w @ 0 # r) = Inr (int n)" using assms(1) by (intro atoi_text) simp
  ultimately show ?thesis
    using assms(3,4) lr by (intro exI [of _ "?w @ 0 # r"]) (auto simp: of_nat_inverse)
qed

lemma process_dotted:
  assumes "ns \<noteq> []" and "list_all (\<lambda>n. n < 1000) ns" and "length temp = 4" and "io + length ns \<le> length o_res"
  shows "process_chars (dotted ns @ [0]) temp 0 o_res io =
    Inr (take io o_res @ map word_of_nat ns @ drop (io + length ns) o_res, io + length ns)"
  using assms
proof (induction ns arbitrary: temp o_res io rule: dotted.induct)
  case 1
  then show ?case by simp
next
  case (2 n)
  obtain temp' where "process_chars (number_text 10 n @ [0]) temp 0 o_res io =
      process_chars [] temp' 0 (o_res[io := word_of_nat n]) (Suc io)"
    using process_component [where n = n and temp = temp and c = 0 and io = io and o_res = o_res and cs = "[]"] 2 by auto
  with 2 show ?case by (simp add: upd_conv_take_nth_drop)
next
  case (3 n m ns)
  obtain temp' where t: "length temp' = 4" "process_chars (number_text 10 n @ 0x2E # dotted (m # ns) @ [0]) temp 0 o_res io =
      process_chars (dotted (m # ns) @ [0]) temp' 0 (o_res[io := word_of_nat n]) (Suc io)"
    using process_component [where n = n and temp = temp and c = "0x2E" and io = io and o_res = o_res and cs = "dotted (m # ns) @ [0]"] 3 by auto
  have "process_chars (dotted (m # ns) @ [0]) temp' 0 (o_res[io := word_of_nat n]) (Suc io) =
      Inr (take (Suc io) (o_res[io := word_of_nat n]) @ map word_of_nat (m # ns) @
           drop (Suc io + length (m # ns)) (o_res[io := word_of_nat n]), Suc io + length (m # ns))"
    using "3.prems" t(1) by (intro "3.IH") auto
  moreover have "take (Suc io) (o_res[io := word_of_nat n]) = take io o_res @ [word_of_nat n]"
    using "3.prems"(4) by (intro take_Suc_update) simp
  ultimately show ?case using t(2) by simp
qed

lemma dotted_no_nul: "0 \<notin> set (dotted ns)"
  using plain_number by (induction ns rule: dotted.induct) (auto simp: plain_def)

lemma dotted_length: "length ns \<le> length (dotted ns)"
proof (induction ns rule: dotted.induct)
  case (2 n)
  then show ?case by (simp add: Suc_le_eq)
qed auto

lemma takeWhile_cstr: "cstr_val (xs @ 0 # r) = takeWhile (\<lambda>b. b \<noteq> 0) xs"
  by (induction xs) auto

text \<open>
  The text of up to 127 components below 1000 becomes their bytes, read up to the first zero.
\<close>

lemma process_string_dotted:
  assumes "ns \<noteq> []" and "list_all (\<lambda>n. n < 1000) ns" and "length ns \<le> 127"
  shows "\<exists>buf. ar_snmp_process_string (dotted ns @ 0 # tail) = Inr buf \<and> has_nul buf \<and>
    length buf = length (dotted ns @ 0 # tail) \<and>
    cstr_val buf = takeWhile (\<lambda>b. b \<noteq> 0) (map word_of_nat ns)"
proof -
  let ?p = "dotted ns @ 0 # tail" and ?bs = "map word_of_nat ns :: u8 list"
  let ?z = "replicate 128 (0 :: u8)"
  let ?v = "takeWhile (\<lambda>b. b \<noteq> 0) ?bs"
  have sl: "c_strlen ?p = Inr (length (dotted ns))" using dotted_no_nul by (rule c_strlen_append_nul)
  have pc: "process_chars (take (length (dotted ns) + 1) ?p) (replicate 4 0) 0 ?z 0
      = Inr (?bs @ replicate (128 - length ns) 0, length ns)"
    using process_dotted [OF assms(1,2), of "replicate 4 0" 0 ?z] assms(3) by simp
  obtain k where k: "128 - length ns = Suc k" using assms(3) by (cases "128 - length ns") auto
  have st: "buf_set (?bs @ replicate (128 - length ns) 0) (length ns) 0 = Inr (?bs @ 0 # replicate k 0)"
    by (simp add: buf_set_def k list_update_append)
  have cv: "cstr_val (?bs @ 0 # replicate k 0) = ?v" by (rule takeWhile_cstr)
  have sl2: "c_strlen (?bs @ 0 # replicate k 0) = Inr (length ?v)"
    by (subst c_strlen_eq) (simp_all add: cv)
  have tk: "take (length ?v) (?bs @ 0 # replicate k 0) = ?v"
    by (metis length_takeWhile_le takeWhile_eq_take take_append append_Nil2 diff_is_0_eq take_0)
  have lv: "length ?v \<le> length (dotted ns)"
    using length_takeWhile_le [of "\<lambda>b. b \<noteq> 0" ?bs] dotted_length [of ns] by simp
  have cp: "buf_copy ?p 0 ?v = Inr (?v @ drop (length ?v) ?p)" using lv by (simp add: buf_copy_def)
  obtain x xs where dr: "drop (length ?v) ?p = x # xs" using lv by (cases "drop (length ?v) ?p") auto
  have "length (drop (length ?v) ?p) = length ?p - length ?v" by (rule length_drop)
  then have lx: "length (?v @ 0 # xs) = length ?p" using lv unfolding dr by simp
  have st2: "buf_set (?v @ drop (length ?v) ?p) (length ?v) 0 = Inr (?v @ 0 # xs)"
    unfolding dr by (simp add: buf_set_def list_update_append)
  have nz: "0 \<notin> set ?v" by (auto dest: set_takeWhileD)
  show ?thesis
    using sl pc st sl2 tk cp st2 lx nz
    by (intro exI [of _ "?v @ 0 # xs"]) (simp add: ar_snmp_process_string_def)
qed

text \<open>A component of four or more digits runs over the four bytes of \<open>temp_result\<close>.\<close>

lemma process_prefix:
  assumes "list_all (\<lambda>n. n < 1000) ns" and "length temp = 4" and "io + length ns \<le> length o_res"
  shows "\<exists>temp' o_res'. length temp' = 4 \<and>
    process_chars (concat (map (\<lambda>n. number_text 10 n @ [0x2E]) ns) @ cs) temp 0 o_res io =
      process_chars cs temp' 0 o_res' (io + length ns)"
  using assms
proof (induction ns arbitrary: temp o_res io)
  case Nil
  then show ?case by auto
next
  case (Cons n ns)
  let ?rest = "concat (map (\<lambda>n. number_text 10 n @ [0x2E]) ns) @ cs"
  obtain temp' where t: "length temp' = 4" "process_chars (number_text 10 n @ 0x2E # ?rest) temp 0 o_res io =
      process_chars ?rest temp' 0 (o_res[io := word_of_nat n]) (Suc io)"
    using process_component [where n = n and temp = temp and c = "0x2E" and io = io and o_res = o_res and cs = ?rest]
      Cons.prems by auto
  have "Suc io + length ns \<le> length (o_res[io := word_of_nat n])" using Cons.prems(3) by simp
  from Cons.IH [OF _ t(1) this] Cons.prems(1) t(2) show ?case by auto
qed

lemma dotted_split:
  "\<exists>c cs. (c = 0x2E \<or> c = 0) \<and>
     dotted (ns @ n # ms) @ [0] = concat (map (\<lambda>n. number_text 10 n @ [0x2E]) ns) @ number_text 10 n @ c # cs"
proof (induction ns)
  case Nil
  then show ?case by (cases ms) auto
next
  case (Cons k ns)
  then obtain c cs where c: "c = 0x2E \<or> c = 0"
    "dotted (ns @ n # ms) @ [0] = concat (map (\<lambda>n. number_text 10 n @ [0x2E]) ns) @ number_text 10 n @ c # cs" by blast
  have "dotted ((k # ns) @ n # ms) = number_text 10 k @ 0x2E # dotted (ns @ n # ms)"
    by (cases "ns @ n # ms") auto
  with c show ?case by (intro exI [of _ c] exI [of _ cs]) simp
qed

lemma process_string_overrun:
  assumes "list_all (\<lambda>n. n < 1000) ns" and "length ns \<le> 128" and "1000 \<le> n"
  shows "ar_snmp_process_string (dotted (ns @ n # ms) @ 0 # tail) = Inl OutOfBounds"
proof -
  let ?t = "dotted (ns @ n # ms)" and ?w = "number_text 10 n"
  obtain c cs where c: "c = 0x2E \<or> c = 0" "?t @ [0] = concat (map (\<lambda>n. number_text 10 n @ [0x2E]) ns) @ ?w @ c # cs"
    using dotted_split by blast
  obtain temp o_res where temp: "length temp = 4" "process_chars (?t @ [0]) (replicate 4 0) 0 (replicate 128 0) 0 =
      process_chars (?w @ c # cs) temp 0 o_res (length ns)"
    using process_prefix [OF assms(1), of "replicate 4 0" 0 "replicate 128 0" "?w @ c # cs"] assms(2)
    unfolding c(2) by auto
  have "3 < length ?w" using assms(3) by (intro number_text_longer) simp_all
  then have "length ?w = length temp \<or> length temp < length ?w" using temp(1) by linarith
  then have "process_chars (?w @ c # cs) temp 0 o_res (length ns) = Inl OutOfBounds"
    using process_chars_full [OF plain_number _ c(1)] process_chars_overrun [OF plain_number] by blast
  moreover have "c_strlen (?t @ 0 # tail) = Inr (length ?t)" using dotted_no_nul by (rule c_strlen_append_nul)
  ultimately show ?thesis using temp(2) by (simp add: ar_snmp_process_string_def)
qed

section \<open>Hexadecimal texts\<close>

definition hex_char :: "bool \<Rightarrow> nat \<Rightarrow> u8" where
  "hex_char small d = (if small \<and> 10 \<le> d then word_of_nat (0x57 + d) else digit_char d)"

text \<open>Two digits per byte, the letters small or capital.\<close>

definition hex_text :: "bool \<Rightarrow> u8 list \<Rightarrow> u8 list" where
  "hex_text small bs = concat (map (\<lambda>b. [hex_char small (unat b div 16), hex_char small (unat b mod 16)]) bs)"

lemma hex_char_facts:
  assumes "d < 16"
  shows "atoi_char (hex_char small d) = word_of_nat d" and "\<not> is_space (hex_char small d)" and "hex_char small d \<noteq> 0"
proof -
  have "list_all (\<lambda>d. list_all (\<lambda>s. atoi_char (hex_char s d) = word_of_nat d \<and> \<not> is_space (hex_char s d) \<and>
      hex_char s d \<noteq> 0) [True, False]) [0..<16]"
    by code_simp
  then have "atoi_char (hex_char small d) = word_of_nat d \<and> \<not> is_space (hex_char small d) \<and> hex_char small d \<noteq> 0"
    using assms by (cases small) (simp_all add: list_all_iff del: upt_rec_numeral)
  then show "atoi_char (hex_char small d) = word_of_nat d" and "\<not> is_space (hex_char small d)"
    and "hex_char small d \<noteq> 0" by simp_all
qed

lemma snmp_atoi_map: "0 \<notin> set w \<Longrightarrow> ar_snmp_atoi (w @ 0 # r) = Inr (map atoi_char w @ 0 # r)"
  by (induction w) auto

definition nibbles :: "u8 list \<Rightarrow> u8 list" where
  "nibbles bs = concat (map (\<lambda>b. [word_of_nat (unat b div 16), word_of_nat (unat b mod 16)]) bs)"

lemma nibble_less: "unat (b :: u8) div 16 < 16"
  using unsigned_less [of b, where ?'a = nat] by simp

lemma hex_text_facts: "0 \<notin> set (hex_text small bs)" "length (hex_text small bs) = 2 * length bs"
  "map atoi_char (hex_text small bs) = nibbles bs"
proof -
  have "hex_char small (unat b div 16) \<noteq> 0 \<and> hex_char small (unat b mod 16) \<noteq> 0" for b :: u8
    using hex_char_facts(3) [OF nibble_less] hex_char_facts(3) [of "unat b mod 16"] by simp
  then show "0 \<notin> set (hex_text small bs)" unfolding hex_text_def by (induction bs) auto
  show "length (hex_text small bs) = 2 * length bs" by (induction bs) (simp_all add: hex_text_def)
  show "map atoi_char (hex_text small bs) = nibbles bs"
    by (induction bs) (simp_all add: hex_text_def nibbles_def hex_char_facts(1) nibble_less)
qed

lemma nibbles_nth:
  "k < length bs \<Longrightarrow> nibbles bs ! (2 * k) = word_of_nat (unat (bs ! k) div 16) \<and>
     nibbles bs ! (2 * k + 1) = word_of_nat (unat (bs ! k) mod 16)"
proof (induction bs arbitrary: k)
  case Nil
  then show ?case by simp
next
  case (Cons b bs)
  then show ?case by (cases k) (auto simp: nibbles_def)
qed

lemma length_nibbles: "length (nibbles bs) = 2 * length bs"
  by (induction bs) (simp_all add: nibbles_def)

lemma nibble_join: "push_bit 4 (word_of_nat (unat b div 16)) OR word_of_nat (unat b mod 16) = (b :: u8)"
proof -
  have wn: "word_of_nat (unat x) = x" for x :: u8 by simp
  have d: "unat (drop_bit 4 b) = unat b div 16" unfolding unat_drop_bit_eq by (simp add: drop_bit_eq_div)
  have m: "unat (take_bit 4 b) = unat b mod 16" unfolding unsigned_take_bit_eq by (simp add: take_bit_eq_mod)
  have "word_of_nat (unat b div 16) = drop_bit 4 b" unfolding d [symmetric] by (rule wn)
  moreover have "word_of_nat (unat b mod 16) = take_bit 4 b" unfolding m [symmetric] by (rule wn)
  moreover have "push_bit 4 (drop_bit 4 b) OR take_bit 4 b = b"
    by (rule bit_eqI) (auto simp: bit_or_iff bit_push_bit_iff bit_drop_bit_eq bit_take_bit_iff not_le)
  ultimately show ?thesis by simp
qed

lemma unat_u32_small: "n < 4294967296 \<Longrightarrow> unat (word_of_nat n :: u32) = n"
  by (simp add: unat_of_nat)

lemma unat_u8_small: "n < 256 \<Longrightarrow> unat (word_of_nat n :: u8) = n"
  by (simp add: unat_of_nat)

lemma hex_pairs_stop: "unat (sz - 1) \<le> unat idx \<Longrightarrow> hex_pairs sz idx out buf = buf_set buf out 0"
  by (subst hex_pairs.simps) simp

lemma hex_pairs_step:
  assumes "unat idx < unat (sz - 1)" and "buf_get buf (unat idx) = Inr a" and "buf_get buf (unat idx + 1) = Inr b"
    and "out < length buf"
  shows "hex_pairs sz idx out buf = hex_pairs sz (idx + 2) (out + 1) (buf[out := push_bit 4 a OR b])"
  using assms by (subst hex_pairs.simps) simp

text \<open>After \<open>k\<close> turns the first \<open>k\<close> bytes are in place and the rest is as it was.\<close>

lemma hex_pairs_run:
  assumes "length bs \<le> 63" and "0 < length bs" and "k \<le> length bs"
  shows "hex_pairs (word_of_nat (2 * length bs)) (word_of_nat (2 * k)) k
      (take k bs @ drop k (nibbles bs @ 0 # tail)) =
    Inr (bs @ 0 # drop (Suc (length bs)) (nibbles bs @ 0 # tail))"
  using assms(3)
proof (induction "length bs - k" arbitrary: k)
  let ?D = "nibbles bs @ 0 # tail" and ?n = "length bs"
  have sz: "unat (word_of_nat (2 * ?n) - 1 :: u32) = 2 * ?n - 1"
  proof -
    have u: "unat (word_of_nat (2 * ?n) :: u32) = 2 * ?n" using assms(1) by (intro unat_u32_small) simp
    moreover have "(1 :: u32) \<le> word_of_nat (2 * ?n)" using assms(2) unfolding word_le_nat_alt u by (simp add: Suc_le_eq)
    ultimately show ?thesis by (simp only: unat_sub) simp
  qed
  have idx: "unat (word_of_nat (2 * k) :: u8) = 2 * k" if "k \<le> ?n" for k
    using that assms(1) by (intro unat_u8_small) simp
  {
    case 0
    then have k: "k = ?n" by simp
    obtain x xs where dr: "drop ?n ?D = x # xs" using assms(2) by (cases "drop ?n ?D") (auto simp: length_nibbles)
    then have xs: "xs = drop (Suc ?n) ?D" by (metis drop_Suc list.sel(3) tl_drop)
    have "hex_pairs (word_of_nat (2 * ?n)) (word_of_nat (2 * ?n)) ?n (bs @ x # xs) = buf_set (bs @ x # xs) ?n 0"
      by (rule hex_pairs_stop) (simp only: sz idx [OF order_refl] diff_le_self)
    also have "\<dots> = Inr (bs @ 0 # xs)" by (simp add: buf_set_def list_update_append)
    finally show ?case unfolding k dr xs by (simp only: take_all order_refl)
  next
    case (Suc j)
    then have k: "k < ?n" by simp
    let ?buf = "take k bs @ drop k ?D"
    have len: "length ?buf = length ?D" using k by (simp add: length_nibbles)
    have rd: "?buf ! i = nibbles bs ! i" if "k \<le> i" "i < 2 * ?n" for i
      using that k diff_less_mono [OF that(2,1)] by (simp add: nth_append length_nibbles)
    have a: "buf_get ?buf (2 * k) = Inr (word_of_nat (unat (bs ! k) div 16))"
      using rd [of "2 * k"] k nibbles_nth [OF k] by (simp add: buf_get_def length_nibbles)
    have b: "buf_get ?buf (2 * k + 1) = Inr (word_of_nat (unat (bs ! k) mod 16))"
      using rd [of "2 * k + 1"] k nibbles_nth [OF k] by (simp add: buf_get_def length_nibbles)
    have upd: "?buf[k := bs ! k] = take (k + 1) bs @ drop (k + 1) ?D"
    proof -
      have "drop k ?D = ?D ! k # drop (Suc k) ?D" using k by (intro Cons_nth_drop_Suc [symmetric]) (simp add: length_nibbles)
      then show ?thesis using k by (simp add: list_update_append take_Suc_conv_app_nth)
    qed
    have next_idx: "(word_of_nat (2 * k) + 2 :: u8) = word_of_nat (2 * (k + 1))" by simp
    have "hex_pairs (word_of_nat (2 * ?n)) (word_of_nat (2 * k)) k ?buf =
        hex_pairs (word_of_nat (2 * ?n)) (word_of_nat (2 * (k + 1))) (k + 1) (take (k + 1) bs @ drop (k + 1) ?D)"
    proof (subst hex_pairs_step)
      note i = idx [OF less_imp_le [OF k]]
      show "unat (word_of_nat (2 * k) :: u8) < unat (word_of_nat (2 * ?n) - 1 :: u32)" using k unfolding sz i by simp
      show "buf_get ?buf (unat (word_of_nat (2 * k) :: u8)) = Inr (word_of_nat (unat (bs ! k) div 16))"
        unfolding i by (rule a)
      show "buf_get ?buf (unat (word_of_nat (2 * k) :: u8) + 1) = Inr (word_of_nat (unat (bs ! k) mod 16))"
        unfolding i by (rule b)
      show "k < length ?buf" using k len by (simp add: length_nibbles)
    qed (simp only: nibble_join upd next_idx)
    also have "\<dots> = Inr (bs @ 0 # drop (Suc ?n) ?D)" using Suc by (intro Suc.hyps(1)) auto
    finally show ?case .
  }
qed

lemma convert_value_hex:
  assumes "0 < length bs" and "length bs \<le> 63"
  shows "\<exists>buf. ar_snmp_convert_value (hex_text small bs @ 0 # tail) = Inr buf \<and> has_nul buf \<and>
    length buf = length (hex_text small bs @ 0 # tail) \<and> cstr_val buf = takeWhile (\<lambda>b. b \<noteq> 0) bs"
proof -
  have "c_strlen (hex_text small bs @ 0 # tail) = Inr (2 * length bs)"
    using c_strlen_append_nul [OF hex_text_facts(1)] hex_text_facts(2) by simp
  moreover have "ar_snmp_atoi (hex_text small bs @ 0 # tail) = Inr (nibbles bs @ 0 # tail)"
    using snmp_atoi_map [OF hex_text_facts(1)] hex_text_facts(3) by simp
  moreover have "hex_pairs (word_of_nat (2 * length bs)) 0 0 (nibbles bs @ 0 # tail) =
      Inr (bs @ 0 # drop (Suc (length bs)) (nibbles bs @ 0 # tail))"
    using hex_pairs_run [OF assms(2,1), of 0 tail] by simp
  ultimately show ?thesis
    by (intro exI [of _ "bs @ 0 # drop (Suc (length bs)) (nibbles bs @ 0 # tail)"])
      (simp add: ar_snmp_convert_value_def takeWhile_cstr hex_text_facts(2) length_nibbles)
qed

section \<open>Bit strings\<close>

definition byte_bits :: "u8 \<Rightarrow> bool list" where
  "byte_bits b = map (bit b) [7, 6, 5, 4, 3, 2, 1, 0]"

definition bit_text :: "u8 list \<Rightarrow> u8 list" where
  "bit_text bs = concat (map (\<lambda>b. map (\<lambda>x. if x then 0x31 else 0x30) (byte_bits b)) bs)"

definition bit_vals :: "u8 list \<Rightarrow> u8 list" where
  "bit_vals bs = concat (map (\<lambda>b. map of_bool (byte_bits b)) bs)"

lemma bit_text_facts: "0 \<notin> set (bit_text bs)" "length (bit_text bs) = 8 * length bs"
  "map atoi_char (bit_text bs) = bit_vals bs" "length (bit_vals bs) = 8 * length bs"
  by (induction bs) (auto simp: bit_text_def bit_vals_def byte_bits_def atoi_char_def)

fun gather :: "u8 \<Rightarrow> u8 list \<Rightarrow> u8" where
  "gather tv [] = tv"
| "gather tv (v # vs) = gather (tv OR push_bit (length vs) v) vs"

lemma gather_byte: "gather 0 (map of_bool (byte_bits b)) = b"
proof (rule bit_word_eqI)
  fix n assume "n < LENGTH(8)"
  then have "n = 0 \<or> n = 1 \<or> n = 2 \<or> n = 3 \<or> n = 4 \<or> n = 5 \<or> n = 6 \<or> n = 7" by (simp, arith)
  moreover have "gather 0 (map of_bool (byte_bits b)) =
    0 OR push_bit 7 (of_bool (bit b 7)) OR push_bit 6 (of_bool (bit b 6)) OR push_bit 5 (of_bool (bit b 5)) OR
    push_bit 4 (of_bool (bit b 4)) OR push_bit 3 (of_bool (bit b 3)) OR push_bit 2 (of_bool (bit b 2)) OR
    push_bit 1 (of_bool (bit b 1)) OR push_bit 0 (of_bool (bit b 0))"
    by (simp add: byte_bits_def)
  ultimately show "bit (gather 0 (map of_bool (byte_bits b))) n = bit b n"
    by (elim disjE) (simp_all add: bit_or_iff bit_push_bit_iff)
qed

lemma bit_groups_stop: "unat sz \<le> unat idx \<Longrightarrow> bit_groups sz idx bc src out tv buf = buf_set buf out 0"
  by (subst bit_groups.simps) simp

lemma bit_groups_store:
  "unat idx < unat sz \<Longrightarrow> out < length buf \<Longrightarrow>
     bit_groups sz idx 0 src out tv buf = bit_groups sz (idx + 8) 8 src (out + 1) 0 (buf[out := tv])"
  by (subst bit_groups.simps) simp

text \<open>The turns that read the characters of one byte.\<close>

lemma bit_groups_read:
  assumes "unat idx < unat sz"
  shows "take (length vs) (drop src buf) = vs \<Longrightarrow>
    bit_groups sz idx (length vs) src out tv buf = bit_groups sz idx 0 (src + length vs) out (gather tv vs) buf"
proof (induction vs arbitrary: src tv)
  case Nil
  then show ?case by simp
next
  case (Cons v vs)
  then obtain r where r: "drop src buf = v # r" by (cases "drop src buf") auto
  then have s: "src < length buf" by (metis drop_all linorder_not_less list.distinct(1))
  then have "buf ! src = v" and dr: "drop (Suc src) buf = r"
    using r by (simp_all add: Cons_nth_drop_Suc [symmetric])
  moreover have "take (length vs) (drop (Suc src) buf) = vs" using Cons.prems r dr by simp
  ultimately show ?case
    using Cons.IH [of "Suc src"] assms s by (subst bit_groups.simps) simp
qed

lemma length_byte_bits [simp]: "length (byte_bits b) = 8"
  by (simp add: byte_bits_def)

lemma bit_vals_Cons: "bit_vals (b # bs) = map of_bool (byte_bits b) @ bit_vals bs"
  by (simp add: bit_vals_def)

lemma drop_past: "length xs \<le> m \<Longrightarrow> drop m (xs @ drop (length xs) ys) = drop m ys"
  by simp

lemma bit_vals_chunk: "k < length bs \<Longrightarrow> take 8 (drop (8 * k) (bit_vals bs @ r)) = map of_bool (byte_bits (bs ! k))"
proof (induction bs arbitrary: k)
  case Nil
  then show ?case by simp
next
  case (Cons b bs)
  show ?case
  proof (cases k)
    case 0
    then show ?thesis by (simp add: bit_vals_Cons)
  next
    case (Suc j)
    have "drop (8 + 8 * j) (bit_vals (b # bs) @ r) = drop (8 * j) (bit_vals bs @ r)"
      by (simp add: bit_vals_Cons)
    moreover have "8 * k = 8 + 8 * j" by (simp add: Suc)
    ultimately have "drop (8 * k) (bit_vals (b # bs) @ r) = drop (8 * j) (bit_vals bs @ r)" by (simp only:)
    then show ?thesis using Cons Suc by simp
  qed
qed

lemma bit_groups_run:
  assumes "length bs \<le> 31" and "k \<le> length bs"
  shows "bit_groups (word_of_nat (8 * length bs)) (word_of_nat (8 * k)) 8 (8 * k) k 0
      (take k bs @ drop k (bit_vals bs @ 0 # tail)) =
    Inr (bs @ 0 # drop (Suc (length bs)) (bit_vals bs @ 0 # tail))"
  using assms(2)
proof (induction "length bs - k" arbitrary: k)
  let ?D = "bit_vals bs @ 0 # tail" and ?n = "length bs"
  have sz: "unat (word_of_nat (8 * ?n) :: u32) = 8 * ?n" using assms(1) by (intro unat_u32_small) simp
  have idx: "unat (word_of_nat (8 * k) :: u8) = 8 * k" if "k \<le> ?n" for k
    using that assms(1) by (intro unat_u8_small) simp
  have lD: "length ?D = 8 * ?n + Suc (length tail)" using bit_text_facts(4) by simp
  {
    case 0
    then have k: "k = ?n" by simp
    obtain x xs where dr: "drop ?n ?D = x # xs" using lD by (cases "drop ?n ?D") auto
    then have xs: "xs = drop (Suc ?n) ?D" by (metis drop_Suc list.sel(3) tl_drop)
    have "bit_groups (word_of_nat (8 * ?n)) (word_of_nat (8 * ?n)) 8 (8 * ?n) ?n 0 (bs @ x # xs) = buf_set (bs @ x # xs) ?n 0"
      by (rule bit_groups_stop) (simp only: sz idx [OF order_refl])
    also have "\<dots> = Inr (bs @ 0 # xs)" by (simp add: buf_set_def list_update_append)
    finally show ?case unfolding k dr xs by (simp only: take_all order_refl)
  next
    case (Suc j)
    then have k: "k < ?n" by simp
    let ?buf = "take k bs @ drop k ?D" and ?vs = "map of_bool (byte_bits (bs ! k)) :: u8 list"
    have lt: "unat (word_of_nat (8 * k) :: u8) < unat (word_of_nat (8 * ?n) :: u32)"
      using k unfolding sz idx [OF less_imp_le [OF k]] by simp
    have "drop (8 * k) ?buf = drop (8 * k) ?D"
      using drop_past [of "take k bs" "8 * k" ?D] k by (simp only: length_take min_absorb2 less_imp_le)
    then have rd: "take (length ?vs) (drop (8 * k) ?buf) = ?vs"
      using bit_vals_chunk [OF k, of "0 # tail"] by (simp only: length_map length_byte_bits)
    have upd: "?buf[k := bs ! k] = take (k + 1) bs @ drop (k + 1) ?D"
    proof -
      have "drop k ?D = ?D ! k # drop (Suc k) ?D" using k lD by (intro Cons_nth_drop_Suc [symmetric]) simp
      then show ?thesis using k by (simp add: list_update_append take_Suc_conv_app_nth)
    qed
    have "length ?buf = length ?D" using k lD by simp
    then have out: "k < length ?buf" using k lD by simp
    have next_idx: "(word_of_nat (8 * k) + 8 :: u8) = word_of_nat (8 * (k + 1))" by simp
    have next_src: "8 * k + 8 = 8 * (k + 1)" by simp
    have eight: "length ?vs = 8" by simp
    have "bit_groups (word_of_nat (8 * ?n)) (word_of_nat (8 * k)) 8 (8 * k) k 0 ?buf =
        bit_groups (word_of_nat (8 * ?n)) (word_of_nat (8 * k)) 0 (8 * k + 8) k (bs ! k) ?buf"
      using bit_groups_read [OF lt rd, of k 0] unfolding eight gather_byte .
    also have "\<dots> = bit_groups (word_of_nat (8 * ?n)) (word_of_nat (8 * (k + 1))) 8 (8 * (k + 1)) (k + 1) 0
        (take (k + 1) bs @ drop (k + 1) ?D)"
      unfolding bit_groups_store [OF lt out] next_idx upd next_src ..
    also have "\<dots> = Inr (bs @ 0 # drop (Suc ?n) ?D)" using Suc by (intro Suc.hyps(1)) auto
    finally show ?case .
  }
qed

lemma convert_bitvalue_bits:
  assumes "length bs \<le> 31"
  shows "\<exists>buf. ar_snmp_convert_bitvalue (bit_text bs @ 0 # tail) = Inr buf \<and> has_nul buf \<and>
    length buf = length (bit_text bs @ 0 # tail) \<and> cstr_val buf = takeWhile (\<lambda>b. b \<noteq> 0) bs"
proof -
  have "c_strlen (bit_text bs @ 0 # tail) = Inr (8 * length bs)"
    using c_strlen_append_nul [OF bit_text_facts(1)] bit_text_facts(2) by simp
  moreover have "ar_snmp_atoi (bit_text bs @ 0 # tail) = Inr (bit_vals bs @ 0 # tail)"
    using snmp_atoi_map [OF bit_text_facts(1)] bit_text_facts(3) by simp
  moreover have "bit_groups (word_of_nat (8 * length bs)) 0 8 0 0 0 (bit_vals bs @ 0 # tail) =
      Inr (bs @ 0 # drop (Suc (length bs)) (bit_vals bs @ 0 # tail))"
    using bit_groups_run [OF assms, of 0 tail] by simp
  ultimately show ?thesis
    by (intro exI [of _ "bs @ 0 # drop (Suc (length bs)) (bit_vals bs @ 0 # tail)"])
      (simp add: ar_snmp_convert_bitvalue_def takeWhile_cstr bit_text_facts(2,4))
qed

end
