(* ===== verification/Usr_SnmpTool.thy ===== *)
theory Usr_SnmpTool
  imports Usr_SnmpCodec AR_SnmpIoctl
begin

text \<open>
  The tool that reads a file of SNMP objects and sends them to the SNMP device,
  \<open>usr/ar-snmp-lib/lib-tool/ar_snmp_tool.c\<close>, and the library for SNMP agents that talks to the
  same device, \<open>lib-api/ar_snmp_api.c\<close>.  The locale \<open>entry_device\<close> states what the tool needs of
  the device; it is interpreted on the kernel's \<open>ar_interface_ioctl\<close>.
\<close>

section \<open>State\<close>

text \<open>
  The entry in the tool's memory: its two pointers with the blocks behind them (a \<open>malloc\<close>ed
  block is its bytes; a released one is still pointed to).
\<close>

record snmp_tool_entry =
  ent_oidSize :: u16
  ent_oidVal :: "u8 tblptr"
  ent_resSize :: u16
  ent_resVal :: "u8 tblptr"

text \<open>What a call of the device carries.\<close>

datatype snmp_arg = EntryArg snmp_tool_entry | CommArg "u8 list"

type_synonym 'k snmp_ioctl_fn = "u32 \<Rightarrow> snmp_arg \<Rightarrow> 'k \<Rightarrow> (int \<times> 'k) res"

record 'k snmp_tool =
  ar_snmp_entry :: snmp_tool_entry
  ar_devfd :: int
  snmp_console :: "string list"
  snmp_dev :: 'k

definition snmp_tool_start :: "'k \<Rightarrow> 'k snmp_tool" where
  "snmp_tool_start k = \<lparr>ar_snmp_entry = \<lparr>ent_oidSize = 0, ent_oidVal = TNull, ent_resSize = 0, ent_resVal = TNull\<rparr>,
     ar_devfd = - 1, snmp_console = [], snmp_dev = k\<rparr>"

text \<open>
  What a line meets: whether the two calls of \<open>malloc\<close> succeed, and the old contents of the two
  blocks and of the local variables \<open>oid\<close>, \<open>type\<close> and \<open>value\<close>.
\<close>

record line_env =
  env_ma_oid :: bool
  env_ma_res :: bool
  old_oidVal :: "nat \<Rightarrow> u8"
  old_resVal :: "nat \<Rightarrow> u8"
  old_oid :: "nat \<Rightarrow> u8"
  old_type :: u8
  old_value :: "nat \<Rightarrow> u8"

definition say :: "string \<Rightarrow> 'k snmp_tool \<Rightarrow> 'k snmp_tool" where
  "say msg st = st\<lparr>snmp_console := snmp_console st @ [msg]\<rparr>"

section \<open>Filling the entry\<close>

text \<open>
  The beginning every type has in common: the two blocks, and the identifier copied into the
  first one.  The flag says whether the function goes on.
\<close>

definition alloc_entry :: "line_env \<Rightarrow> u8 list \<Rightarrow> snmp_tool_entry \<Rightarrow> (bool \<times> snmp_tool_entry) res" where
  "alloc_entry env objId e =
     (if \<not> env_ma_oid env then Inr (False, e\<lparr>ent_oidVal := TNull\<rparr>)
      else if \<not> env_ma_res env then Inr (False, e\<lparr>ent_oidVal := TFreed, ent_resVal := TNull\<rparr>)
      else
        rbind (c_strlen objId) (\<lambda>n.
        let oidSize = word_of_nat n :: u16 in
        rbind (buf_copy (map (old_oidVal env) [0..<128]) 0 (take (unat oidSize) objId)) (\<lambda>oid.
        rbind (buf_set oid (unat oidSize) 0) (\<lambda>oid.
        Inr (True, e\<lparr>ent_oidVal := TArr oid, ent_resVal := TArr (map (old_resVal env) [0..<132]),
                     ent_oidSize := oidSize\<rparr>)))))"

text \<open>Type, length and bytes into the response, with a NUL behind them; its size is what the length says.\<close>

definition put_response :: "u8 \<Rightarrow> u8 \<Rightarrow> u8 list \<Rightarrow> snmp_tool_entry \<Rightarrow> snmp_tool_entry res" where
  "put_response type len bs e =
     rbind (tbl_set (ent_resVal e) 0 type) (\<lambda>p.
     rbind (tbl_set p 1 len) (\<lambda>p.
     rbind (case p of TArr b \<Rightarrow> buf_copy b 2 bs | _ \<Rightarrow> Inl NullDeref) (\<lambda>b.
     let resSize = 2 + unat len in
     rbind (buf_set b resSize 0) (\<lambda>b.
     Inr (e\<lparr>ent_resVal := TArr b, ent_resSize := word_of_nat resSize\<rparr>)))))"

definition set_integer :: "(u32 \<Rightarrow> u8 list) \<Rightarrow> u8 \<Rightarrow> u8 list \<Rightarrow> snmp_tool_entry \<Rightarrow> snmp_tool_entry res" where
  "set_integer order type value e =
     rbind (ar_snmp_get_size value) (\<lambda>n.
     let len = ucast n :: u8 in
     rbind (ar_snmp_get_val order len value) (\<lambda>bs.
     put_response (ar_snmp_get_type type) len bs e))"

text \<open>The bytes of a converted string, up to its NUL.\<close>

definition set_string :: "u8 \<Rightarrow> u8 list res \<Rightarrow> snmp_tool_entry \<Rightarrow> snmp_tool_entry res" where
  "set_string type value e =
     rbind value (\<lambda>value.
     rbind (c_strlen value) (\<lambda>n.
     let len = word_of_nat n :: u8 in
     put_response (ar_snmp_get_type type) len (take (unat len) value) e))"

text \<open>An address: its size is that of the response read as a string, and no NUL is put behind it.\<close>

definition set_address :: "u8 \<Rightarrow> u8 list \<Rightarrow> snmp_tool_entry \<Rightarrow> snmp_tool_entry res" where
  "set_address type value e =
     rbind (tbl_set (ent_resVal e) 0 (ar_snmp_get_type type)) (\<lambda>p.
     rbind (ar_snmp_process_string value) (\<lambda>value.
     rbind (c_strlen value) (\<lambda>n.
     let len = word_of_nat n :: u8 in
     rbind (tbl_set p 1 len) (\<lambda>p.
     rbind (case p of TArr b \<Rightarrow> buf_copy b 2 (take (unat len) value) | _ \<Rightarrow> Inl NullDeref) (\<lambda>b.
     rbind (c_strlen b) (\<lambda>m.
     Inr (e\<lparr>ent_resVal := TArr b, ent_resSize := word_of_nat m\<rparr>)))))))"

definition snmp_types :: "u8 list" where
  "snmp_types = map ch ''iutgaosdxb''"

text \<open>The part of each case that depends on the type.\<close>

definition set_value :: "(u32 \<Rightarrow> u8 list) \<Rightarrow> u8 \<Rightarrow> u8 list \<Rightarrow> snmp_tool_entry \<Rightarrow> snmp_tool_entry res" where
  "set_value order type value e =
     (if type \<in> set (map ch ''iutg'') then set_integer order type value e
      else if type = ch (CHR ''a'') then set_address type value e
      else if type = ch (CHR ''o'') then set_string type (ar_snmp_process_string value) e
      else if type = ch (CHR ''x'') then set_string type (ar_snmp_convert_value value) e
      else if type = ch (CHR ''b'') then set_string type (ar_snmp_convert_bitvalue value) e
      else set_string type (Inr value) e)"

definition ar_snmp_set_param ::
    "(u32 \<Rightarrow> u8 list) \<Rightarrow> line_env \<Rightarrow> u8 list \<Rightarrow> u8 \<Rightarrow> u8 list \<Rightarrow> 'k snmp_tool \<Rightarrow> 'k snmp_tool res" where
  "ar_snmp_set_param order env objId type value st =
     (if type \<notin> set snmp_types then Inr (say ''Invalid Type\<newline>'' st)
      else
        rbind (alloc_entry env objId (ar_snmp_entry st)) (\<lambda>(ok, e).
        if \<not> ok then Inr (say ''Memory allocation failed\<newline>'' (st\<lparr>ar_snmp_entry := e\<rparr>))
        else
          rbind (set_value order type value e) (\<lambda>e.
          Inr (st\<lparr>ar_snmp_entry := e\<rparr>))))"

section \<open>Sending\<close>

text \<open>
  A call on a device that is not open fails.  The kernel reads through the pointers of an
  entry, so a released block is read then.
\<close>

definition arg_dangles :: "snmp_arg \<Rightarrow> bool" where
  "arg_dangles arg = (case arg of CommArg b \<Rightarrow> False | EntryArg e \<Rightarrow> ent_oidVal e = TFreed \<or> ent_resVal e = TFreed)"

definition ar_snmp_send_ioctl ::
    "'k snmp_ioctl_fn \<Rightarrow> snmp_arg \<Rightarrow> u32 \<Rightarrow> 'k snmp_tool \<Rightarrow> (int \<times> 'k snmp_tool) res" where
  "ar_snmp_send_ioctl dev arg cmd st =
     (if ar_devfd st < 0 then Inr (- 1, st)
      else if arg_dangles arg then Inl UseAfterFree
      else rbind (dev cmd arg (snmp_dev st)) (\<lambda>(r, k).
           Inr (if r < 0 then - 1 else 0, st\<lparr>snmp_dev := k\<rparr>)))"

fun free_block :: "u8 tblptr \<Rightarrow> u8 tblptr res" where
  "free_block TNull = Inr TNull"
| "free_block TFreed = Inl DoubleFree"
| "free_block (TArr b) = Inr TFreed"

section \<open>Lines\<close>

text \<open>\<open>sscanf (pLine, "%s %c %s", oid, &type, value)\<close>: what is not found keeps its old contents.\<close>

definition scan_line :: "line_env \<Rightarrow> u8 list \<Rightarrow> (u8 list \<times> u8 \<times> u8 list) res" where
  "scan_line env pLine =
     (let oid = map (old_oid env) [0..<128]; value = map (old_value env) [0..<128]; type = old_type env in
      rbind (c_strlen pLine) (\<lambda>n.
      case scan_word (take n pLine) of
        None \<Rightarrow> Inr (oid, type, value)
      | Some (w, r) \<Rightarrow>
          rbind (buf_copy oid 0 (w @ [0])) (\<lambda>oid.
          case dropWhile is_space r of
            [] \<Rightarrow> Inr (oid, type, value)
          | c # r \<Rightarrow>
              (case scan_word r of
                 None \<Rightarrow> Inr (oid, c, value)
               | Some (v, _) \<Rightarrow> rbind (buf_copy value 0 (v @ [0])) (\<lambda>value. Inr (oid, c, value))))))"

definition ar_snmp_process_line ::
    "(u32 \<Rightarrow> u8 list) \<Rightarrow> 'k snmp_ioctl_fn \<Rightarrow> line_env \<Rightarrow> u8 list \<Rightarrow> 'k snmp_tool \<Rightarrow> 'k snmp_tool res" where
  "ar_snmp_process_line order dev env pLine st =
     rbind (scan_line env pLine) (\<lambda>(oid, type, value).
     rbind (ar_snmp_process_string oid) (\<lambda>oid.
     rbind (ar_snmp_set_param order env oid type value st) (\<lambda>st.
     rbind (ar_snmp_send_ioctl dev (EntryArg (ar_snmp_entry st)) (snmp_cmd CREATE_SNMP_ENTRY) st) (\<lambda>(retcode, st).
     if retcode < 0 then Inr (say ''Error in sending the SNMP information\<newline>'' st)
     else
       rbind (free_block (ent_oidVal (ar_snmp_entry st))) (\<lambda>_.
       rbind (free_block (ent_resVal (ar_snmp_entry st))) (\<lambda>_.
       Inr (st\<lparr>ar_snmp_entry := (ar_snmp_entry st)\<lparr>ent_oidVal := TNull, ent_resVal := TNull\<rparr>\<rparr>)))))))"

section \<open>The program\<close>

definition ar_snmp_dev_open :: "tool_host \<Rightarrow> 'k snmp_tool \<Rightarrow> int \<times> 'k snmp_tool" where
  "ar_snmp_dev_open host st =
     (if host_mknod host < 0 then
        (- 1, say ''ar_snmp_api.c:ar_snmp_dev_open: Unable to create device node\<newline>'' st)
      else let st = st\<lparr>ar_devfd := host_open host\<rparr> in
        if ar_devfd st < 0 then
          (ar_devfd st, say ''ar_snmp_api.c:ar_snmp_dev_open: Unable to open device\<newline>'' st)
        else (0, st))"

definition ar_snmp_dev_close :: "tool_host \<Rightarrow> int" where
  "ar_snmp_dev_close host = host_close host"

text \<open>The loop of \<open>main\<close> over the file; lines that begin with \<open>#\<close> are skipped.\<close>

function snmp_process_file ::
    "(u32 \<Rightarrow> u8 list) \<Rightarrow> 'k snmp_ioctl_fn \<Rightarrow> (nat \<Rightarrow> line_env) \<Rightarrow> u8 list \<Rightarrow> 'k snmp_tool \<Rightarrow> 'k snmp_tool res" where
  "snmp_process_file order dev env fp st =
     (case fgets 512 fp of
        None \<Rightarrow> Inr st
      | Some (line, fp') \<Rightarrow>
          rbind (buf_get line 0) (\<lambda>c.
          rbind (if c \<noteq> 0x23 then ar_snmp_process_line order dev (env (length fp')) line st else Inr st) (\<lambda>st.
          snmp_process_file order dev env fp' st)))"
  by pat_completeness auto
termination
  by (relation "measure (\<lambda>(order, dev, env, fp, st). length fp)") (auto dest: fgets_shorter)

declare snmp_process_file.simps [simp del]

text \<open>
  \<open>retcode\<close> is unsigned and \<open>fp < 0\<close> compares a pointer, so the checks after opening the device,
  after opening the file and after closing never hold.
\<close>

definition ar_snmp_main ::
    "tool_host \<Rightarrow> (u32 \<Rightarrow> u8 list) \<Rightarrow> 'k snmp_ioctl_fn \<Rightarrow> (nat \<Rightarrow> line_env) \<Rightarrow> string list \<Rightarrow> 'k snmp_tool \<Rightarrow>
     (int \<times> 'k snmp_tool) res" where
  "ar_snmp_main host order dev env argv st =
     (if length argv \<noteq> 2 then Inr (- 1, say ''Invalid input parameter\<newline>'' st)
      else
        let (r, st) = ar_snmp_dev_open host st; retcode = word_of_int r :: u32 in
        if uint retcode < 0 then Inr (sint retcode, say ''Error in opening the device\<newline>'' st)
        else
          case host_fopen host (argv ! 1) of
            None \<Rightarrow> Inl NullDeref
          | Some fp \<Rightarrow>
              rbind (snmp_process_file order dev env fp st) (\<lambda>st.
              let retcode = word_of_int (ar_snmp_dev_close host) :: u32 in
              if uint retcode < 0 then Inr (sint retcode, say ''Error in closing the device\<newline>'' st)
              else Inr (0, st)))"

section \<open>The agent's library\<close>

text \<open>Both functions open the device, send and close; no failure stops them, \<open>retcode\<close> being unsigned.\<close>

definition agent_send ::
    "tool_host \<Rightarrow> 'k snmp_ioctl_fn \<Rightarrow> snmp_arg \<Rightarrow> u32 \<Rightarrow> string \<Rightarrow> 'k snmp_tool \<Rightarrow> 'k snmp_tool res" where
  "agent_send host dev arg cmd msg st =
     (let (r, st) = ar_snmp_dev_open host st; retcode = word_of_int r :: u32 in
      if uint retcode < 0 then Inr (say ''Error in opening the device\<newline>'' st)
      else
        rbind (ar_snmp_send_ioctl dev arg cmd st) (\<lambda>(r, st).
        let retcode = word_of_int r :: u32;
            st = (if uint retcode < 0 then say msg st else st);
            retcode = word_of_int (ar_snmp_dev_close host) :: u32 in
        Inr (if uint retcode < 0 then say ''Error in closing the device\<newline>'' st else st)))"

definition ar_snmp_agent_get_pdu ::
    "tool_host \<Rightarrow> 'k snmp_ioctl_fn \<Rightarrow> snmp_tool_entry \<Rightarrow> 'k snmp_tool \<Rightarrow> 'k snmp_tool res" where
  "ar_snmp_agent_get_pdu host dev snmp_config st =
     (let st = st\<lparr>ar_snmp_entry := snmp_config\<rparr> in
      agent_send host dev (EntryArg (ar_snmp_entry st)) (snmp_cmd CREATE_SNMP_ENTRY)
        ''Error in sending the SNMP information\<newline>'' st)"

definition ar_snmp_agent_get_comm ::
    "tool_host \<Rightarrow> 'k snmp_ioctl_fn \<Rightarrow> u8 list \<Rightarrow> u32 \<Rightarrow> 'k snmp_tool \<Rightarrow> 'k snmp_tool res" where
  "ar_snmp_agent_get_comm host dev comm_name cmd st =
     agent_send host dev (CommArg comm_name) cmd ''Error in sending the community name\<newline>'' st"

end
