(* ===== verification/Usr_SnmpFile.thy ===== *)
theory Usr_SnmpFile
  imports Usr_SnmpTool
begin

text \<open>
  What a file of SNMP objects means, and that the tool of \<open>Usr_SnmpTool\<close> makes the kernel store
  just that: the conversions of \<open>Usr_SnmpCodec\<close> line by line, then the whole file against the
  interface \<open>entry_device\<close>, then the interpretation on the kernel.
\<close>

section \<open>Values of a line\<close>

text \<open>
  An integer with its letter, an address, an identifier, a word with its letter, bytes in
  hexadecimal and bytes in binary.
\<close>

datatype snmp_value =
    VInt u8 nat
  | VIp "nat list"
  | VOid "nat list"
  | VStr u8 "u8 list"
  | VHex bool "u8 list"
  | VBits "u8 list"

primrec value_letter :: "snmp_value \<Rightarrow> u8" where
  "value_letter (VInt l n) = l"
| "value_letter (VIp ns) = ch (CHR ''a'')"
| "value_letter (VOid ns) = ch (CHR ''o'')"
| "value_letter (VStr l w) = l"
| "value_letter (VHex small bs) = ch (CHR ''x'')"
| "value_letter (VBits bs) = ch (CHR ''b'')"

primrec value_text :: "snmp_value \<Rightarrow> u8 list" where
  "value_text (VInt l n) = number_text 10 n"
| "value_text (VIp ns) = dotted ns"
| "value_text (VOid ns) = dotted ns"
| "value_text (VStr l w) = w"
| "value_text (VHex small bs) = hex_text small bs"
| "value_text (VBits bs) = bit_text bs"

definition nonzero :: "u8 list \<Rightarrow> u8 list" where
  "nonzero bs = takeWhile (\<lambda>b. b \<noteq> 0) bs"

definition int_bytes :: "nat \<Rightarrow> u8 list" where
  "int_bytes n = drop (4 - unat (size_loop (word_of_nat n) 0 1)) (big_endian (word_of_nat n))"

text \<open>The bytes of the response: all of an integer, of the others those before the first zero.\<close>

primrec value_bytes :: "snmp_value \<Rightarrow> u8 list" where
  "value_bytes (VInt l n) = int_bytes n"
| "value_bytes (VIp ns) = nonzero (map word_of_nat ns)"
| "value_bytes (VOid ns) = nonzero (map word_of_nat ns)"
| "value_bytes (VStr l w) = w"
| "value_bytes (VHex small bs) = nonzero bs"
| "value_bytes (VBits bs) = nonzero bs"

definition dotted_ok :: "nat list \<Rightarrow> bool" where
  "dotted_ok ns \<longleftrightarrow> ns \<noteq> [] \<and> list_all (\<lambda>n. n < 1000) ns \<and> length (dotted ns) \<le> 127"

primrec value_ok :: "snmp_value \<Rightarrow> bool" where
  "value_ok (VInt l n) \<longleftrightarrow> l \<in> set (map ch ''iutg'') \<and> n < 2 ^ 31"
| "value_ok (VIp ns) \<longleftrightarrow> dotted_ok ns"
| "value_ok (VOid ns) \<longleftrightarrow> dotted_ok ns"
| "value_ok (VStr l w) \<longleftrightarrow> l \<in> set (map ch ''sd'') \<and> w \<noteq> [] \<and> length w \<le> 127 \<and>
     list_all (\<lambda>b. \<not> is_space b \<and> b \<noteq> 0) w"
| "value_ok (VHex small bs) \<longleftrightarrow> bs \<noteq> [] \<and> length bs \<le> 63"
| "value_ok (VBits bs) \<longleftrightarrow> bs \<noteq> [] \<and> length bs \<le> 15"

section \<open>The response of a value\<close>

definition is_ip :: "snmp_value \<Rightarrow> bool" where
  "is_ip v \<longleftrightarrow> (case v of VIp ns \<Rightarrow> True | _ \<Rightarrow> False)"

text \<open>
  The 132 bytes of the block, \<open>old\<close> being what it held: type, length, the bytes and, but for
  addresses, a NUL.
\<close>

definition response :: "u8 list \<Rightarrow> snmp_value \<Rightarrow> u8 list" where
  "response old v =
     (let bs = value_bytes v; tlv = [ar_snmp_get_type (value_letter v), word_of_nat (length bs)] @ bs in
      if is_ip v then tlv @ drop (2 + length bs) old else tlv @ 0 # drop (3 + length bs) old)"

definition response_size :: "u8 list \<Rightarrow> snmp_value \<Rightarrow> nat" where
  "response_size old v =
     (if is_ip v then length (cstr_val (response old v)) else 2 + length (value_bytes v))"

lemma nonzero_length: "length (nonzero bs) \<le> length bs"
  by (simp add: nonzero_def length_takeWhile_le)

lemma nonzero_no_nul [simp]: "0 \<notin> set (nonzero bs)"
  by (auto simp: nonzero_def dest: set_takeWhileD)

lemma length_big_endian [simp]: "length (big_endian w) = 4"
  by (simp add: big_endian_def)

lemma int_bytes_length: "length (int_bytes n) = unat (size_loop (word_of_nat n) 0 1)"
  using size_loop_shortest [of "word_of_nat n"] by (simp add: int_bytes_def big_endian_def)

lemma value_bytes_length: "value_ok v \<Longrightarrow> length (value_bytes v) \<le> 127"
proof (cases v)
  case (VInt l n)
  then show ?thesis using int_bytes_length size_loop_shortest(2) [of "word_of_nat n"] by simp
next
  case (VIp ns)
  then show "value_ok v \<Longrightarrow> ?thesis"
    using nonzero_length [of "map word_of_nat ns"] dotted_length [of ns] by (auto simp: dotted_ok_def)
next
  case (VOid ns)
  then show "value_ok v \<Longrightarrow> ?thesis"
    using nonzero_length [of "map word_of_nat ns"] dotted_length [of ns] by (auto simp: dotted_ok_def)
next
  case (VStr l w)
  then show "value_ok v \<Longrightarrow> ?thesis" by simp
next
  case (VHex small bs)
  then show "value_ok v \<Longrightarrow> ?thesis" using nonzero_length [of bs] by simp
next
  case (VBits bs)
  then show "value_ok v \<Longrightarrow> ?thesis" using nonzero_length [of bs] by simp
qed

lemma two_cells: "length b = 132 \<Longrightarrow> \<exists>x y r. b = x # y # r \<and> length r = 130"
  by (cases b; cases "tl b") auto

lemma put_response_eq:
  assumes "ent_resVal e = TArr old" and "length old = 132" and "length bs = unat len" and "length bs \<le> 127"
  shows "put_response type len bs e = Inr (e\<lparr>ent_resVal := TArr ([type, len] @ bs @ 0 # drop (3 + length bs) old),
     ent_resSize := word_of_nat (2 + length bs)\<rparr>)"
proof -
  obtain x y r where old: "old = x # y # r" "length r = 130" using two_cells [OF assms(2)] by blast
  obtain z zs where z: "drop (length bs) r = z # zs"
    using assms(4) old(2) by (cases "drop (length bs) r") auto
  then have zs: "zs = drop (Suc (length bs)) r" by (metis drop_Suc list.sel(3) tl_drop)
  have cp: "buf_copy (type # len # r) 2 bs = Inr (type # len # bs @ z # zs)"
    using assms(4) old(2) by (simp add: buf_copy_def z [symmetric])
  have st: "buf_set (type # len # bs @ z # zs) (2 + length bs) 0 = Inr (type # len # bs @ 0 # zs)"
    by (simp add: buf_set_def list_update_append)
  have "drop (3 + length bs) old = zs" by (simp add: old(1) zs numeral_3_eq_3)
  then show ?thesis
    using assms(1,3) cp st old(1) by (simp add: put_response_def Let_def)
qed

lemma set_string_eq:
  assumes "ent_resVal e = TArr old" and "length old = 132" and "value = Inr buf" and "has_nul buf"
    and "cstr_val buf = bs" and "length bs \<le> 127"
  shows "set_string type value e = Inr (e\<lparr>ent_resVal := TArr ([ar_snmp_get_type type, word_of_nat (length bs)] @ bs
      @ 0 # drop (3 + length bs) old), ent_resSize := word_of_nat (2 + length bs)\<rparr>)"
proof -
  have u: "unat (word_of_nat (length bs) :: u8) = length bs" using assms(6) by (intro unat_u8_small) simp
  have "take (length bs) buf = bs"
    using assms(4,5) by (induction buf arbitrary: bs) auto
  with put_response_eq [OF assms(1,2), of bs "word_of_nat (length bs)"] assms(3-6) u show ?thesis
    by (simp add: set_string_def c_strlen_eq)
qed

lemma set_integer_eq:
  assumes "ent_resVal e = TArr old" and "length old = 132" and "n < 2 ^ 31"
  shows "set_integer big_endian type (number_text 10 n @ 0 # tail) e = Inr (e\<lparr>ent_resVal :=
      TArr ([ar_snmp_get_type type, word_of_nat (length (int_bytes n))] @ int_bytes n
        @ 0 # drop (3 + length (int_bytes n)) old), ent_resSize := word_of_nat (2 + length (int_bytes n))\<rparr>)"
proof -
  let ?w = "word_of_nat n :: u32" and ?s = "size_loop (word_of_nat n) 0 1"
  note k = size_loop_shortest(1,2) [of ?w]
  have at: "c_atoi (number_text 10 n @ 0 # tail) = Inr (int n)" using assms(3) by (rule atoi_text)
  have w: "word_of_int (int n) = ?w" by simp
  have ub: "unat (ucast ?s :: u8) = unat ?s"
  proof -
    have "unat (ucast ?s :: u8) = unat ?s mod 256" unfolding unsigned_ucast_eq take_bit_eq_mod by simp
    then show ?thesis using k by simp
  qed
  have len: "length (int_bytes n) = unat (ucast ?s :: u8)" unfolding ub by (rule int_bytes_length)
  have "ar_snmp_get_val big_endian (ucast ?s) (number_text 10 n @ 0 # tail) = Inr (int_bytes n)"
    using k by (simp add: ar_snmp_get_val_def at ub int_bytes_def Let_def)
  moreover have "ar_snmp_get_size (number_text 10 n @ 0 # tail) = Inr ?s"
    by (simp add: ar_snmp_get_size_def at)
  moreover have "length (int_bytes n) \<le> 127" using k int_bytes_length [of n] by simp
  moreover have "(word_of_nat (length (int_bytes n)) :: u8) = ucast ?s" unfolding len by simp
  ultimately show ?thesis
    using put_response_eq [OF assms(1,2) len] by (simp add: set_integer_def Let_def)
qed

lemma set_address_run:
  assumes "ent_resVal e = TArr old" and "length old = 132" and "dotted_ok ns"
  shows "set_address (ch (CHR ''a'')) (dotted ns @ 0 # tail) e =
    rbind (c_strlen (response old (VIp ns))) (\<lambda>m.
      Inr (e\<lparr>ent_resVal := TArr (response old (VIp ns)), ent_resSize := word_of_nat m\<rparr>))"
proof -
  let ?bs = "nonzero (map word_of_nat ns)" and ?t = "ar_snmp_get_type (ch (CHR ''a''))"
  have ns: "ns \<noteq> []" "list_all (\<lambda>n. n < 1000) ns" "length ns \<le> 127"
    using assms(3) dotted_length [of ns] by (auto simp: dotted_ok_def)
  obtain buf where buf: "ar_snmp_process_string (dotted ns @ 0 # tail) = Inr buf" "has_nul buf" "cstr_val buf = ?bs"
    using process_string_dotted [OF ns] by (auto simp: nonzero_def)
  have lb: "length ?bs \<le> 127" using nonzero_length [of "map word_of_nat ns"] ns(3) by simp
  then have u: "unat (word_of_nat (length ?bs) :: u8) = length ?bs" by (intro unat_u8_small) simp
  obtain x y r where old: "old = x # y # r" "length r = 130" using two_cells [OF assms(2)] by blast
  have tk: "take (length ?bs) buf = ?bs"
    using buf(2,3) by (metis append_eq_conv_conj c_strlen_eq cstr_val_append_nul cstr_val_def takeWhile_eq_take)
  have "response old (VIp ns) = ?t # word_of_nat (length ?bs) # ?bs @ drop (length ?bs) r"
    by (simp add: response_def is_ip_def old(1) Let_def)
  then have cp: "buf_copy (?t # word_of_nat (length ?bs) # r) 2 ?bs = Inr (response old (VIp ns))"
    using lb old(2) by (simp add: buf_copy_def)
  show ?thesis
    using assms(1) buf u tk old(1) cp by (simp add: set_address_def c_strlen_eq Let_def)
qed

lemma set_address_eq:
  assumes "ent_resVal e = TArr old" and "length old = 132" and "dotted_ok ns"
    and "has_nul (response old (VIp ns))"
  shows "set_address (ch (CHR ''a'')) (dotted ns @ 0 # tail) e = Inr (e\<lparr>ent_resVal := TArr (response old (VIp ns)),
      ent_resSize := word_of_nat (response_size old (VIp ns))\<rparr>)"
  using set_address_run [OF assms(1-3), of tail] c_strlen_eq [OF assms(4)]
  by (simp add: response_size_def is_ip_def)

section \<open>Filling the entry\<close>

definition oid_bytes :: "nat list \<Rightarrow> u8 list" where
  "oid_bytes ns = nonzero (map word_of_nat ns)"

text \<open>The entry after the line: the identifier in its block, and the response of the value.\<close>

definition entry_for :: "nat list \<Rightarrow> snmp_value \<Rightarrow> u8 list \<Rightarrow> snmp_tool_entry \<Rightarrow> bool" where
  "entry_for ns v old e \<longleftrightarrow>
     (\<exists>ob. ent_oidVal e = TArr ob \<and> has_nul ob \<and> cstr_val ob = oid_bytes ns \<and> length ob = 128) \<and>
     ent_oidSize e = word_of_nat (length (oid_bytes ns)) \<and>
     ent_resVal e = TArr (response old v) \<and> ent_resSize e = word_of_nat (response_size old v)"

lemma alloc_entry_eq:
  assumes "env_ma_oid env" and "env_ma_res env" and "has_nul objId" and "cstr_val objId = bs"
    and "length bs \<le> 127"
  shows "\<exists>ob. has_nul ob \<and> cstr_val ob = bs \<and> length ob = 128 \<and>
    alloc_entry env objId e = Inr (True, e\<lparr>ent_oidVal := TArr ob,
      ent_resVal := TArr (map (old_resVal env) [0..<132]), ent_oidSize := word_of_nat (length bs)\<rparr>)"
proof -
  define old where "old = map (old_oidVal env) [0..<128]"
  have [simp]: "length old = 128" by (simp add: old_def)
  have tk: "take (length bs) objId = bs" using assms(3,4) by (induction objId arbitrary: bs) auto
  obtain z zs where z: "drop (length bs) old = z # zs"
    using assms(5) by (cases "drop (length bs) old") auto
  have "length (drop (length bs) old) = 128 - length bs" by simp
  then have lz: "length (bs @ 0 # zs) = 128" using assms(5) unfolding z by simp
  have u: "unat (word_of_nat (length bs) :: u16) = length bs" using assms(5) by (simp add: unat_of_nat)
  have nz: "0 \<notin> set bs" using assms(4) by auto
  have "buf_copy old 0 bs = Inr (bs @ z # zs)" using assms(5) by (simp add: buf_copy_def z)
  moreover have "buf_set (bs @ z # zs) (length bs) 0 = Inr (bs @ 0 # zs)"
    by (simp add: buf_set_def list_update_append)
  ultimately show ?thesis
    using assms(1-4) tk u lz nz
    by (intro exI [of _ "bs @ 0 # zs"]) (simp add: alloc_entry_def c_strlen_eq old_def [symmetric] Let_def)
qed

lemma ch_eq [simp]: "ch c = ch d \<longleftrightarrow> c = d"
  by (simp add: ch_def)

lemma value_letter_known: "value_ok v \<Longrightarrow> value_letter v \<in> set snmp_types"
  by (cases v) (auto simp: snmp_types_def)

text \<open>Every kind of value: the response is the one for it.\<close>

definition with_response :: "u8 list \<Rightarrow> snmp_value \<Rightarrow> snmp_tool_entry \<Rightarrow> snmp_tool_entry" where
  "with_response old v e =
     e\<lparr>ent_resVal := TArr (response old v), ent_resSize := word_of_nat (response_size old v)\<rparr>"

lemma set_string_value:
  assumes "ent_resVal e = TArr old" and "length old = 132" and "value_ok v" and "\<not> is_ip v"
    and "\<exists>buf. conv = Inr buf \<and> has_nul buf \<and> cstr_val buf = value_bytes v"
  shows "set_string (value_letter v) conv e = Inr (with_response old v e)"
proof -
  obtain buf where "conv = Inr buf" "has_nul buf" "cstr_val buf = value_bytes v" using assms(5) by blast
  from set_string_eq [OF assms(1,2) this value_bytes_length [OF assms(3)], of "value_letter v"] assms(4)
  show ?thesis by (simp add: with_response_def response_def response_size_def Let_def)
qed

lemma set_value_eq:
  assumes "ent_resVal e = TArr old" and "length old = 132" and "value_ok v"
    and "is_ip v \<Longrightarrow> has_nul (response old v)"
  shows "set_value big_endian (value_letter v) (value_text v @ 0 # tail) e = Inr (with_response old v e)"
proof (cases v)
  case (VInt l n)
  with assms(3) have "l \<in> set (map ch ''iutg'')" "n < 2 ^ 31" by auto
  with set_integer_eq [OF assms(1,2), of n l tail] VInt show ?thesis
    by (simp add: set_value_def with_response_def response_def response_size_def is_ip_def Let_def)
next
  case (VIp ns)
  with assms(3,4) have "dotted_ok ns" "has_nul (response old (VIp ns))" by (auto simp: is_ip_def)
  from set_address_eq [OF assms(1,2) this, of tail] VIp show ?thesis
    by (simp add: set_value_def with_response_def)
next
  case (VOid ns)
  then have "ns \<noteq> []" "list_all (\<lambda>n. n < 1000) ns" "length ns \<le> 127"
    using assms(3) dotted_length [of ns] by (auto simp: dotted_ok_def)
  from process_string_dotted [OF this, of tail] set_string_value [OF assms(1-3)] VOid show ?thesis
    by (auto simp: set_value_def nonzero_def is_ip_def)
next
  case (VStr l w)
  then have "0 \<notin> set w" and "l = ch (CHR ''s'') \<or> l = ch (CHR ''d'')"
    using assms(3) by (auto simp: list_all_iff)
  with set_string_value [OF assms(1-3), of "Inr (w @ 0 # tail)"] VStr show ?thesis
    by (auto simp: set_value_def is_ip_def)
next
  case (VHex small bs)
  then have "0 < length bs" "length bs \<le> 63" using assms(3) by auto
  from convert_value_hex [OF this, where tail = tail] set_string_value [OF assms(1-3)] VHex show ?thesis
    by (auto simp: set_value_def nonzero_def is_ip_def)
next
  case (VBits bs)
  then have "length bs \<le> 31" using assms(3) by simp
  from convert_bitvalue_bits [OF this, of tail] set_string_value [OF assms(1-3)] VBits show ?thesis
    by (auto simp: set_value_def nonzero_def is_ip_def)
qed

lemma set_param_eq:
  assumes ok: "value_ok v" and env: "env_ma_oid env" "env_ma_res env"
    and oid: "has_nul objId" "cstr_val objId = oid_bytes ns" "length (oid_bytes ns) \<le> 127"
  defines "old \<equiv> map (old_resVal env) [0..<132]"
  assumes ip: "is_ip v \<Longrightarrow> has_nul (response old v)"
  shows "\<exists>e. ar_snmp_set_param big_endian env objId (value_letter v) (value_text v @ 0 # tail) st =
      Inr (st\<lparr>ar_snmp_entry := e\<rparr>) \<and> entry_for ns v old e"
proof -
  have lo: "length old = 132" by (simp add: old_def)
  obtain ob where ob: "has_nul ob" "cstr_val ob = oid_bytes ns" "length ob = 128"
    "alloc_entry env objId (ar_snmp_entry st) = Inr (True, (ar_snmp_entry st)\<lparr>ent_oidVal := TArr ob,
      ent_resVal := TArr old, ent_oidSize := word_of_nat (length (oid_bytes ns))\<rparr>)"
    using alloc_entry_eq [OF env oid, of "ar_snmp_entry st"] unfolding old_def by blast
  let ?e = "(ar_snmp_entry st)\<lparr>ent_oidVal := TArr ob, ent_resVal := TArr old,
      ent_oidSize := word_of_nat (length (oid_bytes ns))\<rparr>"
  have "set_value big_endian (value_letter v) (value_text v @ 0 # tail) ?e = Inr (with_response old v ?e)"
    using lo ok ip by (intro set_value_eq) simp_all
  then have "ar_snmp_set_param big_endian env objId (value_letter v) (value_text v @ 0 # tail) st =
      Inr (st\<lparr>ar_snmp_entry := with_response old v ?e\<rparr>)"
    by (simp add: ar_snmp_set_param_def value_letter_known [OF ok] ob(4))
  moreover have "entry_for ns v old (with_response old v ?e)"
    using ob(1-3) by (simp add: entry_for_def with_response_def)
  ultimately show ?thesis by blast
qed

section \<open>Lines of a file\<close>

datatype snmp_line =
    Remark "u8 list"
  | Object "nat list" "u8 list" "u8 list" snmp_value

primrec line_text :: "snmp_line \<Rightarrow> u8 list" where
  "line_text (Remark s) = 0x23 # s"
| "line_text (Object ns g1 g2 v) = dotted ns @ g1 @ value_letter v # g2 @ value_text v"

definition snmp_file :: "snmp_line list \<Rightarrow> u8 list" where
  "snmp_file ls = concat (map (\<lambda>l. line_text l @ [newline]) ls)"

definition line_ok :: "snmp_line \<Rightarrow> bool" where
  "line_ok l \<longleftrightarrow> length (line_text l) < 511 \<and>
     (case l of
        Remark s \<Rightarrow> newline \<notin> set s
      | Object ns g1 g2 v \<Rightarrow> dotted_ok ns \<and> gap g1 \<and> gap g2 \<and> value_ok v)"

text \<open>Neither white space nor a NUL in the words of a line.\<close>

definition solid :: "u8 list \<Rightarrow> bool" where
  "solid w \<longleftrightarrow> w \<noteq> [] \<and> list_all (\<lambda>b. \<not> is_space b \<and> b \<noteq> 0) w"

lemma solid_append: "solid v \<Longrightarrow> solid w \<Longrightarrow> solid (v @ w)"
  by (simp add: solid_def)

lemma solid_number: "solid (number_text 10 n)"
  using number_text_other [of 10 _ n] by (auto simp: solid_def list_all_iff)

lemma solid_dotted: "ns \<noteq> [] \<Longrightarrow> solid (dotted ns)"
proof (induction ns rule: dotted.induct)
  case (3 n m ns)
  have "solid [0x2E]" by (simp add: solid_def is_space_def)
  with solid_append [OF solid_append [OF solid_number this]] 3 show ?case by simp
qed (simp_all add: solid_number)

lemma solid_hex: "bs \<noteq> [] \<Longrightarrow> solid (hex_text small bs)"
proof -
  have "\<not> is_space (hex_char small (unat b div 16)) \<and> \<not> is_space (hex_char small (unat b mod 16))" for b :: u8
    using hex_char_facts(2) [OF nibble_less] hex_char_facts(2) [of "unat b mod 16"] by simp
  then have "list_all (\<lambda>b. \<not> is_space b) (hex_text small bs)" unfolding hex_text_def by (induction bs) auto
  then show "bs \<noteq> [] \<Longrightarrow> ?thesis"
    using hex_text_facts(1,2) [of small bs] by (auto simp: solid_def list_all_iff)
qed

lemma solid_bits: "bs \<noteq> [] \<Longrightarrow> solid (bit_text bs)"
proof -
  have "list_all (\<lambda>b. \<not> is_space b \<and> b \<noteq> 0) (bit_text bs)"
    by (auto simp: list_all_iff bit_text_def is_space_def)
  then show "bs \<noteq> [] \<Longrightarrow> ?thesis" using bit_text_facts(2) [of bs] by (auto simp: solid_def)
qed

lemma solid_value: "value_ok v \<Longrightarrow> solid (value_text v)"
  by (cases v) (simp_all add: solid_number solid_dotted solid_hex solid_bits dotted_ok_def,
    simp add: solid_def list_all_iff)

lemma value_text_length: "value_ok v \<Longrightarrow> length (value_text v) \<le> 127"
proof (cases v)
  case (VInt l n)
  assume "value_ok v"
  then have "n < 10 ^ 127" using VInt less_trans [of n "2 ^ 31" "10 ^ 127"] by simp
  then show ?thesis using number_text_length [of n 10 127] VInt by simp
next
  case (VHex small bs)
  then show "value_ok v \<Longrightarrow> ?thesis" using hex_text_facts(2) [where bs = bs] by simp
next
  case (VBits bs)
  then show "value_ok v \<Longrightarrow> ?thesis" using bit_text_facts(2) [of bs] by simp
qed (auto simp: dotted_ok_def)

lemma letter_solid: "value_ok v \<Longrightarrow> \<not> is_space (value_letter v) \<and> value_letter v \<noteq> 0"
  using value_letter_known [of v] by (auto simp: snmp_types_def ch_def is_space_def)

lemma scan_line_object:
  assumes "dotted_ok ns" and "gap g1" and "gap g2" and "value_ok v"
  shows "\<exists>t1 t2. scan_line env (line_text (Object ns g1 g2 v) @ [newline, 0]) =
    Inr (dotted ns @ 0 # t1, value_letter v, value_text v @ 0 # t2)"
proof -
  let ?w = "dotted ns" and ?x = "value_text v" and ?l = "value_letter v"
  have w: "solid ?w" "length ?w \<le> 127" using assms(1) solid_dotted by (auto simp: dotted_ok_def)
  have x: "solid ?x" "length ?x \<le> 127" using solid_value value_text_length assms(4) by auto
  note l = letter_solid [OF assms(4)]
  have g: "list_all is_space g" "0 \<notin> set g" "\<exists>a h. g = a # h \<and> is_space a" if "gap g" for g
    using that by (cases g; auto simp: gap_def list_all_iff is_space_def)+
  have nl: "is_space newline" "newline \<noteq> 0" by (simp_all add: newline_def is_space_def)
  have s: "list_all (\<lambda>b. \<not> is_space b) y \<and> y \<noteq> [] \<and> 0 \<notin> set y" if "solid y" for y
    using that by (auto simp: solid_def list_all_iff)
  let ?t = "?w @ g1 @ ?l # g2 @ ?x @ [newline]"
  have "0 \<notin> set ?t" using s [OF w(1)] s [OF x(1)] g(2) assms(2,3) l nl(2) by auto
  then have sl: "c_strlen (?t @ [0]) = Inr (length ?t)" by (rule c_strlen_append_nul)
  obtain a h where a: "g1 = a # h" "is_space a" using g(3) [OF assms(2)] by blast
  have w1: "scan_word ?t = Some (?w, g1 @ ?l # g2 @ ?x @ [newline])"
    using scan_word_eq [of "[]" ?w "g1 @ ?l # g2 @ ?x @ [newline]"] s [OF w(1)] a by simp
  have dw: "dropWhile is_space (g1 @ ?l # g2 @ ?x @ [newline]) = ?l # g2 @ ?x @ [newline]"
    using g(1) [OF assms(2)] l by (induction g1) auto
  have w2: "scan_word (g2 @ ?x @ [newline]) = Some (?x, [newline])"
    using scan_word_eq [of g2 ?x "[newline]"] g(1) [OF assms(3)] s [OF x(1)] nl by simp
  have cp: "buf_copy (map f [0..<128]) 0 (y @ [0]) = Inr (y @ 0 # drop (Suc (length y)) (map f [0..<128]))"
    if "length y \<le> 127" for f and y :: "u8 list"
    using that by (simp add: buf_copy_def)
  have "take (length ?t) (?t @ [0]) = ?t" by simp
  then show ?thesis
    using sl w1 dw w2 cp [OF w(2)] cp [OF x(2)] by (simp add: scan_line_def Let_def del: upt_Suc)
qed

section \<open>The device, as the tool needs it\<close>

text \<open>What a line adds to the table: identifier, its size, the size of the response, the response.\<close>

type_synonym item = "u8 list \<times> u16 \<times> u16 \<times> u8 list"

definition object_item :: "line_env \<Rightarrow> nat list \<Rightarrow> snmp_value \<Rightarrow> item" where
  "object_item env ns v =
     (let old = map (old_resVal env) [0..<132] in
      (oid_bytes ns, word_of_nat (length (oid_bytes ns)), word_of_nat (response_size old v), response old v))"

text \<open>The memory a line meets: both calls of \<open>malloc\<close> succeed, and the response of an address ends.\<close>

definition env_good :: "line_env \<Rightarrow> snmp_line \<Rightarrow> bool" where
  "env_good env l \<longleftrightarrow> env_ma_oid env \<and> env_ma_res env \<and>
     (case l of
        Remark s \<Rightarrow> True
      | Object ns g1 g2 v \<Rightarrow> is_ip v \<longrightarrow> has_nul (response (map (old_resVal env) [0..<132]) v))"

fun envs_good :: "(nat \<Rightarrow> line_env) \<Rightarrow> snmp_line list \<Rightarrow> bool" where
  "envs_good env [] \<longleftrightarrow> True"
| "envs_good env (l # ls) \<longleftrightarrow> env_good (env (length (snmp_file ls))) l \<and> envs_good env ls"

fun file_items :: "(nat \<Rightarrow> line_env) \<Rightarrow> snmp_line list \<Rightarrow> item list" where
  "file_items env [] = []"
| "file_items env (Remark s # ls) = file_items env ls"
| "file_items env (Object ns g1 g2 v # ls) = object_item (env (length (snmp_file ls))) ns v # file_items env ls"

definition accepted :: "item list \<Rightarrow> int list \<Rightarrow> item list" where
  "accepted is rs = map fst (filter (\<lambda>ir. snd ir = 0) (zip is rs))"

definition refused :: "int list \<Rightarrow> nat" where
  "refused rs = length (filter (\<lambda>r. r < 0) rs)"

text \<open>
  What the device is sent for a file: for each object an entry with its identifier and the
  response of its value; and what it answers to a sequence of requests to create entries.
\<close>

fun sent_for :: "(nat \<Rightarrow> line_env) \<Rightarrow> snmp_line list \<Rightarrow> snmp_tool_entry list \<Rightarrow> bool" where
  "sent_for env [] es \<longleftrightarrow> es = []"
| "sent_for env (Remark s # ls) es \<longleftrightarrow> sent_for env ls es"
| "sent_for env (Object ns g1 g2 v # ls) es \<longleftrightarrow>
     (case es of
        [] \<Rightarrow> False
      | e # es' \<Rightarrow> entry_for ns v (map (old_resVal (env (length (snmp_file ls)))) [0..<132]) e \<and> sent_for env ls es')"

fun create_all :: "'k snmp_ioctl_fn \<Rightarrow> snmp_tool_entry list \<Rightarrow> 'k \<Rightarrow> (int list \<times> 'k) res" where
  "create_all dev [] k = Inr ([], k)"
| "create_all dev (e # es) k =
     rbind (dev (snmp_cmd CREATE_SNMP_ENTRY) (EntryArg e) k) (\<lambda>(r, k).
     rbind (create_all dev es k) (\<lambda>(rs, k). Inr (r # rs, k)))"

definition send_error :: string where
  "send_error = ''Error in sending the SNMP information\<newline>''"

lemma sent_for_length: "sent_for env ls es \<Longrightarrow> length es = length (file_items env ls)"
  by (induction env ls es rule: sent_for.induct) (auto split: list.splits)

lemma accepted_simps [simp]: "accepted [] [] = []"
  "accepted (i # is) (r # rs) = (if r = 0 then i # accepted is rs else accepted is rs)"
  by (simp_all add: accepted_def)

lemma refused_simps [simp]: "refused [] = 0" "refused (r # rs) = (if r < 0 then Suc (refused rs) else refused rs)"
  by (simp_all add: refused_def)

lemma all_accepted: "accepted is (replicate (length is) 0) = is" "refused (replicate n 0) = 0"
  by (induction "is") (simp_all add: refused_def)

text \<open>Reading the line of an object.\<close>

lemma object_read:
  assumes "line_ok l" and l: "l = Object ns g1 g2 v"
  shows "fgets 512 (snmp_file (l # ls)) = Some (line_text l @ [newline, 0], snmp_file ls)"
    and "\<exists>c r. line_text l @ [newline, 0] = c # r \<and> c \<noteq> 0x23"
proof -
  have w: "solid (dotted ns)" "solid (value_text v)" "gap g1" "gap g2" "value_ok v"
    using assms solid_dotted solid_value by (auto simp: line_ok_def dotted_ok_def)
  have "newline \<notin> set (line_text l)"
    using w letter_solid [OF w(5)] l by (auto simp: solid_def gap_def list_all_iff newline_def is_space_def)
  moreover have "length (line_text l) < 512 - 1" using assms(1) by (simp add: line_ok_def)
  ultimately show "fgets 512 (snmp_file (l # ls)) = Some (line_text l @ [newline, 0], snmp_file ls)"
    using fgets_whole [of "line_text l" 512 "snmp_file ls"] by (simp add: snmp_file_def)
  obtain n ns' where "ns = n # ns'" using assms by (cases ns) (auto simp: line_ok_def dotted_ok_def)
  moreover obtain b bs where "number_text 10 n = b # bs"
    using number_text_nonempty by (cases "number_text 10 n") auto
  ultimately show "\<exists>c r. line_text l @ [newline, 0] = c # r \<and> c \<noteq> 0x23"
    using number_text_other [of 10 b n] l by (cases ns') auto
qed

text \<open>
  \<open>mem\<close> says for how many requests the device has memory; without, it fails with a positive or a
  negative number, and the tool takes the positive one for success.
\<close>

locale entry_device =
  fixes dev :: "u32 \<Rightarrow> snmp_arg \<Rightarrow> 'k \<Rightarrow> (int \<times> 'k) res"
    and wf :: "'k \<Rightarrow> bool"
    and room :: "'k \<Rightarrow> nat"
    and view :: "'k \<Rightarrow> item list"
    and mem :: "'k \<Rightarrow> nat \<Rightarrow> bool"
  assumes create: "wf k \<Longrightarrow> value_ok v \<Longrightarrow> entry_for ns v old e \<Longrightarrow> length old = 132 \<Longrightarrow>
      \<exists>r k'. dev (snmp_cmd CREATE_SNMP_ENTRY) (EntryArg e) k = Inr (r, k') \<and> wf k' \<and> room k' = room k \<and>
        view k' = (if r = 0 then put (room k) (view k)
          (oid_bytes ns, word_of_nat (length (oid_bytes ns)), word_of_nat (response_size old v), response old v)
          else view k) \<and>
        r \<in> {0, ar_code AR_MEMORY_UNAVALABLE_ERROR, - ar_code AR_MEMORY_UNAVALABLE_ERROR} \<and>
        (\<forall>n. mem k (Suc n) \<longrightarrow> r = 0 \<and> mem k' n)"
begin

lemma object_line:
  assumes ok: "line_ok (Object ns g1 g2 v)" and env: "env_good env (Object ns g1 g2 v)"
    and wf: "wf (snmp_dev st)" and fd: "0 \<le> ar_devfd st"
  shows "\<exists>e r st'. ar_snmp_process_line big_endian dev env (line_text (Object ns g1 g2 v) @ [newline, 0]) st = Inr st' \<and>
    entry_for ns v (map (old_resVal env) [0..<132]) e \<and>
    dev (snmp_cmd CREATE_SNMP_ENTRY) (EntryArg e) (snmp_dev st) = Inr (r, snmp_dev st') \<and>
    wf (snmp_dev st') \<and> room (snmp_dev st') = room (snmp_dev st) \<and> ar_devfd st' = ar_devfd st \<and>
    view (snmp_dev st') = (if r = 0 then put (room (snmp_dev st)) (view (snmp_dev st)) (object_item env ns v)
      else view (snmp_dev st)) \<and>
    snmp_console st' = snmp_console st @ replicate (refused [r]) send_error \<and>
    r \<in> {0, ar_code AR_MEMORY_UNAVALABLE_ERROR, - ar_code AR_MEMORY_UNAVALABLE_ERROR} \<and>
    (\<forall>n. mem (snmp_dev st) (Suc n) \<longrightarrow> r = 0 \<and> mem (snmp_dev st') n)"
proof -
  let ?old = "map (old_resVal env) [0..<132]"
  have v: "value_ok v" and ns: "ns \<noteq> []" "list_all (\<lambda>n. n < 1000) ns" "length ns \<le> 127"
    and g: "gap g1" "gap g2" and d: "dotted_ok ns"
    using ok dotted_length [of ns] by (auto simp: line_ok_def dotted_ok_def)
  obtain t1 t2 where scan: "scan_line env (line_text (Object ns g1 g2 v) @ [newline, 0]) =
      Inr (dotted ns @ 0 # t1, value_letter v, value_text v @ 0 # t2)"
    using scan_line_object [OF d g v] by blast
  obtain oid where oid: "ar_snmp_process_string (dotted ns @ 0 # t1) = Inr oid" "has_nul oid" "cstr_val oid = oid_bytes ns"
    using process_string_dotted [OF ns, of t1] by (auto simp: oid_bytes_def nonzero_def)
  have "length (oid_bytes ns) \<le> 127"
    using nonzero_length [of "map word_of_nat ns"] ns(3) by (simp add: oid_bytes_def)
  from set_param_eq [OF v _ _ oid(2,3) this, of env t2 st] env obtain e where
    e: "ar_snmp_set_param big_endian env oid (value_letter v) (value_text v @ 0 # t2) st = Inr (st\<lparr>ar_snmp_entry := e\<rparr>)"
      "entry_for ns v ?old e"
    by (auto simp: env_good_def)
  obtain r k' where r: "dev (snmp_cmd CREATE_SNMP_ENTRY) (EntryArg e) (snmp_dev st) = Inr (r, k')" "wf k'"
    "room k' = room (snmp_dev st)" "view k' = (if r = 0 then put (room (snmp_dev st)) (view (snmp_dev st)) (object_item env ns v)
      else view (snmp_dev st))"
    "r \<in> {0, ar_code AR_MEMORY_UNAVALABLE_ERROR, - ar_code AR_MEMORY_UNAVALABLE_ERROR}"
    "\<forall>n. mem (snmp_dev st) (Suc n) \<longrightarrow> r = 0 \<and> mem k' n"
    using create [OF wf v e(2)] unfolding object_item_def Let_def by fastforce
  from e(2) have "\<not> arg_dangles (EntryArg e)" and "\<exists>p q. free_block (ent_oidVal e) = Inr p \<and> free_block (ent_resVal e) = Inr q"
    by (auto simp: entry_for_def arg_dangles_def)
  then obtain p q where pq: "free_block (ent_oidVal e) = Inr p" "free_block (ent_resVal e) = Inr q"
    and live: "\<not> arg_dangles (EntryArg e)" by blast
  have "\<exists>st'. ar_snmp_process_line big_endian dev env (line_text (Object ns g1 g2 v) @ [newline, 0]) st = Inr st' \<and>
      snmp_dev st' = k' \<and> ar_devfd st' = ar_devfd st \<and>
      snmp_console st' = snmp_console st @ replicate (refused [r]) send_error"
    using scan oid(1) e(1) r(1) fd pq live
    by (cases "r < 0")
      (simp_all add: ar_snmp_process_line_def ar_snmp_send_ioctl_def say_def send_error_def del: snmp_cmd.simps)
  then obtain st' where "ar_snmp_process_line big_endian dev env (line_text (Object ns g1 g2 v) @ [newline, 0]) st = Inr st'"
    "snmp_dev st' = k'" "ar_devfd st' = ar_devfd st"
    "snmp_console st' = snmp_console st @ replicate (refused [r]) send_error" by blast
  with e(2) r show ?thesis
    by (intro exI [of _ e] exI [of _ r] exI [of _ st']) (simp del: snmp_cmd.simps ar_code.simps)
qed

text \<open>The whole file: one request for each object, in order, answered as the device answers them.\<close>

lemma process_objects:
  assumes "list_all line_ok ls" and "envs_good env ls" and "wf (snmp_dev st)" and "0 \<le> ar_devfd st"
  shows "\<exists>es rs st'. snmp_process_file big_endian dev env (snmp_file ls) st = Inr st' \<and>
    sent_for env ls es \<and> create_all dev es (snmp_dev st) = Inr (rs, snmp_dev st') \<and> length rs = length es \<and>
    wf (snmp_dev st') \<and>
    view (snmp_dev st') = puts (room (snmp_dev st)) (view (snmp_dev st)) (accepted (file_items env ls) rs) \<and>
    snmp_console st' = snmp_console st @ replicate (refused rs) send_error \<and>
    set rs \<subseteq> {0, ar_code AR_MEMORY_UNAVALABLE_ERROR, - ar_code AR_MEMORY_UNAVALABLE_ERROR} \<and>
    (mem (snmp_dev st) (length es) \<longrightarrow> rs = replicate (length es) 0)"
  using assms
proof (induction ls arbitrary: st)
  case Nil
  have "snmp_process_file big_endian dev env (snmp_file []) st = Inr st"
    by (subst snmp_process_file.simps) (simp add: snmp_file_def fgets_def)
  with Nil.prems(3) show ?case by (intro exI [of _ "[]"] exI [of _ st]) simp
next
  case (Cons l ls)
  let ?env = "env (length (snmp_file ls))"
  have ok: "line_ok l" "list_all line_ok ls" and env: "env_good ?env l" "envs_good env ls" using Cons.prems by auto
  show ?case
  proof (cases l)
    case (Remark s)
    then have "newline \<notin> set (line_text l)" and "length (line_text l) < 512 - 1"
      using ok(1) by (auto simp: line_ok_def newline_def)
    from fgets_whole [OF this, of "snmp_file ls"]
    have "fgets 512 (snmp_file (l # ls)) = Some (line_text l @ [newline, 0], snmp_file ls)"
      by (simp add: snmp_file_def)
    with Remark have "snmp_process_file big_endian dev env (snmp_file (l # ls)) st =
        snmp_process_file big_endian dev env (snmp_file ls) st"
      by (subst snmp_process_file.simps) simp
    with Cons.IH [OF ok(2) env(2) Cons.prems(3,4)] Remark show ?thesis by simp
  next
    case (Object ns g1 g2 v)
    obtain e r st1 where st1: "ar_snmp_process_line big_endian dev ?env (line_text l @ [newline, 0]) st = Inr st1"
      "entry_for ns v (map (old_resVal ?env) [0..<132]) e"
      "dev (snmp_cmd CREATE_SNMP_ENTRY) (EntryArg e) (snmp_dev st) = Inr (r, snmp_dev st1)"
      "wf (snmp_dev st1)" "room (snmp_dev st1) = room (snmp_dev st)" "ar_devfd st1 = ar_devfd st"
      "view (snmp_dev st1) = (if r = 0 then put (room (snmp_dev st)) (view (snmp_dev st)) (object_item ?env ns v)
        else view (snmp_dev st))"
      "snmp_console st1 = snmp_console st @ replicate (refused [r]) send_error"
      "r \<in> {0, ar_code AR_MEMORY_UNAVALABLE_ERROR, - ar_code AR_MEMORY_UNAVALABLE_ERROR}"
      "\<forall>n. mem (snmp_dev st) (Suc n) \<longrightarrow> r = 0 \<and> mem (snmp_dev st1) n"
      using object_line [of ns g1 g2 v ?env st] ok(1) env(1) Cons.prems(3,4) unfolding Object by blast
    have "0 \<le> ar_devfd st1" using st1(6) Cons.prems(4) by simp
    from Cons.IH [OF ok(2) env(2) st1(4) this] obtain es rs st2 where
      st2: "snmp_process_file big_endian dev env (snmp_file ls) st1 = Inr st2" "sent_for env ls es"
      "create_all dev es (snmp_dev st1) = Inr (rs, snmp_dev st2)" "length rs = length es" "wf (snmp_dev st2)"
      "view (snmp_dev st2) = puts (room (snmp_dev st1)) (view (snmp_dev st1)) (accepted (file_items env ls) rs)"
      "snmp_console st2 = snmp_console st1 @ replicate (refused rs) send_error"
      "set rs \<subseteq> {0, ar_code AR_MEMORY_UNAVALABLE_ERROR, - ar_code AR_MEMORY_UNAVALABLE_ERROR}"
      "mem (snmp_dev st1) (length es) \<longrightarrow> rs = replicate (length es) 0" by blast
    have "snmp_process_file big_endian dev env (snmp_file (l # ls)) st = Inr st2"
      using object_read [OF ok(1) Object] st1(1) st2(1) by (subst snmp_process_file.simps) auto
    moreover have "create_all dev (e # es) (snmp_dev st) = Inr (r # rs, snmp_dev st2)"
      using st1(3) st2(3) by (simp del: snmp_cmd.simps)
    moreover have "snmp_console st2 = snmp_console st @ replicate (refused (r # rs)) send_error"
      using st1(8) st2(7) by (simp add: replicate_add [symmetric])
    moreover have "mem (snmp_dev st) (length (e # es)) \<longrightarrow> r # rs = replicate (length (e # es)) 0"
      using st1(10) st2(9) by simp
    ultimately show ?thesis
      using st1(2,5,7,9) st2(2,4-6,8)
      by (intro exI [of _ "e # es"] exI [of _ "r # rs"] exI [of _ st2]) (simp add: Object del: ar_code.simps)
  qed
qed

end

section \<open>The kernel's device\<close>

text \<open>
  The memory of the tool during the call: the entry at one address, its blocks at two others;
  a community string at the first.  The kernel meets an allocator that goes with its state.
\<close>

definition block_at :: "u8 tblptr \<Rightarrow> nat \<Rightarrow> nat" where
  "block_at p a = (case p of TNull \<Rightarrow> 0 | _ \<Rightarrow> a)"

definition snmp_mem :: "snmp_arg \<Rightarrow> snmp_user_mem" where
  "snmp_mem arg =
     (case arg of
        EntryArg e \<Rightarrow>
          \<lparr>um_bytes = (\<lambda>p. if p = 0x2000 then arr (ent_oidVal e) else if p = 0x3000 then arr (ent_resVal e) else []),
           um_access = (\<lambda>p. p \<noteq> 0),
           um_entry = (\<lambda>p. Some \<lparr>oidSize = ent_oidSize e, oidVal = block_at (ent_oidVal e) 0x2000,
             resSize = ent_resSize e, resVal = block_at (ent_resVal e) 0x3000\<rparr>)\<rparr>
      | CommArg b \<Rightarrow> \<lparr>um_bytes = (\<lambda>p. b), um_access = (\<lambda>p. p \<noteq> 0), um_entry = (\<lambda>p. None)\<rparr>)"

type_synonym snmp_kernel = "allocator \<times> snmp_state"

definition snmp_device :: "snmp_kernel snmp_ioctl_fn" where
  "snmp_device cmd arg k =
     rbind (ar_interface_ioctl (snmp_mem arg) (fst k) cmd 0x1000 (snd k)) (\<lambda>(r, s). Inr (r, (fst k, s)))"

definition kernel_wf :: "snmp_kernel \<Rightarrow> bool" where
  "kernel_wf k \<longleftrightarrow> alloc_fresh (fst k) \<and> snmp_wf (snd k)"

definition kernel_room :: "snmp_kernel \<Rightarrow> nat" where
  "kernel_room k = unat (ar_snmp_tblsize (snd k))"

definition kernel_view :: "snmp_kernel \<Rightarrow> item list" where
  "kernel_view k = oid_view (snd k)"

text \<open>The kernel has memory for \<open>n\<close> requests: two blocks each.\<close>

definition kernel_mem :: "snmp_kernel \<Rightarrow> nat \<Rightarrow> bool" where
  "kernel_mem k n \<longleftrightarrow> memory_left (fst k) (kmem (snd k)) (2 * n)"

lemma response_length: "value_ok v \<Longrightarrow> length old = 132 \<Longrightarrow> length (response old v) = 132"
  using value_bytes_length [of v] by (simp add: response_def Let_def)

text \<open>What the kernel reads of an entry the tool made.\<close>

lemma entry_item_read:
  assumes "entry_for ns v old e" and "value_ok v" and "length old = 132"
  shows "user_item (snmp_mem (EntryArg e)) 0x1000 =
      (oid_bytes ns, word_of_nat (length (oid_bytes ns)), word_of_nat (response_size old v), response old v)"
    and "oid_ends (snmp_mem (EntryArg e)) 0x1000"
    and "\<exists>u. copy_entry (snmp_mem (EntryArg e)) 0x1000 = Some u \<and>
      readable (snmp_mem (EntryArg e)) (oidVal u) 128 \<and> readable (snmp_mem (EntryArg e)) (resVal u) 132"
proof -
  obtain ob where ob: "ent_oidVal e = TArr ob" "has_nul ob" "cstr_val ob = oid_bytes ns" "length ob = 128"
    using assms(1) by (auto simp: entry_for_def)
  have r: "ent_oidSize e = word_of_nat (length (oid_bytes ns))" "ent_resVal e = TArr (response old v)"
    "ent_resSize e = word_of_nat (response_size old v)"
    using assms(1) by (auto simp: entry_for_def)
  show "user_item (snmp_mem (EntryArg e)) 0x1000 =
      (oid_bytes ns, word_of_nat (length (oid_bytes ns)), word_of_nat (response_size old v), response old v)"
    using ob r response_length [OF assms(2,3)] by (simp add: user_item_def snmp_mem_def block_at_def)
  show "oid_ends (snmp_mem (EntryArg e)) 0x1000"
    using ob by (simp add: oid_ends_def copy_entry_def snmp_mem_def block_at_def)
  show "\<exists>u. copy_entry (snmp_mem (EntryArg e)) 0x1000 = Some u \<and>
      readable (snmp_mem (EntryArg e)) (oidVal u) 128 \<and> readable (snmp_mem (EntryArg e)) (resVal u) 132"
    using ob r(2) response_length [OF assms(2,3)]
    by (simp add: copy_entry_def snmp_mem_def block_at_def readable_def)
qed

lemma kernel_create:
  assumes k: "kernel_wf k" and ends: "oid_ends (snmp_mem (EntryArg e)) 0x1000"
    and u: "copy_entry (snmp_mem (EntryArg e)) 0x1000 = Some u"
      "readable (snmp_mem (EntryArg e)) (oidVal u) 128" "readable (snmp_mem (EntryArg e)) (resVal u) 132"
  shows "\<exists>r k'. snmp_device (snmp_cmd CREATE_SNMP_ENTRY) (EntryArg e) k = Inr (r, k') \<and> kernel_wf k' \<and>
    kernel_room k' = kernel_room k \<and>
    kernel_view k' = (if r = 0 then put (kernel_room k) (kernel_view k) (user_item (snmp_mem (EntryArg e)) 0x1000)
      else kernel_view k) \<and>
    r \<in> {0, ar_code AR_MEMORY_UNAVALABLE_ERROR, - ar_code AR_MEMORY_UNAVALABLE_ERROR} \<and>
    (\<forall>n. kernel_mem k (Suc n) \<longrightarrow> r = 0 \<and> kernel_mem k' n)"
proof -
  let ?um = "snmp_mem (EntryArg e)"
  have wf: "snmp_wf (snd k)" and pick: "alloc_fresh (fst k)" using k by (simp_all add: kernel_wf_def)
  obtain r s' where s': "ioctl_create ?um (fst k) (snmp_cmd CREATE_SNMP_ENTRY) 0x1000 (snd k) = Inr (r, s')"
    "snmp_wf s'" "ar_snmp_tblsize s' = ar_snmp_tblsize (snd k)"
    "oid_view s' = (if r = 0 then put (unat (ar_snmp_tblsize (snd k))) (oid_view (snd k)) (user_item ?um 0x1000)
      else oid_view (snd k))"
    using ioctl_create_put [OF wf pick ends] by blast
  note status = ioctl_create_status [OF pick u s'(1)] and grows = create_grows [OF pick s'(1)]
  have mem: "r = 0 \<and> memory_left (fst k) (kmem s') (2 * n)" if "kernel_mem k (Suc n)" for n
  proof -
    have m: "memory_left (fst k) (kmem (snd k)) (2 + 2 * n)" using that by (simp add: kernel_mem_def)
    then have "memory_left (fst k) (kmem (snd k)) 2" by (simp add: memory_left_def)
    from ioctl_create_granted [OF wf pick ends u this] s'(1) have r: "r = 0" by auto
    with u have "create_blocks ?um 0x1000 r = 2" by (simp add: create_blocks_def)
    with memory_left_grows [OF grows, of "fst k" "2 * n"] m r show ?thesis by simp
  qed
  have "snmp_device (snmp_cmd CREATE_SNMP_ENTRY) (EntryArg e) k = Inr (r, (fst k, s'))"
    using s'(1) by (simp add: snmp_device_def ar_interface_ioctl_def)
  with s'(2-) status mem pick show ?thesis
    by (intro exI [of _ r] exI [of _ "(fst k, s')"])
      (simp add: kernel_wf_def kernel_room_def kernel_view_def kernel_mem_def del: snmp_cmd.simps ar_code.simps)
qed

interpretation snmp_entries: entry_device snmp_device kernel_wf kernel_room kernel_view kernel_mem
proof unfold_locales
  fix k v ns old e
  assume k: "kernel_wf k" and v: "value_ok v" and e: "entry_for ns v old e" and old: "length old = 132"
  note read = entry_item_read [OF e v old]
  obtain u where u: "copy_entry (snmp_mem (EntryArg e)) 0x1000 = Some u"
    "readable (snmp_mem (EntryArg e)) (oidVal u) 128" "readable (snmp_mem (EntryArg e)) (resVal u) 132"
    using read(3) by blast
  show "\<exists>r k'. snmp_device (snmp_cmd CREATE_SNMP_ENTRY) (EntryArg e) k = Inr (r, k') \<and> kernel_wf k' \<and>
      kernel_room k' = kernel_room k \<and>
      kernel_view k' = (if r = 0 then put (kernel_room k) (kernel_view k)
        (oid_bytes ns, word_of_nat (length (oid_bytes ns)), word_of_nat (response_size old v), response old v)
        else kernel_view k) \<and>
      r \<in> {0, ar_code AR_MEMORY_UNAVALABLE_ERROR, - ar_code AR_MEMORY_UNAVALABLE_ERROR} \<and>
      (\<forall>n. kernel_mem k (Suc n) \<longrightarrow> r = 0 \<and> kernel_mem k' n)"
    using kernel_create [OF k read(2) u] unfolding read(1) .
qed

section \<open>Properties\<close>

text \<open>The tool on a file of objects, from opening the device.\<close>

lemma objects_file_run:
  assumes "0 \<le> host_mknod host" and "0 \<le> host_open host" and "host_fopen host name = Some (snmp_file ls)"
    and "list_all line_ok ls" and "envs_good env ls" and "alloc_fresh pick" and "snmp_wf s"
  shows "\<exists>es rs st. ar_snmp_main host big_endian snmp_device env [tool, name] (snmp_tool_start (pick, s)) = Inr (0, st) \<and>
    sent_for env ls es \<and> create_all snmp_device es (pick, s) = Inr (rs, snmp_dev st) \<and>
    snmp_wf (snd (snmp_dev st)) \<and>
    oid_view (snd (snmp_dev st)) = puts (unat (ar_snmp_tblsize s)) (oid_view s) (accepted (file_items env ls) rs) \<and>
    snmp_console st = replicate (refused rs) send_error \<and>
    set rs \<subseteq> {0, ar_code AR_MEMORY_UNAVALABLE_ERROR, - ar_code AR_MEMORY_UNAVALABLE_ERROR} \<and>
    (memory_left pick (kmem s) (2 * length es) \<longrightarrow> rs = replicate (length es) 0 \<and> snmp_console st = [] \<and>
      oid_view (snd (snmp_dev st)) = puts (unat (ar_snmp_tblsize s)) (oid_view s) (file_items env ls))"
proof -
  let ?st = "(snmp_tool_start (pick, s))\<lparr>ar_devfd := host_open host\<rparr>"
  have st: "kernel_wf (snmp_dev ?st)" "0 \<le> ar_devfd ?st" "snmp_console ?st = []" "snmp_dev ?st = (pick, s)"
    using assms(2,6,7) by (simp_all add: kernel_wf_def snmp_tool_start_def)
  from snmp_entries.process_objects [OF assms(4,5) st(1,2)] obtain es rs st' where
    run: "snmp_process_file big_endian snmp_device env (snmp_file ls) ?st = Inr st'"
      "sent_for env ls es" "create_all snmp_device es (pick, s) = Inr (rs, snmp_dev st')"
      "kernel_wf (snmp_dev st')"
      "kernel_view (snmp_dev st') = puts (kernel_room (pick, s)) (kernel_view (pick, s)) (accepted (file_items env ls) rs)"
      "snmp_console st' = replicate (refused rs) send_error"
      "set rs \<subseteq> {0, ar_code AR_MEMORY_UNAVALABLE_ERROR, - ar_code AR_MEMORY_UNAVALABLE_ERROR}"
      "kernel_mem (pick, s) (length es) \<longrightarrow> rs = replicate (length es) 0"
    unfolding st(3,4) by auto
  have "ar_snmp_main host big_endian snmp_device env [tool, name] (snmp_tool_start (pick, s)) = Inr (0, st')"
    using assms(1-3) run(1) by (simp add: ar_snmp_main_def ar_snmp_dev_open_def Let_def)
  moreover have view: "oid_view (snd (snmp_dev st')) =
      puts (unat (ar_snmp_tblsize s)) (oid_view s) (accepted (file_items env ls) rs)"
    using run(5) by (simp add: kernel_room_def kernel_view_def)
  moreover have "rs = replicate (length es) 0 \<and> snmp_console st' = [] \<and>
      oid_view (snd (snmp_dev st')) = puts (unat (ar_snmp_tblsize s)) (oid_view s) (file_items env ls)"
    if "memory_left pick (kmem s) (2 * length es)"
  proof -
    have "rs = replicate (length (file_items env ls)) 0"
      using run(8) that sent_for_length [OF run(2)] by (simp add: kernel_mem_def)
    with view run(6) sent_for_length [OF run(2)] show ?thesis by (simp add: all_accepted)
  qed
  ultimately show ?thesis using run by (auto simp: kernel_wf_def)
qed

text \<open>
  Claim C6.  The tool and the kernel together: for a file of comments and objects of every type,
  on a big-endian processor with memory for the tool, the run ends with status 0.  It has sent
  the device one request for each object of the file, in order, with the identifier and the
  response of the object, and the kernel is in the state in which these requests leave it.  Its
  database is well-formed and holds the objects of the requests answered with 0, in the order of
  the file, the last one of an identifier winning, up to the size of the table (an object beyond
  it is answered with 0 and dropped).  Another answer means that the kernel had no memory: \<open>-5\<close>
  for the first block, which the tool reports on the console, \<open>5\<close> for the second, which it does
  not.  With memory for two blocks for each object every answer is 0, the database holds the
  objects of the whole file up to the size of the table, and nothing is reported.
\<close>

theorem snmp_file_configures_kernel:
  assumes "0 \<le> host_mknod host" and "0 \<le> host_open host" and "host_fopen host name = Some (snmp_file ls)"
    and "list_all line_ok ls" and "envs_good env ls" and "alloc_fresh pick" and "snmp_wf s"
  shows "\<exists>es rs st. ar_snmp_main host big_endian snmp_device env [tool, name] (snmp_tool_start (pick, s)) = Inr (0, st) \<and>
    sent_for env ls es \<and> create_all snmp_device es (pick, s) = Inr (rs, snmp_dev st) \<and>
    snmp_wf (snd (snmp_dev st)) \<and>
    oid_view (snd (snmp_dev st)) = puts (unat (ar_snmp_tblsize s)) (oid_view s) (accepted (file_items env ls) rs) \<and>
    snmp_console st = replicate (refused rs) send_error \<and>
    set rs \<subseteq> {0, ar_code AR_MEMORY_UNAVALABLE_ERROR, - ar_code AR_MEMORY_UNAVALABLE_ERROR} \<and>
    (memory_left pick (kmem s) (2 * length es) \<longrightarrow> rs = replicate (length es) 0 \<and> snmp_console st = [] \<and>
      oid_view (snd (snmp_dev st)) = puts (unat (ar_snmp_tblsize s)) (oid_view s) (file_items env ls))"
  using assms by (rule objects_file_run)

text \<open>The file of objects that comes with the tool.\<close>

definition shipped_objects :: string where
  "shipped_objects =
     ''# Object ID'' @ replicate 4 (CHR 0x09) @ ''Type'' @ replicate 3 (CHR 0x09) @ ''Value\<newline>'' @
     concat (map (\<lambda>(last, type, value). ''10.20.30.40.10.100.255.'' @ last @ [CHR 0x09, CHR 0x09] @ type @
         [CHR 0x09, CHR 0x09, CHR 0x09] @ value @ ''\<newline>'')
       [(''161'', ''i'', ''10''), (''164'', ''u'', ''1024''), (''168'', ''t'', ''65535''), (''170'', ''g'', ''10240''),
        (''162'', ''a'', ''10.10.10.10''), (''163'', ''o'', ''10.20.30.40.10.100.255.164''), (''165'', ''s'', ''obj-name''),
        (''166'', ''x'', ''abababababef''), (''167'', ''d'', ''1234567890''), (''169'', ''b'', ''1010101000001111'')])"

definition shipped_object_lines :: "snmp_line list" where
  "shipped_object_lines =
     Remark (bytes_of ('' Object ID'' @ replicate 4 (CHR 0x09) @ ''Type'' @ replicate 3 (CHR 0x09) @ ''Value'')) #
     map (\<lambda>(n, v). Object [10, 20, 30, 40, 10, 100, 255, n] [9, 9] [9, 9, 9] v)
       [(161, VInt (ch (CHR ''i'')) 10), (164, VInt (ch (CHR ''u'')) 1024), (168, VInt (ch (CHR ''t'')) 65535),
        (170, VInt (ch (CHR ''g'')) 10240), (162, VIp [10, 10, 10, 10]), (163, VOid [10, 20, 30, 40, 10, 100, 255, 164]),
        (165, VStr (ch (CHR ''s'')) (bytes_of ''obj-name'')), (166, VHex True [0xAB, 0xAB, 0xAB, 0xAB, 0xAB, 0xEF]),
        (167, VStr (ch (CHR ''d'')) (bytes_of ''1234567890'')), (169, VBits [170, 15])]"

lemma shipped_objects_file: "bytes_of shipped_objects = snmp_file shipped_object_lines"
  by (simp add: shipped_objects_def shipped_object_lines_def snmp_file_def bytes_of_def newline_def number_text.simps
      digit_char_def hex_text_def hex_char_def bit_text_def byte_bits_def ch_def)

lemma shipped_objects_ok: "list_all line_ok shipped_object_lines"
  by (simp add: shipped_object_lines_def line_ok_def dotted_ok_def gap_def list_all_iff is_space_def newline_def
      bytes_of_def number_text.simps hex_text_facts bit_text_facts)

definition demo_line_env :: line_env where
  "demo_line_env = \<lparr>env_ma_oid = True, env_ma_res = True, old_oidVal = (\<lambda>i. 0xAA), old_resVal = (\<lambda>i. 0),
     old_oid = (\<lambda>i. 0xAA), old_type = 0xAA, old_value = (\<lambda>i. 0xAA)\<rparr>"

lemma shipped_envs: "list_all line_ok ls \<Longrightarrow> envs_good (\<lambda>n. demo_line_env) ls"
proof -
  have nul: "has_nul (response (map (\<lambda>i. 0) [0..<132]) v)" if "is_ip v" "value_ok v" for v
  proof -
    let ?k = "2 + length (value_bytes v)"
    have "?k < 132" using value_bytes_length [OF that(2)] by simp
    moreover have "drop ?k (map (\<lambda>i. 0) [0..<132]) = replicate (132 - ?k) (0 :: u8)"
      by (simp add: map_replicate_const)
    ultimately have "0 \<in> set (drop ?k (map (\<lambda>i. 0 :: u8) [0..<132]))" by simp
    then show ?thesis using that(1) by (simp add: response_def Let_def has_nul_def)
  qed
  have "env_good demo_line_env l" if "line_ok l" for l
    using that nul by (auto simp: env_good_def demo_line_env_def line_ok_def split: snmp_line.splits)
  then show "list_all line_ok ls \<Longrightarrow> ?thesis" by (induction ls) simp_all
qed

lemma shipped_first_item:
  "hd (file_items (\<lambda>n. demo_line_env) shipped_object_lines) =
     ([10, 20, 30, 40, 10, 100, 255, 161], 8, 3, [2, 1, 10] @ replicate 129 0)"
proof -
  have bytes: "int_bytes 10 = [10]" by code_simp
  have old: "map (\<lambda>i. 0 :: u8) [0..<132] = replicate 132 0" by (simp add: map_replicate_const)
  have nuls: "replicate 129 (0 :: u8) = 0 # replicate 128 0" using replicate_Suc [of 128 "0 :: u8"] by simp
  have letter: "ar_snmp_get_type (ch (CHR ''i'')) = 2" by (simp add: ar_snmp_get_type_def)
  show ?thesis
    by (simp add: shipped_object_lines_def object_item_def oid_bytes_def nonzero_def demo_line_env_def response_def
        response_size_def is_ip_def Let_def old bytes letter nuls)
qed

lemma demo_snmp_memory: "n \<le> 991 \<Longrightarrow> memory_left demo_pick (kmem demo_snmp) n"
proof -
  have sub: "blocks (kmem demo_snmp) \<subseteq> {1, 2, 3, 4, 5, 6, 7, 8}"
    by (auto simp: blocks_def live_def demo_snmp_def demo_heap_def split: if_splits)
  then have "finite (blocks (kmem demo_snmp))" by (rule finite_subset) simp
  moreover have "card (blocks (kmem demo_snmp)) \<le> 8" using card_mono [OF _ sub] by simp
  ultimately show "n \<le> 991 \<Longrightarrow> ?thesis" by (intro demo_pick_memory) simp_all
qed

theorem snmp_file_configures_kernel_witness:
  "\<exists>es st. ar_snmp_main (demo_tool_host (bytes_of shipped_objects)) big_endian snmp_device (\<lambda>n. demo_line_env)
      [''ar_snmp_tool'', ''file''] (snmp_tool_start (demo_pick, demo_snmp)) = Inr (0, st) \<and>
    length es = 10 \<and> create_all snmp_device es (demo_pick, demo_snmp) = Inr (replicate 10 0, snmp_dev st) \<and>
    snmp_wf (snd (snmp_dev st)) \<and> snmp_console st = [] \<and>
    oid_view (snd (snmp_dev st)) = puts 3 (oid_view demo_snmp) (file_items (\<lambda>n. demo_line_env) shipped_object_lines) \<and>
    hd (file_items (\<lambda>n. demo_line_env) shipped_object_lines) =
      ([10, 20, 30, 40, 10, 100, 255, 161], 8, 3, [2, 1, 10] @ replicate 129 0)"
proof -
  have host: "0 \<le> host_mknod (demo_tool_host fp)" "0 \<le> host_open (demo_tool_host fp)"
    "host_fopen (demo_tool_host fp) ''file'' = Some fp" for fp
    by (simp_all add: demo_tool_host_def)
  let ?ls = shipped_object_lines and ?env = "\<lambda>n. demo_line_env"
  have n: "length (file_items ?env ?ls) = 10" by (simp add: shipped_object_lines_def)
  from snmp_file_configures_kernel [OF host(1,2) host(3) [of "snmp_file ?ls"] shipped_objects_ok
      shipped_envs [OF shipped_objects_ok] demo_pick_fresh demo_snmp_wf, of "''ar_snmp_tool''"]
  obtain es rs st where
    st: "ar_snmp_main (demo_tool_host (snmp_file ?ls)) big_endian snmp_device ?env [''ar_snmp_tool'', ''file'']
        (snmp_tool_start (demo_pick, demo_snmp)) = Inr (0, st)"
      "create_all snmp_device es (demo_pick, demo_snmp) = Inr (rs, snmp_dev st)" "snmp_wf (snd (snmp_dev st))"
    and es: "sent_for ?env ?ls es"
    and all: "memory_left demo_pick (kmem demo_snmp) (2 * length es) \<longrightarrow>
      rs = replicate (length es) 0 \<and> snmp_console st = [] \<and>
      oid_view (snd (snmp_dev st)) = puts (unat (ar_snmp_tblsize demo_snmp)) (oid_view demo_snmp) (file_items ?env ?ls)"
    by blast
  have len: "length es = 10" using sent_for_length [OF es] n by simp
  then have "memory_left demo_pick (kmem demo_snmp) (2 * length es)" by (intro demo_snmp_memory) simp
  with all st len show ?thesis
    unfolding shipped_objects_file
    by (intro exI [of _ es] exI [of _ st]) (simp add: demo_snmp_view(3) shipped_first_item)
qed

end
