(* ===== verification/Usr_Session.thy ===== *)
theory Usr_Session
  imports AR_System Usr_WakeupTool Usr_SnmpFile
begin

text \<open>
  The whole product in one session: the module is loaded, the two tools configure it from their
  files through its devices, and the system is suspended.
\<close>

section \<open>Properties\<close>

text \<open>
  Claim C2.  End to end: loaded with everything it asks for, given a rule file the rule tool
  accepts and a file of objects by the SNMP tool, with memory for two blocks for each object, and
  then told that the system suspends, the module enters the FMAN driver once.  What the driver
  reads there are the addresses of the port and its VLAN devices (which fit, with a spare slot in
  each neighbour table), the rules of the file, each section in its table, in order, without
  repetition, and the objects of the file, in order, the last one of an identifier winning; rules
  and objects up to the size of their tables.
\<close>

theorem configure_and_sleep:
  fixes rules :: "cfg_line list" and objects :: "snmp_line list"
  assumes env: "env_grants env h sz" "alloc_fresh (env_pick env)" "max_num_of_arp_entries sz \<noteq> 0"
    and rule_host: "host_mknod whost \<ge> 0" "host_open whost \<ge> 0" "host_close whost \<ge> 0"
      "host_fopen whost wname = Some (cfg_file rules)"
    and rules: "cfg_ok CONFIG_WAKEUP_NULL rules" "list_all tool_accepts (cfg_cmds CONFIG_WAKEUP_NULL rules)"
    and snmp_host: "0 \<le> host_mknod shost" "0 \<le> host_open shost" "host_fopen shost sname = Some (snmp_file objects)"
    and objects: "list_all line_ok objects" "envs_good lenv objects" "alloc_fresh pick"
      "memory_left pick h (2 + 2 * length (file_items lenv objects))"
    and net: "port_up net port rx tx d" "net_ok net d" "net6_ok net d"
      "length (arp_config net d) \<le> unat (max_num_of_arp_entries sz)"
      "length (ndp_config temps net d) < unat (max_num_of_ndp_entries sz)"
      "length (ndp_config perms net d) < unat (max_num_of_ndp_entries sz)"
  defines "cs \<equiv> cfg_cmds CONFIG_WAKEUP_NULL rules"
  shows "\<exists>s t u m. ar_init env (system_boot h) = Inr (0, s) \<and>
    ar_wakeup_main whost wakeup_device junk [wtool, wname] (wakeup_tool_start (wakeup (md s))) = Inr (0, t) \<and>
    ar_snmp_main shost big_endian snmp_device lenv [stool, sname] (snmp_tool_start (pick, snmp (md s))) = Inr (0, u) \<and>
    ar_handle_pm_event net port handle PM_SUSPEND_PREPARE
      ((md s)\<lparr>wakeup := device t, snmp := snd (snmp_dev u)\<rparr>) =
      Inr (0, m, [Set_Wakeup (ifindex d) 1, Enter_Autores rx (handle tx) m]) \<and>
    arp_rows (core m) = arp_config net d \<and> tem_rows (core m) = ndp_config temps net d \<and>
    tgt_rows (core m) = ndp_config perms net d \<and>
    udp_rules (wakeup m) = upserts (unat (max_num_of_udp_port_filtering sz)) [] (ports_of CONFIG_WAKEUP_UDP_RULE cs) \<and>
    tcp_rules (wakeup m) = upserts (unat (max_num_of_tcp_port_filtering sz)) [] (ports_of CONFIG_WAKEUP_TCP_RULE cs) \<and>
    ip_protos (wakeup m) = upserts (unat (max_num_of_ip_prot_filtering sz)) [] (protos_of cs) \<and>
    oid_view (snmp m) = puts (unat (max_num_of_snmp_oid_entries sz)) [] (file_items lenv objects)"
proof -
  obtain s where s: "ar_init env (system_boot h) = Inr (0, s)" "running_ok (md s)" "rooms_of (md s) = rooms_for sz"
    "config_of (md s) = boot_config" "heap_grows h 2 (kmem (snmp (md s)))"
    using load_running [OF env] by blast
  have wf: "core_ready (core (md s))" "snmp_wf (snmp (md s))" "wakeup_wf (wakeup (md s))"
    using s(2) by (simp_all add: running_ok_def)
  have room: "unat (ar_snmp_tblsize (snmp (md s))) = unat (max_num_of_snmp_oid_entries sz)"
    "unat (udptblsize (wakeup (md s))) = unat (max_num_of_udp_port_filtering sz)"
    "unat (tcptblsize (wakeup (md s))) = unat (max_num_of_tcp_port_filtering sz)"
    "unat (iptblsize (wakeup (md s))) = unat (max_num_of_ip_prot_filtering sz)"
    "unat (ar_arptblsize (core (md s))) = unat (max_num_of_arp_entries sz)"
    "unat (ar_ndptblsize (core (md s))) = unat (max_num_of_ndp_entries sz)"
    using s(3) by (simp_all add: rooms_of_def rooms_for_def)
  have empty: "udp_rules (wakeup (md s)) = []" "tcp_rules (wakeup (md s)) = []" "ip_protos (wakeup (md s)) = []"
    "oid_view (snmp (md s)) = []"
    using s(4) by (simp_all add: config_of_def boot_config_def Let_def)
  obtain t where t: "ar_wakeup_main whost wakeup_device junk [wtool, wname] (wakeup_tool_start (wakeup (md s))) = Inr (0, t)"
    "udp_rules (device t) = upserts (unat (max_num_of_udp_port_filtering sz)) [] (ports_of CONFIG_WAKEUP_UDP_RULE cs)"
    "tcp_rules (device t) = upserts (unat (max_num_of_tcp_port_filtering sz)) [] (ports_of CONFIG_WAKEUP_TCP_RULE cs)"
    "ip_protos (device t) = upserts (unat (max_num_of_ip_prot_filtering sz)) [] (protos_of cs)"
    using rule_file_run [OF rule_host wf(3) rules, of junk wtool] by (auto simp: room empty cs_def)
  have mem: "memory_left pick (kmem (snmp (md s))) (2 * length (file_items lenv objects))"
    by (rule memory_left_grows [OF s(5) objects(4)])
  obtain u where u: "ar_snmp_main shost big_endian snmp_device lenv [stool, sname] (snmp_tool_start (pick, snmp (md s))) = Inr (0, u)"
    "oid_view (snd (snmp_dev u)) = puts (unat (max_num_of_snmp_oid_entries sz)) [] (file_items lenv objects)"
    using objects_file_run [OF snmp_host objects(1-3) wf(2), of stool] mem
    by (fastforce simp: room empty dest: sent_for_length)
  let ?m = "(md s)\<lparr>wakeup := device t, snmp := snd (snmp_dev u)\<rparr>"
  have "core ?m = core (md s)" by simp
  with deep_sleep_fit [OF net(1), of ?m handle] wf(1) net(2-6) room obtain m where
    m: "ar_process_deep_sleep_event net port handle ?m = Inr (0, m, [Set_Wakeup (ifindex d) 1, Enter_Autores rx (handle tx) m])"
      "arp_rows (core m) = arp_config net d" "tem_rows (core m) = ndp_config temps net d"
      "tgt_rows (core m) = ndp_config perms net d" "snmp m = snmp ?m" "wakeup m = wakeup ?m" by auto
  then have "ar_handle_pm_event net port handle PM_SUSPEND_PREPARE ?m =
      Inr (0, m, [Set_Wakeup (ifindex d) 1, Enter_Autores rx (handle tx) m])"
    by (simp add: ar_handle_pm_event_def ar_suspend_noirq_def)
  with s(1) t u m(2-) show ?thesis
    by (intro exI [of _ s] exI [of _ t] exI [of _ u] exI [of _ m]) simp
qed

text \<open>The files that come with the tools, on a port with three addresses.\<close>

theorem configure_and_sleep_witness:
  "\<exists>s t u m. ar_init demo_env (system_boot Map.empty) = Inr (0, s) \<and>
     ar_wakeup_main (demo_tool_host (bytes_of shipped_rules)) wakeup_device
       (\<lambda>n. \<lparr>junk_prot = (\<lambda>i. 85), junk_rule = zero_port\<rparr>) [''ar_wakeup_tool'', ''file'']
       (wakeup_tool_start (wakeup (md s))) = Inr (0, t) \<and>
     ar_snmp_main (demo_tool_host (bytes_of shipped_objects)) big_endian snmp_device (\<lambda>n. demo_line_env)
       [''ar_snmp_tool'', ''file''] (snmp_tool_start (demo_pick, snmp (md s))) = Inr (0, u) \<and>
     ar_handle_pm_event demo_net ''fm1-mac5'' (\<lambda>p. 100 + p) PM_SUSPEND_PREPARE
       ((md s)\<lparr>wakeup := device t, snmp := snd (snmp_dev u)\<rparr>) =
       Inr (0, m, [Set_Wakeup 1 1, Enter_Autores 1 102 m]) \<and>
     length (arp_rows (core m)) = 3 \<and> ip_protos (wakeup m) = [1, 2, 6, 17] \<and>
     oid_view (snmp m) = puts 3 [] (file_items (\<lambda>n. demo_line_env) shipped_object_lines)"
proof -
  have host: "0 \<le> host_mknod (demo_tool_host fp)" "0 \<le> host_open (demo_tool_host fp)"
    "0 \<le> host_close (demo_tool_host fp)" "host_fopen (demo_tool_host fp) ''file'' = Some fp" for fp
    by (simp_all add: demo_tool_host_def)
  have pick: "alloc_fresh (env_pick demo_env)" using demo_pick_fresh by simp
  have sizes: "max_num_of_arp_entries demo_sizes = 4" "max_num_of_ndp_entries demo_sizes = 4"
    "max_num_of_snmp_oid_entries demo_sizes = 3" "max_num_of_ip_prot_filtering demo_sizes = 8"
    by (simp_all add: demo_sizes_def)
  have n: "length (file_items (\<lambda>n. demo_line_env) shipped_object_lines) = 10" by (simp add: shipped_object_lines_def)
  have index: "ifindex demo_port = 1" by (simp add: demo_port_def demo_netdev_def)
  have protos: "upserts 8 [] (protos_of (cfg_cmds CONFIG_WAKEUP_NULL shipped_lines)) = [1, 2, 6, 17]"
    by (simp add: shipped_cmds protos_of_def shipped_keys upsert_def)
  have fits: "length (arp_config demo_net demo_port) \<le> unat (max_num_of_arp_entries demo_sizes)"
    "length (ndp_config temps demo_net demo_port) < unat (max_num_of_ndp_entries demo_sizes)"
    "length (ndp_config perms demo_net demo_port) < unat (max_num_of_ndp_entries demo_sizes)"
    "max_num_of_arp_entries demo_sizes \<noteq> 0"
    by (simp_all add: demo_sizes_fit sizes)
  have none: "blocks Map.empty = {}" by (simp add: blocks_def live_def)
  have "memory_left demo_pick Map.empty (2 + 2 * length (file_items (\<lambda>n. demo_line_env) shipped_object_lines))"
    by (rule demo_pick_memory) (simp_all add: none n)
  from configure_and_sleep [OF demo_env_grants pick fits(4) host(1-3) host(4) [of "cfg_file shipped_lines"]
      shipped_ok shipped_accepts host(1,2) host(4) [of "snmp_file shipped_object_lines"] shipped_objects_ok
      shipped_envs [OF shipped_objects_ok] demo_pick_fresh this demo_up demo_net_ok fits(1-3),
      of "\<lambda>n. \<lparr>junk_prot = (\<lambda>i. 85), junk_rule = zero_port\<rparr>" "''ar_wakeup_tool''" "''ar_snmp_tool''" "\<lambda>p. 100 + p"]
  show ?thesis
    unfolding shipped_file [symmetric] shipped_objects_file sizes index
    by (auto simp: protos demo_sizes_fit)
qed

end
