(* ===== verification/Usr_SnmpProps.thy ===== *)
theory Usr_SnmpProps
  imports Usr_SnmpFile
begin

text \<open>
  Properties of the SNMP tool's conversions, of the lines it mishandles, and of the library for
  agents.
\<close>

section \<open>Conversions\<close>

text \<open>
  Claim C22.  The loop that counts the bytes of an integer ends for every 32-bit value, and the
  count is the least number of bytes, from 1 to 4, that holds the value.
\<close>

theorem value_size_least:
  "\<exists>k. size_loop w 0 1 = word_of_nat k \<and> 1 \<le> k \<and> k \<le> 4 \<and> unat w < 256 ^ k \<and>
     (k = 1 \<or> 256 ^ (k - 1) \<le> unat w)"
  using size_loop_shortest [of w] by (intro exI [of _ "unat (size_loop w 0 1)"]) simp

text \<open>
  Claim C16.  An integer below \<open>2 ^ 31\<close>, written in decimal: on a big-endian processor the response
  is its type, its length and the shortest big-endian form of the number, which reads back as
  the number.
\<close>

theorem integer_response_roundtrip:
  assumes "ent_resVal e = TArr old" and "length old = 132" and "n < 2 ^ 31"
  shows "\<exists>bs rest. set_integer big_endian type (number_text 10 n @ 0 # tail) e =
      Inr (e\<lparr>ent_resVal := TArr (ar_snmp_get_type type # word_of_nat (length bs) # bs @ 0 # rest),
             ent_resSize := word_of_nat (2 + length bs)\<rparr>) \<and>
    be_value bs = n \<and> 1 \<le> length bs \<and> length bs \<le> 4 \<and> (length bs = 1 \<or> 256 ^ (length bs - 1) \<le> n)"
proof -
  let ?w = "word_of_nat n :: u32"
  have w: "unat ?w = n" using assms(3) by (intro unat_u32_small) simp
  note k = size_loop_shortest [of ?w, unfolded w] int_bytes_length [of n]
  have "be_value (int_bytes n) = n"
    using big_endian_tail [OF k(2)] k(3) by (simp add: int_bytes_def w)
  with set_integer_eq [OF assms, of type tail] k show ?thesis
    by (intro exI [of _ "int_bytes n"] exI [of _ "drop (3 + length (int_bytes n)) old"]) simp
qed

theorem integer_response_roundtrip_witness:
  "\<exists>bs rest e. set_integer big_endian (ch (CHR ''t'')) (number_text 10 65535 @ [0])
      \<lparr>ent_oidSize = 0, ent_oidVal = TNull, ent_resSize = 0, ent_resVal = TArr (replicate 132 0)\<rparr> = Inr e \<and>
    ent_resVal e = TArr (0x43 # 2 # bs @ 0 # rest) \<and> be_value bs = 65535"
proof -
  let ?e = "\<lparr>ent_oidSize = 0, ent_oidVal = TNull, ent_resSize = 0, ent_resVal = TArr (replicate 132 0)\<rparr>"
  obtain bs rest where r: "set_integer big_endian (ch (CHR ''t'')) (number_text 10 65535 @ [0]) ?e =
      Inr (?e\<lparr>ent_resVal := TArr (ar_snmp_get_type (ch (CHR ''t'')) # word_of_nat (length bs) # bs @ 0 # rest),
             ent_resSize := word_of_nat (2 + length bs)\<rparr>)"
    "be_value bs = 65535" "1 \<le> length bs" "length bs \<le> 4" "length bs = 1 \<or> 256 ^ (length bs - 1) \<le> (65535 :: nat)"
    using integer_response_roundtrip [of ?e "replicate 132 0" 65535 "ch (CHR ''t'')" "[]"] by auto
  have "length bs = 2"
  proof -
    have len1: "be_value [x] < 256" for x using unsigned_less [of x, where ?'a = nat] by (simp add: be_value_def)
    have "length bs \<noteq> 1"
    proof
      assume "length bs = 1"
      then obtain x where "bs = [x]" by (cases bs) auto
      with r(2) len1 [of x] show False by simp
    qed
    moreover have "length bs \<noteq> 3" "length bs \<noteq> 4" using r(5) by (auto)
    ultimately show ?thesis using r(3,4) by linarith
  qed
  with r(1,2) show ?thesis by (auto simp: ar_snmp_get_type_def ASN_APPLICATION_def)
qed

text \<open>
  Claim C20.  Every value but an address, as long as it is one the conversions are made for
  (\<open>value_ok\<close>: integers below \<open>2 ^ 31\<close>, identifiers with components
  below 1000, words of up to 127 characters, whole bytes in hexadecimal or binary that fit in the
  line's buffer), gives a well-typed response: a known type, a length that is the number of bytes
  that follow, a size that is two more, and a NUL behind them, all within the 132 bytes of the
  block; a zero byte occurs in integers only.
\<close>

theorem response_well_typed:
  assumes "ent_resVal e = TArr old" and "length old = 132" and "value_ok v" and "\<not> is_ip v"
  shows "\<exists>e' len bs rest. set_value big_endian (value_letter v) (value_text v @ 0 # tail) e = Inr e' \<and>
    ent_resVal e' = TArr (ar_snmp_get_type (value_letter v) # len # bs @ 0 # rest) \<and>
    ar_snmp_get_type (value_letter v) \<in> {2, 3, 4, 6, 0x42, 0x43} \<and> unat len = length bs \<and>
    unat (ent_resSize e') = 2 + length bs \<and> length bs + length rest = 129 \<and>
    (0 \<in> set bs \<longrightarrow> (\<exists>l n. v = VInt l n))"
proof -
  let ?bs = "value_bytes v"
  have len: "length ?bs \<le> 127" by (rule value_bytes_length [OF assms(3)])
  have run: "set_value big_endian (value_letter v) (value_text v @ 0 # tail) e = Inr (with_response old v e)"
    using assms by (intro set_value_eq) simp_all
  have resp: "response old v = ar_snmp_get_type (value_letter v) # word_of_nat (length ?bs) # ?bs @ 0 # drop (3 + length ?bs) old"
    using assms(4) by (simp add: response_def Let_def)
  have type: "ar_snmp_get_type (value_letter v) \<in> {2, 3, 4, 6, 0x42, 0x43}"
    using assms(3,4) by (cases v) (auto simp: ar_snmp_get_type_def ASN_APPLICATION_def is_ip_def)
  have zero: "0 \<in> set ?bs \<longrightarrow> (\<exists>l n. v = VInt l n)"
    using assms(3) by (cases v) (auto simp: list_all_iff)
  have "unat (word_of_nat (length ?bs) :: u8) = length ?bs" using len by (intro unat_u8_small) simp
  moreover have "unat (word_of_nat (2 + length ?bs) :: u16) = 2 + length ?bs"
    using len unat_of_nat [of "2 + length ?bs", where ?'a = 16] by (simp del: of_nat_add)
  moreover have "response_size old v = 2 + length ?bs" using assms(4) by (simp add: response_size_def)
  ultimately show ?thesis
    using run resp type zero len assms(2)
    by (intro exI [of _ "with_response old v e"] exI [of _ "word_of_nat (length ?bs)"] exI [of _ ?bs]
        exI [of _ "drop (3 + length ?bs) old"]) (simp add: with_response_def del: of_nat_add)
qed

theorem response_well_typed_witness:
  "\<exists>e' len bs rest. set_value big_endian (ch (CHR ''s'')) (bytes_of ''obj'' @ [0])
      \<lparr>ent_oidSize = 0, ent_oidVal = TNull, ent_resSize = 0, ent_resVal = TArr (replicate 132 0)\<rparr> = Inr e' \<and>
    ent_resVal e' = TArr (ar_snmp_get_type (ch (CHR ''s'')) # len # bs @ 0 # rest) \<and> unat len = length bs \<and>
    unat (ent_resSize e') = 2 + length bs \<and> 0 \<notin> set bs"
proof -
  let ?v = "VStr (ch (CHR ''s'')) (bytes_of ''obj'')"
  have v: "value_ok ?v" "\<not> is_ip ?v" by (simp_all add: is_ip_def bytes_of_def is_space_def)
  have b: "ent_resVal \<lparr>ent_oidSize = 0, ent_oidVal = TNull, ent_resSize = 0, ent_resVal = TArr (replicate 132 0)\<rparr> = TArr (replicate 132 0)"
    "length (replicate 132 (0 :: u8)) = 132" by simp_all
  from response_well_typed [OF b v, of "[]"] show ?thesis unfolding value_letter.simps value_text.simps by blast
qed

text \<open>
  Claim C19.  A dotted text, in place: for components below 1000 the bytes of the components
  (modulo 256), but only those before the first zero, so the instance \<open>.0\<close> at the end of an
  identifier and an address like \<open>10.0.0.1\<close> are cut short.
\<close>

theorem dotted_text_bytes:
  assumes "ns \<noteq> []" and "list_all (\<lambda>n. n < 1000) ns" and "length ns \<le> 127"
  shows "\<exists>buf. ar_snmp_process_string (dotted ns @ 0 # tail) = Inr buf \<and> has_nul buf \<and>
    length buf = length (dotted ns @ 0 # tail) \<and>
    cstr_val buf = map word_of_nat (take (first_pos (\<lambda>n. n mod 256 = 0) ns) ns)"
proof -
  have z: "((word_of_nat n :: u8) = 0) = (n mod 256 = 0)" for n
  proof -
    have "((word_of_nat n :: u8) = 0) = (unat (word_of_nat n :: u8) = 0)" by (simp add: unat_eq_0)
    then show ?thesis by (simp add: unat_of_nat)
  qed
  have "takeWhile (\<lambda>b. b \<noteq> 0) (map word_of_nat ns :: u8 list)
      = map word_of_nat (take (first_pos (\<lambda>n. n mod 256 = 0) ns) ns)" for ns
    by (induction ns) (simp_all add: z)
  with process_string_dotted [OF assms, of tail] show ?thesis by simp
qed

theorem dotted_text_bytes_witness:
  "\<exists>buf. ar_snmp_process_string (dotted [10, 0, 0, 1] @ 0 # replicate 100 7) = Inr buf \<and> cstr_val buf = [10]"
  using dotted_text_bytes [of "[10, 0, 0, 1]" "replicate 100 7"] by auto

text \<open>
  A component of four or more digits, as in most identifiers of enterprises, makes the
  tool write beyond its four-byte buffer, whatever comes before and after it.
\<close>

theorem long_component_overruns:
  assumes "list_all (\<lambda>n. n < 1000) ns" and "length ns \<le> 128" and "1000 \<le> n"
  shows "ar_snmp_process_string (dotted (ns @ n # ms) @ 0 # tail) = Inl OutOfBounds"
  using assms by (rule process_string_overrun)

theorem long_component_overruns_witness:
  "ar_snmp_process_string (dotted [1, 3, 6, 1, 4, 1, 2021, 10] @ [0]) = Inl OutOfBounds"
  using long_component_overruns [of "[1, 3, 6, 1, 4, 1]" 2021 "[10]" "[]"] by simp

text \<open>
  Claim C18.  Texts of bytes in hexadecimal (small or capital letters) and in binary, converted in
  place, give the bytes back, up to the first zero byte.
\<close>

theorem byte_texts_roundtrip:
  assumes "bs \<noteq> []" and "length bs \<le> 63"
  shows "(\<exists>buf. ar_snmp_convert_value (hex_text small bs @ 0 # tail) = Inr buf \<and> has_nul buf \<and>
      cstr_val buf = nonzero bs) \<and>
    (length bs \<le> 15 \<longrightarrow> (\<exists>buf. ar_snmp_convert_bitvalue (bit_text bs @ 0 # tail) = Inr buf \<and> has_nul buf \<and>
      cstr_val buf = nonzero bs))"
  using convert_value_hex [of bs small tail] convert_bitvalue_bits [of bs tail] assms
  by (auto simp: nonzero_def)

theorem byte_texts_roundtrip_witness:
  "(\<exists>buf. ar_snmp_convert_value (hex_text True [0xAB, 0xEF] @ [0, 1, 2]) = Inr buf \<and> cstr_val buf = [0xAB, 0xEF]) \<and>
   (\<exists>buf. ar_snmp_convert_bitvalue (bit_text [0xAB, 0xEF] @ [0, 1, 2]) = Inr buf \<and> cstr_val buf = [0xAB, 0xEF])"
  using byte_texts_roundtrip [of "[0xAB, 0xEF]" True "[1, 2]"] by (auto simp: nonzero_def)

section \<open>Lines the tool mishandles\<close>

text \<open>
  The size of an address is that of the block read as a string: it also counts what
  the block held behind the address, up to a zero, and without one the tool reads beyond the
  block.
\<close>

theorem address_size_counts_garbage:
  assumes "ent_resVal e = TArr old" and "length old = 132" and "dotted_ok ns"
    and "list_all (\<lambda>n. n mod 256 \<noteq> 0) ns"
  defines "rest \<equiv> drop (2 + length ns) old"
  shows "set_address (ch (CHR ''a'')) (dotted ns @ 0 # tail) e =
    (if 0 \<in> set rest
     then Inr (e\<lparr>ent_resVal := TArr ([0x40, word_of_nat (length ns)] @ map word_of_nat ns @ rest),
                 ent_resSize := word_of_nat (2 + length ns + length (nonzero rest))\<rparr>)
     else Inl OutOfBounds)"
proof -
  have z: "(word_of_nat n :: u8) \<noteq> 0" if "n mod 256 \<noteq> 0" for n
  proof
    assume "(word_of_nat n :: u8) = 0"
    then have "unat (word_of_nat n :: u8) = 0" by simp
    with that show False by (simp add: unat_of_nat)
  qed
  have all: "nonzero (map word_of_nat ns) = map word_of_nat ns"
    using assms(4) z by (auto simp: nonzero_def list_all_iff)
  have nz: "0 \<notin> set (map word_of_nat ns :: u8 list)" using assms(4) z by (auto simp: list_all_iff)
  have len: "0 < length ns" "length ns \<le> 127"
    using assms(3) dotted_length [of ns] by (auto simp: dotted_ok_def)
  then have l: "(word_of_nat (length ns) :: u8) \<noteq> 0" by (intro z) simp
  have t: "ar_snmp_get_type (ch (CHR ''a'')) = 0x40" by (simp add: ar_snmp_get_type_def ASN_APPLICATION_def)
  let ?p = "[0x40, word_of_nat (length ns)] @ map word_of_nat ns :: u8 list"
  have resp: "response old (VIp ns) = ?p @ rest"
    by (simp add: response_def is_ip_def all t rest_def Let_def)
  have p0: "0 \<notin> set ?p" using nz l by simp
  have "c_strlen (p @ rest) = (if 0 \<in> set rest then Inr (length p + length (nonzero rest)) else Inl OutOfBounds)"
    if "0 \<notin> set p" for p
  proof (cases "0 \<in> set rest")
    case True
    then have "has_nul (p @ rest)" by (simp add: has_nul_def)
    moreover have "cstr_val (p @ rest) = p @ nonzero rest"
      using that by (induction p) (auto simp: nonzero_def cstr_val_def)
    ultimately show ?thesis using True by (simp add: c_strlen_eq)
  next
    case False
    then have "\<not> has_nul (p @ rest)" using that by (simp add: has_nul_def)
    with False show ?thesis by (simp add: c_strlen_no_nul)
  qed
  note sl = this [OF p0]
  show ?thesis
    unfolding set_address_run [OF assms(1-3)] resp sl by simp
qed

theorem address_size_counts_garbage_witness:
  "\<exists>e. set_address (ch (CHR ''a'')) (dotted [10, 10, 10, 10] @ [0])
      \<lparr>ent_oidSize = 0, ent_oidVal = TNull, ent_resSize = 0, ent_resVal = TArr (replicate 100 9 @ replicate 32 0)\<rparr> = Inr e \<and>
    ent_resSize e = 100"
proof -
  have ok: "dotted_ok [10, 10, 10, 10]" by (simp add: dotted_ok_def number_text.simps)
  have "drop 6 (replicate 100 (9 :: u8) @ replicate 32 0) = replicate 94 9 @ replicate 32 0" by simp
  moreover have "nonzero (replicate 94 9 @ replicate 32 0) = replicate 94 9"
    by (simp add: nonzero_def takeWhile_append)
  ultimately show ?thesis
    using address_size_counts_garbage [OF _ _ ok, of "\<lparr>ent_oidSize = 0, ent_oidVal = TNull, ent_resSize = 0,
        ent_resVal = TArr (replicate 100 9 @ replicate 32 0)\<rparr>" "replicate 100 9 @ replicate 32 0" "[]"]
    by simp
qed

text \<open>
  When only the second block of a line cannot be allocated, the first one is released
  but stays in the entry, which is then sent all the same: the kernel is given a released block.
\<close>

theorem half_allocated_line_dangles:
  assumes "line_ok (Object ns g1 g2 v)" and "env_ma_oid env" and "\<not> env_ma_res env" and "0 \<le> ar_devfd st"
  shows "ar_snmp_process_line order dev env (line_text (Object ns g1 g2 v) @ [newline, 0]) st = Inl UseAfterFree"
proof -
  have v: "value_ok v" and ns: "ns \<noteq> []" "list_all (\<lambda>n. n < 1000) ns" "length ns \<le> 127"
    and g: "gap g1" "gap g2" and d: "dotted_ok ns"
    using assms(1) dotted_length [of ns] by (auto simp: line_ok_def dotted_ok_def)
  obtain t1 t2 where scan: "scan_line env (line_text (Object ns g1 g2 v) @ [newline, 0]) =
      Inr (dotted ns @ 0 # t1, value_letter v, value_text v @ 0 # t2)"
    using scan_line_object [OF d g v] by blast
  obtain oid where oid: "ar_snmp_process_string (dotted ns @ 0 # t1) = Inr oid"
    using process_string_dotted [OF ns, of t1] by blast
  show ?thesis
    using scan oid assms(2-4) value_letter_known [OF v]
    by (simp add: ar_snmp_process_line_def ar_snmp_set_param_def alloc_entry_def ar_snmp_send_ioctl_def
        arg_dangles_def say_def)
qed

theorem half_allocated_line_dangles_witness:
  "ar_snmp_process_line big_endian snmp_device (demo_line_env\<lparr>env_ma_res := False\<rparr>)
     (cstr ''10.20 i 10\<newline>'') ((snmp_tool_start (demo_pick, demo_snmp))\<lparr>ar_devfd := 3\<rparr>) = Inl UseAfterFree"
proof -
  let ?l = "Object [10, 20] [0x20] [0x20] (VInt (ch (CHR ''i'')) 10)"
  have "line_ok ?l"
    by (simp add: line_ok_def dotted_ok_def gap_def is_space_def newline_def number_text.simps)
  moreover have "line_text ?l @ [newline, 0] = cstr ''10.20 i 10\<newline>''"
    by (simp add: cstr_def bytes_of_def newline_def number_text.simps digit_char_def ch_def)
  ultimately show ?thesis
    using half_allocated_line_dangles [of "[10, 20]" "[0x20]" "[0x20]" "VInt (ch (CHR ''i'')) 10"
        "demo_line_env\<lparr>env_ma_res := False\<rparr>" "(snmp_tool_start (demo_pick, demo_snmp))\<lparr>ar_devfd := 3\<rparr>"]
    by (simp add: demo_line_env_def)
qed

section \<open>The agent's library\<close>

text \<open>
  Claim C30.  An agent's entry goes to the kernel as the tool's does: once the device is open, the
  request is made, and the kernel is in the state in which the device leaves it.  Answered with 0
  (always, when the kernel has memory for two blocks), the entry is stored as \<open>put\<close> says,
  otherwise the entries are those of before, and the agent's console is the same either way.
  When the device cannot be opened the kernel's state is unchanged.
\<close>

theorem agent_entry_stored:
  assumes "kernel_wf (snmp_dev st)" and "value_ok v" and "entry_for ns v old e" and "length old = 132"
    and "0 \<le> host_mknod host" and "host_mknod bad < 0 \<or> host_open bad < 0" and "ar_devfd st < 0"
    and "0 \<le> host_open host"
  defines "item \<equiv> (oid_bytes ns, word_of_nat (length (oid_bytes ns)), word_of_nat (response_size old v), response old v)"
  shows "(\<exists>r st'. ar_snmp_agent_get_pdu host snmp_device e st = Inr st' \<and>
      snmp_device (snmp_cmd CREATE_SNMP_ENTRY) (EntryArg e) (snmp_dev st) = Inr (r, snmp_dev st') \<and>
      kernel_wf (snmp_dev st') \<and>
      kernel_view (snmp_dev st') = (if r = 0 then put (kernel_room (snmp_dev st)) (kernel_view (snmp_dev st)) item
        else kernel_view (snmp_dev st)) \<and>
      (kernel_mem (snmp_dev st) 1 \<longrightarrow> r = 0) \<and> snmp_console st' = snmp_console st) \<and>
    (\<exists>st'. ar_snmp_agent_get_pdu bad snmp_device e st = Inr st' \<and> snmp_dev st' = snmp_dev st)"
proof
  let ?st = "st\<lparr>ar_snmp_entry := e, ar_devfd := host_open host\<rparr>"
  obtain r k' where k: "snmp_device (snmp_cmd CREATE_SNMP_ENTRY) (EntryArg e) (snmp_dev st) = Inr (r, k')" "kernel_wf k'"
    "kernel_view k' = (if r = 0 then put (kernel_room (snmp_dev st)) (kernel_view (snmp_dev st)) item
      else kernel_view (snmp_dev st))" "\<forall>n. kernel_mem (snmp_dev st) (Suc n) \<longrightarrow> r = 0 \<and> kernel_mem k' n"
    using snmp_entries.create [OF assms(1-4)] unfolding item_def by blast
  have "kernel_mem (snmp_dev st) 1 \<longrightarrow> r = 0" using k(4) by simp
  moreover have "\<not> arg_dangles (EntryArg e)" using assms(3) by (auto simp: entry_for_def arg_dangles_def)
  ultimately show "\<exists>r st'. ar_snmp_agent_get_pdu host snmp_device e st = Inr st' \<and>
      snmp_device (snmp_cmd CREATE_SNMP_ENTRY) (EntryArg e) (snmp_dev st) = Inr (r, snmp_dev st') \<and>
      kernel_wf (snmp_dev st') \<and>
      kernel_view (snmp_dev st') = (if r = 0 then put (kernel_room (snmp_dev st)) (kernel_view (snmp_dev st)) item
        else kernel_view (snmp_dev st)) \<and>
      (kernel_mem (snmp_dev st) 1 \<longrightarrow> r = 0) \<and> snmp_console st' = snmp_console st"
    using k(1-3) assms(5,8)
    by (intro exI [of _ r] exI [of _ "?st\<lparr>snmp_dev := k'\<rparr>"])
      (simp add: ar_snmp_agent_get_pdu_def agent_send_def ar_snmp_dev_open_def ar_snmp_send_ioctl_def Let_def
        del: snmp_cmd.simps)
  show "\<exists>st'. ar_snmp_agent_get_pdu bad snmp_device e st = Inr st' \<and> snmp_dev st' = snmp_dev st"
    using assms(6,7)
    by (auto simp: ar_snmp_agent_get_pdu_def agent_send_def ar_snmp_dev_open_def ar_snmp_send_ioctl_def say_def Let_def)
qed

definition demo_agent_entry :: snmp_tool_entry where
  "demo_agent_entry = \<lparr>ent_oidSize = 3, ent_oidVal = TArr ([5, 3, 9] @ replicate 125 0), ent_resSize = 3,
     ent_resVal = TArr (response (replicate 132 0) (VInt (ch (CHR ''i'')) 10))\<rparr>"

theorem agent_entry_stored_witness:
  "(\<exists>st'. ar_snmp_agent_get_pdu (demo_tool_host []) snmp_device demo_agent_entry (snmp_tool_start (demo_pick, demo_snmp))
      = Inr st' \<and> kernel_wf (snmp_dev st') \<and>
    kernel_view (snmp_dev st') = put 3 (oid_view demo_snmp) ([5, 3, 9], 3, 3, response (replicate 132 0) (VInt (ch (CHR ''i'')) 10)) \<and>
    snmp_console st' = []) \<and>
   (\<exists>st'. ar_snmp_agent_get_pdu ((demo_tool_host [])\<lparr>host_open := - 2\<rparr>) snmp_device demo_agent_entry
      (snmp_tool_start (demo_pick, demo_snmp)) = Inr st' \<and> snmp_dev st' = (demo_pick, demo_snmp))"
proof -
  let ?v = "VInt (ch (CHR ''i'')) 10" and ?st = "snmp_tool_start (demo_pick, demo_snmp)"
  have bytes: "int_bytes 10 = [10]" by code_simp
  have size: "response_size (replicate 132 0) ?v = 3" by (simp add: response_size_def is_ip_def bytes)
  have oid: "oid_bytes [5, 3, 9] = [5, 3, 9]" by (simp add: oid_bytes_def nonzero_def)
  have "cstr_val ([5, 3, 9] @ replicate 125 0) = [5, 3, 9]" by (simp add: cstr_val_def)
  then have e: "entry_for [5, 3, 9] ?v (replicate 132 0) demo_agent_entry"
    by (simp add: entry_for_def demo_agent_entry_def oid size has_nul_def)
  have wf: "kernel_wf (snmp_dev ?st)"
    using demo_pick_fresh demo_snmp_wf by (simp add: kernel_wf_def snmp_tool_start_def)
  have v: "value_ok ?v" by simp
  have host: "length (replicate 132 (0 :: u8)) = 132" "0 \<le> host_mknod (demo_tool_host [])" "0 \<le> host_open (demo_tool_host [])"
    "host_mknod ((demo_tool_host [])\<lparr>host_open := - 2\<rparr>) < 0 \<or> host_open ((demo_tool_host [])\<lparr>host_open := - 2\<rparr>) < 0"
    by (simp_all add: demo_tool_host_def)
  have st: "snmp_dev ?st = (demo_pick, demo_snmp)" "snmp_console ?st = []" "ar_devfd ?st < 0"
    by (simp_all add: snmp_tool_start_def)
  have k: "kernel_room (demo_pick, demo_snmp) = 3" "kernel_view (demo_pick, demo_snmp) = oid_view demo_snmp"
    by (simp_all add: kernel_room_def kernel_view_def demo_snmp_view(3))
  have w: "word_of_nat (length [5 :: u8, 3, 9]) = (3 :: u16)" "word_of_nat 3 = (3 :: u16)" by simp_all
  have mem: "kernel_mem (demo_pick, demo_snmp) 1" by (simp add: kernel_mem_def demo_snmp_memory)
  show ?thesis
    using agent_entry_stored [OF wf v e host(1,2,4) st(3) host(3)] mem
    unfolding oid size st(1,2) k w by auto
qed

end
